(* ===== verification/Rust_Std.thy ===== *)
theory Rust_Std
  imports Impetus_Prelude "HOL-Library.Sublist"
begin

text \<open>
  The fragment of Rust's standard library that the modelled code calls: \<open>str\<close>
  (valid UTF-8, modelled as its byte list, so \<open>len\<close> counts bytes and the
  \<open>chars\<close> functions count the bytes that start a character), \<open>Path\<close> on Unix
  (components, \<open>join\<close>, \<open>parent\<close>, \<open>file_name\<close>), decimal formatting, and
  the parser of \<open>std::net::IpAddr\<close>.
\<close>

section \<open>Bytes and characters\<close>

abbreviation code :: "char \<Rightarrow> nat" where
  "code c \<equiv> of_char c"

text \<open>A byte starts a character unless it is a UTF-8 continuation byte \<open>10xxxxxx\<close>.\<close>

definition is_char_start :: "char \<Rightarrow> bool" where
  "is_char_start c \<longleftrightarrow> \<not> (128 \<le> code c \<and> code c < 192)"

definition char_count :: "string \<Rightarrow> nat" where
  "char_count s = length (filter is_char_start s)"

text \<open>\<open>s.chars().take(n).collect()\<close>.\<close>

fun take_chars :: "nat \<Rightarrow> string \<Rightarrow> string" where
  "take_chars n [] = []"
| "take_chars n (c # cs) =
     (if is_char_start c
      then (case n of 0 \<Rightarrow> [] | Suc m \<Rightarrow> c # take_chars m cs)
      else c # take_chars n cs)"

lemma char_count_Nil [simp]: "char_count [] = 0"
  by (simp add: char_count_def)

lemma char_count_Cons [simp]:
  "char_count (c # cs) = (if is_char_start c then Suc (char_count cs) else char_count cs)"
  by (simp add: char_count_def)

lemma char_count_append [simp]: "char_count (s @ t) = char_count s + char_count t"
  by (simp add: char_count_def)

lemma char_count_take_chars: "char_count (take_chars n s) = min n (char_count s)"
  by (induction n s rule: take_chars.induct) (auto split: nat.splits)

lemma prefix_take_chars: "prefix (take_chars n s) s"
  by (induction n s rule: take_chars.induct) (auto split: nat.splits)

lemma take_chars_all: "char_count s \<le> n \<Longrightarrow> take_chars n s = s"
  by (induction n s rule: take_chars.induct) (auto split: nat.splits if_splits)

lemma take_chars_append_le: "n \<le> char_count s \<Longrightarrow> is_char_start c \<Longrightarrow>
    take_chars n (s @ c # t) = take_chars n s"
  by (induction n s rule: take_chars.induct) (auto split: nat.splits if_splits)

text \<open>The character \<open>U+2026\<close> (horizontal ellipsis) that the code appends to truncated text.\<close>

definition ellipsis :: string where
  "ellipsis = [CHR 0xE2, CHR 0x80, CHR 0xA6]"

lemma char_count_ellipsis [simp]: "char_count ellipsis = 1"
  by (simp add: ellipsis_def is_char_start_def)

lemma length_ellipsis [simp]: "length ellipsis = 3"
  by (simp add: ellipsis_def)

text \<open>\<open>str::is_char_boundary\<close>, and the loop that moves an index down to a boundary.\<close>

definition is_char_boundary :: "string \<Rightarrow> nat \<Rightarrow> bool" where
  "is_char_boundary s i \<longleftrightarrow> i = 0 \<or> i = length s \<or> (i < length s \<and> is_char_start (s ! i))"

fun floor_char_boundary :: "string \<Rightarrow> nat \<Rightarrow> nat" where
  "floor_char_boundary s 0 = 0"
| "floor_char_boundary s (Suc n) =
     (if is_char_boundary s (Suc n) then Suc n else floor_char_boundary s n)"

lemma floor_char_boundary_le: "floor_char_boundary s n \<le> n"
  by (induction n) auto

lemma floor_char_boundary_is_boundary: "is_char_boundary s (floor_char_boundary s n)"
  by (induction n) (auto simp: is_char_boundary_def)

section \<open>White space and trimming\<close>

text \<open>
  \<open>char::is_whitespace\<close> is the Unicode property \<open>White_Space\<close>; \<open>ws_len s\<close> is the
  number of bytes of the white-space character at the start of \<open>s\<close>, 0 if there is none.
\<close>

definition ascii_ws :: "char \<Rightarrow> bool" where
  "ascii_ws c \<longleftrightarrow> (9 \<le> code c \<and> code c \<le> 13) \<or> code c = 32"

definition ws2 :: "char \<Rightarrow> char \<Rightarrow> bool" where
  "ws2 a b \<longleftrightarrow> code a = 0xC2 \<and> (code b = 0x85 \<or> code b = 0xA0)"

definition ws3 :: "char \<Rightarrow> char \<Rightarrow> char \<Rightarrow> bool" where
  "ws3 a b c \<longleftrightarrow>
     (code a = 0xE1 \<and> code b = 0x9A \<and> code c = 0x80)
   \<or> (code a = 0xE2 \<and> code b = 0x80 \<and>
        ((0x80 \<le> code c \<and> code c \<le> 0x8A) \<or> code c = 0xA8 \<or> code c = 0xA9 \<or> code c = 0xAF))
   \<or> (code a = 0xE2 \<and> code b = 0x81 \<and> code c = 0x9F)
   \<or> (code a = 0xE3 \<and> code b = 0x80 \<and> code c = 0x80)"

fun ws_len :: "string \<Rightarrow> nat" where
  "ws_len [] = 0"
| "ws_len [a] = (if ascii_ws a then 1 else 0)"
| "ws_len [a, b] = (if ascii_ws a then 1 else if ws2 a b then 2 else 0)"
| "ws_len (a # b # c # _) =
     (if ascii_ws a then 1 else if ws2 a b then 2 else if ws3 a b c then 3 else 0)"

lemma ws_len_le: "ws_len s \<le> length s"
  by (induction s rule: ws_len.induct) auto

function trim_start :: "string \<Rightarrow> string" where
  "trim_start s = (if ws_len s = 0 then s else trim_start (drop (ws_len s) s))"
  by pat_completeness auto
termination
proof (relation "measure length")
  fix s :: string
  assume "ws_len s \<noteq> 0"
  moreover have "ws_len s \<le> length s" by (rule ws_len_le)
  ultimately show "(drop (ws_len s) s, s) \<in> measure length" by auto
qed simp

declare trim_start.simps [simp del]

definition ws_suffix_len :: "string \<Rightarrow> nat" where
  "ws_suffix_len s =
     (let n = length s in
      if 1 \<le> n \<and> ws_len (drop (n - 1) s) = 1 then 1
      else if 2 \<le> n \<and> ws_len (drop (n - 2) s) = 2 then 2
      else if 3 \<le> n \<and> ws_len (drop (n - 3) s) = 3 then 3
      else 0)"

function trim_end :: "string \<Rightarrow> string" where
  "trim_end s =
     (if ws_suffix_len s = 0 then s else trim_end (take (length s - ws_suffix_len s) s))"
  by pat_completeness auto
termination
  by (relation "measure length") (auto simp: ws_suffix_len_def Let_def split: if_splits)

declare trim_end.simps [simp del]

definition trim :: "string \<Rightarrow> string" where
  "trim s = trim_end (trim_start s)"

lemma trim_start_Nil [simp]: "trim_start [] = []"
  by (subst trim_start.simps) simp

lemma trim_end_Nil [simp]: "trim_end [] = []"
  by (subst trim_end.simps) (simp add: ws_suffix_len_def)

lemma trim_Nil [simp]: "trim [] = []"
  by (simp add: trim_def)

section \<open>Searching, splitting, joining\<close>

definition to_ascii_lowercase :: "string \<Rightarrow> string" where
  "to_ascii_lowercase =
     map (\<lambda>c. if 65 \<le> code c \<and> code c \<le> 90 then char_of (code c + 32) else c)"

fun str_contains :: "string \<Rightarrow> string \<Rightarrow> bool" where
  "str_contains [] p = (p = [])"
| "str_contains (c # cs) p = (prefix p (c # cs) \<or> str_contains cs p)"

lemma str_contains_iff: "str_contains s p \<longleftrightarrow> sublist p s"
  by (induction s) (auto simp: sublist_Cons_right)

definition starts_with :: "string \<Rightarrow> string \<Rightarrow> bool" where
  "starts_with s p = prefix p s"

definition ends_with :: "string \<Rightarrow> string \<Rightarrow> bool" where
  "ends_with s p = (length p \<le> length s \<and> drop (length s - length p) s = p)"

lemma ends_with_iff: "ends_with s p \<longleftrightarrow> suffix p s"
proof
  assume "ends_with s p"
  then have "s = take (length s - length p) s @ p"
    using append_take_drop_id [of "length s - length p" s] by (simp add: ends_with_def)
  then show "suffix p s" by (auto simp: suffix_def)
qed (auto simp: ends_with_def suffix_def)

text \<open>\<open>trim_end_matches\<close> for one character and for a string pattern.\<close>

definition trim_end_char :: "char \<Rightarrow> string \<Rightarrow> string" where
  "trim_end_char c s = rev (dropWhile (\<lambda>x. x = c) (rev s))"

function trim_end_matches :: "string \<Rightarrow> string \<Rightarrow> string" where
  "trim_end_matches p s =
     (if p \<noteq> [] \<and> ends_with s p then trim_end_matches p (take (length s - length p) s) else s)"
  by pat_completeness auto
termination
proof (relation "measure (\<lambda>(p, s). length s)", goal_cases)
  case (2 p s)
  then have "0 < length p" and "length p \<le> length s" by (auto simp: ends_with_def)
  then have "length s - length p < length s" by linarith
  then show ?case by simp
qed simp

declare trim_end_matches.simps [simp del]

text \<open>\<open>s.split(c)\<close> for a character: always at least one segment.\<close>

fun split_on :: "char \<Rightarrow> string \<Rightarrow> string list" where
  "split_on d [] = [[]]"
| "split_on d (c # cs) =
     (if c = d then [] # split_on d cs
      else (case split_on d cs of [] \<Rightarrow> [[c]] | w # ws \<Rightarrow> (c # w) # ws))"

fun str_join :: "string \<Rightarrow> string list \<Rightarrow> string" where
  "str_join sep [] = []"
| "str_join sep [w] = w"
| "str_join sep (w # v # ws) = w @ sep @ str_join sep (v # ws)"

lemma split_on_not_Nil [simp]: "split_on d s \<noteq> []"
  by (induction s) (auto split: list.splits)

lemma str_join_Cons: "ws \<noteq> [] \<Longrightarrow> str_join sep (w # ws) = w @ sep @ str_join sep ws"
  by (cases ws) simp_all

lemma str_join_split_on: "str_join [d] (split_on d s) = s"
proof (induction s)
  case (Cons c cs)
  show ?case
  proof (cases "split_on d cs")
    case Nil
    then show ?thesis by simp
  next
    case (Cons w ws)
    with Cons.IH show ?thesis by (cases ws) auto
  qed
qed simp

lemma split_on_no_sep: "w \<in> set (split_on d s) \<Longrightarrow> d \<notin> set w"
  by (induction s arbitrary: w) (auto split: list.splits if_splits)

lemma split_on_single: "d \<notin> set s \<Longrightarrow> split_on d s = [s]"
  by (induction s) auto

lemma split_on_append: "d \<notin> set w \<Longrightarrow> split_on d (w @ d # s) = w # split_on d s"
  by (induction w) auto

lemma split_on_str_join:
  "ws \<noteq> [] \<Longrightarrow> (\<And>w. w \<in> set ws \<Longrightarrow> d \<notin> set w) \<Longrightarrow> split_on d (str_join [d] ws) = ws"
proof (induction "[d]" ws rule: str_join.induct)
  case (3 w v ws)
  then show ?case by (simp add: split_on_append)
qed (simp_all add: split_on_single)

text \<open>\<open>split_whitespace\<close>: the maximal runs of non-white characters.\<close>

function split_ws :: "string \<Rightarrow> string \<Rightarrow> string list" where
  "split_ws acc s =
     (if s = [] then (if acc = [] then [] else [rev acc])
      else if ws_len s > 0
      then (if acc = [] then split_ws [] (drop (ws_len s) s)
            else rev acc # split_ws [] (drop (ws_len s) s))
      else split_ws (hd s # acc) (tl s))"
  by pat_completeness auto
termination
proof (relation "measure (\<lambda>(acc, s). length s)", goal_cases)
  case (2 acc s)
  then show ?case using ws_len_le [of s] by auto
next
  case (3 acc s)
  then show ?case using ws_len_le [of s] by auto
qed auto

declare split_ws.simps [simp del]

definition split_whitespace :: "string \<Rightarrow> string list" where
  "split_whitespace s = split_ws [] s"

section \<open>Numbers as text\<close>

fun nat_to_string :: "nat \<Rightarrow> string" where
  "nat_to_string n =
     (if n < 10 then [char_of (48 + n)]
      else nat_to_string (n div 10) @ [char_of (48 + n mod 10)])"

declare nat_to_string.simps [simp del]

text \<open>\<open>format!("{:04}", n)\<close>: zero padding to a minimum width.\<close>

definition pad_zero :: "nat \<Rightarrow> string \<Rightarrow> string" where
  "pad_zero w s = replicate (w - length s) (CHR ''0'') @ s"

definition hex_digit :: "nat \<Rightarrow> char" where
  "hex_digit n = (if n < 10 then char_of (48 + n) else char_of (87 + n))"

text \<open>Lower-case hexadecimal of a byte string (\<open>{:x}\<close> of a digest, \<open>{byte:02x}\<close>).\<close>

definition hex_encode :: "string \<Rightarrow> string" where
  "hex_encode s = concat (map (\<lambda>c. [hex_digit (code c div 16), hex_digit (code c mod 16)]) s)"

lemma nat_to_string_not_Nil [simp]: "nat_to_string n \<noteq> []"
  by (subst nat_to_string.simps) simp

lemma length_hex_encode: "length (hex_encode s) = 2 * length s"
  by (induction s) (simp_all add: hex_encode_def)

section \<open>Paths\<close>

text \<open>
  \<open>std::path::Path\<close> on Unix. A path is its text; two paths are equal, and one
  starts with another, when their components are. \<open>components\<close> drops empty
  segments and \<open>.\<close> segments, except a leading \<open>.\<close> of a relative path.
\<close>

datatype Component = RootDir | CurDir | ParentDir | Normal string

abbreviation slash :: char where
  "slash \<equiv> CHR ''/''"

definition is_absolute :: "string \<Rightarrow> bool" where
  "is_absolute p = starts_with p [slash]"

definition seg_component :: "string \<Rightarrow> Component list" where
  "seg_component w =
     (if w = [] \<or> w = ''.'' then [] else if w = ''..'' then [ParentDir] else [Normal w])"

definition components :: "string \<Rightarrow> Component list" where
  "components p =
     (if is_absolute p then [RootDir] else [])
     @ (case split_on slash p of
          [] \<Rightarrow> []
        | w # ws \<Rightarrow> (if w = ''.'' then [CurDir] else seg_component w)
                   @ concat (map seg_component ws))"

definition file_name :: "string \<Rightarrow> string option" where
  "file_name p =
     (case rev (components p) of Normal w # _ \<Rightarrow> Some w | _ \<Rightarrow> None)"

definition path_starts_with :: "string \<Rightarrow> string \<Rightarrow> bool" where
  "path_starts_with p base = prefix (components base) (components p)"

text \<open>\<open>Path::join\<close>: an absolute argument replaces the path; a separator is added
  unless the text is empty or already ends with one.\<close>

definition path_join :: "string \<Rightarrow> string \<Rightarrow> string" where
  "path_join p q =
     (if is_absolute q then q
      else if p = [] \<or> ends_with p [slash] then p @ q
      else p @ [slash] @ q)"

text \<open>
  \<open>Path::parent\<close>: the text up to the end of the last but one component, that is,
  the shortest prefix of the text with one component less.
\<close>

definition path_parent :: "string \<Rightarrow> string option" where
  "path_parent p =
     (case rev (components p) of
        [] \<Rightarrow> None
      | RootDir # _ \<Rightarrow> None
      | _ # cs \<Rightarrow> List.find (\<lambda>q. components q = rev cs) (map (\<lambda>n. take n p) [0..<length p]))"

lemma path_parent_shorter: "path_parent p = Some q \<Longrightarrow> length q < length p"
  by (auto simp: path_parent_def split: list.splits Component.splits dest!: find_Some_mem)

lemma path_parent_components:
  "path_parent p = Some q \<Longrightarrow> components p \<noteq> [] \<and> components q = butlast (components p)"
proof -
  assume "path_parent p = Some q"
  then obtain c cs where "rev (components p) = c # cs" and q: "components q = rev cs"
    by (auto simp: path_parent_def split: list.splits Component.splits dest!: find_Some_mem)
  then have "components p = rev cs @ [c]" by (metis rev_eq_Cons_iff)
  with q show ?thesis by simp
qed

lemma path_starts_with_refl [simp]: "path_starts_with p p"
  by (simp add: path_starts_with_def)

lemma path_starts_with_trans:
  "path_starts_with p q \<Longrightarrow> path_starts_with q r \<Longrightarrow> path_starts_with p r"
  unfolding path_starts_with_def by (rule prefix_order.trans)

section \<open>IP addresses\<close>

text \<open>
  \<open>std::net::IpAddr\<close> and its \<open>FromStr\<close>. The parser functions return the value
  read and the rest of the input, or \<open>None\<close> with the input left alone
  (\<open>read_atomically\<close>).
\<close>

datatype Ipv4Addr = Ipv4Addr u8 u8 u8 u8

datatype Ipv6Addr = Ipv6Addr u16 u16 u16 u16 u16 u16 u16 u16

datatype IpAddr = V4 Ipv4Addr | V6 Ipv6Addr

definition to_digit :: "nat \<Rightarrow> char \<Rightarrow> nat option" where
  "to_digit radix c =
     (let n = code c;
          d = (if 48 \<le> n \<and> n \<le> 57 then n - 48
               else if 97 \<le> n \<and> n \<le> 122 then n - 87
               else if 65 \<le> n \<and> n \<le> 90 then n - 55 else 255)
      in if d < radix then Some d else None)"

text \<open>The digits at the start of the input.\<close>

fun read_digits :: "nat \<Rightarrow> string \<Rightarrow> nat list \<times> string" where
  "read_digits radix [] = ([], [])"
| "read_digits radix (c # cs) =
     (case to_digit radix c of
        None \<Rightarrow> ([], c # cs)
      | Some d \<Rightarrow> (let (ds, r) = read_digits radix cs in (d # ds, r)))"

definition digits_value :: "nat \<Rightarrow> nat list \<Rightarrow> int" where
  "digits_value radix ds = foldl (\<lambda>v d. v * int radix + int d) 0 ds"

text \<open>\<open>Parser::read_number(radix, Some(max_digits), allow_zero_prefix)\<close> for a result
  type with \<open>bound\<close> values.\<close>

definition read_number :: "nat \<Rightarrow> nat \<Rightarrow> bool \<Rightarrow> int \<Rightarrow> string \<Rightarrow> (int \<times> string) option" where
  "read_number radix max_digits allow_zero_prefix bound s =
     (let (ds, r) = read_digits radix s; v = digits_value radix ds in
      if ds = [] \<or> max_digits < length ds then None
      else if \<not> allow_zero_prefix \<and> hd s = CHR ''0'' \<and> 1 < length ds then None
      else if v < bound then Some (v, r) else None)"

definition read_given_char :: "char \<Rightarrow> string \<Rightarrow> string option" where
  "read_given_char c s = (case s of [] \<Rightarrow> None | x # r \<Rightarrow> if x = c then Some r else None)"

text \<open>\<open>Parser::read_separator\<close>: a separator before every item but the first.\<close>

definition read_separator ::
    "char \<Rightarrow> nat \<Rightarrow> (string \<Rightarrow> ('a \<times> string) option) \<Rightarrow> string \<Rightarrow> ('a \<times> string) option" where
  "read_separator sep index inner s =
     (if 0 < index then Option.bind (read_given_char sep s) inner else inner s)"

fun read_octets :: "nat \<Rightarrow> nat \<Rightarrow> string \<Rightarrow> (int list \<times> string) option" where
  "read_octets i 0 s = Some ([], s)"
| "read_octets i (Suc n) s =
     (case read_separator (CHR ''.'') i (read_number 10 3 False 256) s of
        None \<Rightarrow> None
      | Some (v, r) \<Rightarrow> map_option (\<lambda>(vs, r'). (v # vs, r')) (read_octets (Suc i) n r))"

definition read_ipv4_addr :: "string \<Rightarrow> (Ipv4Addr \<times> string) option" where
  "read_ipv4_addr s =
     (case read_octets 0 4 s of
        Some ([a, b, c, d], r) \<Rightarrow>
          Some (Ipv4Addr (of_int a) (of_int b) (of_int c) (of_int d), r)
      | _ \<Rightarrow> None)"

text \<open>
  \<open>read_groups\<close> reads at most \<open>limit\<close> groups; two groups may be an embedded IPv4
  address, which ends the reading. It returns the groups, whether they end with an
  IPv4 address, and the rest.
\<close>

fun read_groups :: "nat \<Rightarrow> nat \<Rightarrow> string \<Rightarrow> u16 list \<times> bool \<times> string" where
  "read_groups i 0 s = ([], False, s)"
| "read_groups i (Suc n) s =
     (case (if 0 < n then read_separator (CHR '':'') i read_ipv4_addr s else None) of
        Some (Ipv4Addr a b c d, r) \<Rightarrow>
          ([word_cat a b, word_cat c d], True, r)
      | None \<Rightarrow>
          (case read_separator (CHR '':'') i (read_number 16 4 True 65536) s of
             None \<Rightarrow> ([], False, s)
           | Some (v, r) \<Rightarrow>
               (let (gs, v4, r') = read_groups (Suc i) n r in (of_int v # gs, v4, r'))))"

definition ipv6_of_groups :: "u16 list \<Rightarrow> Ipv6Addr option" where
  "ipv6_of_groups gs =
     (case gs of
        [a, b, c, d, e, f, g, h] \<Rightarrow> Some (Ipv6Addr a b c d e f g h)
      | _ \<Rightarrow> None)"

definition read_ipv6_addr :: "string \<Rightarrow> (Ipv6Addr \<times> string) option" where
  "read_ipv6_addr s =
     (let (head, head_ipv4, r) = read_groups 0 8 s in
      if length head = 8 then map_option (\<lambda>a. (a, r)) (ipv6_of_groups head)
      else if head_ipv4 then None
      else (case Option.bind (read_given_char (CHR '':'') r) (read_given_char (CHR '':'')) of
              None \<Rightarrow> None
            | Some r' \<Rightarrow>
                (let (tail, _, r'') = read_groups 0 (8 - (length head + 1)) r' in
                 map_option (\<lambda>a. (a, r''))
                   (ipv6_of_groups (head @ replicate (8 - length head - length tail) 0 @ tail)))))"

text \<open>\<open>str::parse::<IpAddr>()\<close>: IPv4 first, then IPv6, and the whole input is consumed.\<close>

definition parse_ip_addr :: "string \<Rightarrow> IpAddr option" where
  "parse_ip_addr s =
     (case (case read_ipv4_addr s of
              Some (a, r) \<Rightarrow> Some (V4 a, r)
            | None \<Rightarrow> map_option (\<lambda>(a, r). (V6 a, r)) (read_ipv6_addr s)) of
        Some (a, []) \<Rightarrow> Some a
      | _ \<Rightarrow> None)"

text \<open>The text \<open>[...]\<close> is no IP address: a bracket starts neither an octet nor a group.\<close>

lemma parse_ip_addr_bracket: "parse_ip_addr (CHR ''['' # s) = None"
proof -
  have d: "to_digit 10 (CHR ''['') = None" "to_digit 16 (CHR ''['') = None"
    by (simp_all add: to_digit_def)
  have n: "read_number 10 3 z b (CHR ''['' # s) = None" "read_number 16 4 z b (CHR ''['' # s) = None"
    for z b by (simp_all add: read_number_def d)
  have "read_octets 0 (Suc 3) (CHR ''['' # s) = None"
    unfolding read_octets.simps by (simp add: read_separator_def n)
  moreover have "(4 :: nat) = Suc 3" by simp
  ultimately have v4: "read_ipv4_addr (CHR ''['' # s) = None"
    unfolding read_ipv4_addr_def by (metis option.simps(4))
  have "read_groups 0 (Suc 7) (CHR ''['' # s) = ([], False, CHR ''['' # s)"
    unfolding read_groups.simps by (simp add: read_separator_def v4 n)
  moreover have "(8 :: nat) = Suc 7" by simp
  ultimately have g: "read_groups 0 8 (CHR ''['' # s) = ([], False, CHR ''['' # s)"
    by metis
  have v6: "read_ipv6_addr (CHR ''['' # s) = None"
    by (simp add: read_ipv6_addr_def g read_given_char_def)
  show ?thesis by (simp add: parse_ip_addr_def v4 v6)
qed

end
