(* ===== verification/Web_Security.thy ===== *)
theory Web_Security
  imports Rust_Std "HOL-Library.Char_ord" "HOL-Library.List_Lexorder"
begin

unbundle bit_operations_syntax

text \<open>
  The egress policy of the web tools,
  \<open>crates/impetus-core/src/web_research/security.rs\<close>, with the error type of
  \<open>web_research/types.rs\<close>: classification of literal addresses, validation of a URL
  before a request, and the test whether a target needs the private-network grant.

  The URL type is the one of the \<open>url\<close> crate and is a parameter \<open>'u\<close>; the record
  \<open>url_api\<close> holds the functions of the crate that the code calls.
\<close>

section \<open>The URL crate's interface\<close>

record 'u url_api =
  url_parse :: "string \<Rightarrow> string + 'u"
  url_scheme :: "'u \<Rightarrow> string"
  url_username :: "'u \<Rightarrow> string"
  url_password :: "'u \<Rightarrow> string option"
  url_port_or_known_default :: "'u \<Rightarrow> u16 option"
  url_host_str :: "'u \<Rightarrow> string option"
  url_as_str :: "'u \<Rightarrow> string"
  url_join :: "'u \<Rightarrow> string \<Rightarrow> string + 'u"

section \<open>Errors and capabilities\<close>

datatype WebErrorKind =
    InvalidRequest | InvalidUrl | UnsupportedScheme | CredentialsInUrl | PortBlocked | HostBlocked
  | DnsResolutionFailed | AddressBlocked | RedirectLimit | RedirectMissingLocation | Transport
  | HttpStatus | BodyTooLarge | UnsupportedContentType | BackendUnavailable | ArtifactStore
  | Configuration

record WebError =
  error_kind :: WebErrorKind
  error_message :: string
  error_url :: "string option"

definition web_error :: "WebErrorKind \<Rightarrow> string \<Rightarrow> WebError" where
  "web_error k m = \<lparr>error_kind = k, error_message = m, error_url = None\<rparr>"

definition with_url :: "WebError \<Rightarrow> string \<Rightarrow> WebError" where
  "with_url e u = e\<lparr>error_url := Some u\<rparr>"

definition web_error_blocked :: "WebError \<Rightarrow> bool" where
  "web_error_blocked e =
     (error_kind e \<in> {UnsupportedScheme, CredentialsInUrl, PortBlocked, HostBlocked, AddressBlocked})"

datatype WebCapability = Search | Read | PrivateRead | Download | Browser | Submit | Upload

definition capability_is_read_only :: "WebCapability \<Rightarrow> bool" where
  "capability_is_read_only c = (c \<in> {Search, Read, PrivateRead})"

section \<open>Classification of addresses\<close>

datatype AddressClass = Public | Private | NonRoutable

text \<open>The predicates of \<open>std::net::Ipv4Addr\<close> and \<open>Ipv6Addr\<close> that the code uses.\<close>

fun v4_is_unspecified :: "Ipv4Addr \<Rightarrow> bool" where
  "v4_is_unspecified (Ipv4Addr a b c d) = (a = 0 \<and> b = 0 \<and> c = 0 \<and> d = 0)"

fun v4_is_multicast :: "Ipv4Addr \<Rightarrow> bool" where
  "v4_is_multicast (Ipv4Addr a b c d) = (224 \<le> a \<and> a \<le> 239)"

definition v4_broadcast :: Ipv4Addr where
  "v4_broadcast = Ipv4Addr 255 255 255 255"

fun v4_is_private :: "Ipv4Addr \<Rightarrow> bool" where
  "v4_is_private (Ipv4Addr a b c d) =
     (a = 10 \<or> (a = 172 \<and> 16 \<le> b \<and> b \<le> 31) \<or> (a = 192 \<and> b = 168))"

fun v4_is_loopback :: "Ipv4Addr \<Rightarrow> bool" where
  "v4_is_loopback (Ipv4Addr a b c d) = (a = 127)"

fun v4_is_link_local :: "Ipv4Addr \<Rightarrow> bool" where
  "v4_is_link_local (Ipv4Addr a b c d) = (a = 169 \<and> b = 254)"

fun classify_v4 :: "Ipv4Addr \<Rightarrow> AddressClass" where
  "classify_v4 (Ipv4Addr first second third fourth) =
     (let address = Ipv4Addr first second third fourth in
      if first = 0
         \<or> v4_is_unspecified address
         \<or> v4_is_multicast address
         \<or> address = v4_broadcast
         \<or> 240 \<le> first
         \<or> (first = 192 \<and> second = 0 \<and> third = 0)
         \<or> (first = 192 \<and> second = 0 \<and> third = 2)
         \<or> (first = 192 \<and> second = 88 \<and> third = 99)
         \<or> (first = 198 \<and> 18 \<le> second \<and> second \<le> 19)
         \<or> (first = 198 \<and> second = 51 \<and> third = 100)
         \<or> (first = 203 \<and> second = 0 \<and> third = 113)
      then NonRoutable
      else if v4_is_private address
         \<or> v4_is_loopback address
         \<or> v4_is_link_local address
         \<or> (first = 100 \<and> 64 \<le> second \<and> second \<le> 127)
      then Private
      else Public)"

text \<open>\<open>Ipv6Addr::to_ipv4_mapped\<close>: an address of \<open>::ffff:0:0/96\<close>; the two last segments
  are the four octets.\<close>

fun to_ipv4_mapped :: "Ipv6Addr \<Rightarrow> Ipv4Addr option" where
  "to_ipv4_mapped (Ipv6Addr a b c d e f g h) =
     (if a = 0 \<and> b = 0 \<and> c = 0 \<and> d = 0 \<and> e = 0 \<and> f = 0xffff
      then Some (Ipv4Addr (ucast (drop_bit 8 g)) (ucast g) (ucast (drop_bit 8 h)) (ucast h))
      else None)"

fun v6_is_unspecified :: "Ipv6Addr \<Rightarrow> bool" where
  "v6_is_unspecified (Ipv6Addr a b c d e f g h) =
     (a = 0 \<and> b = 0 \<and> c = 0 \<and> d = 0 \<and> e = 0 \<and> f = 0 \<and> g = 0 \<and> h = 0)"

fun v6_is_loopback :: "Ipv6Addr \<Rightarrow> bool" where
  "v6_is_loopback (Ipv6Addr a b c d e f g h) =
     (a = 0 \<and> b = 0 \<and> c = 0 \<and> d = 0 \<and> e = 0 \<and> f = 0 \<and> g = 0 \<and> h = 1)"

fun v6_is_multicast :: "Ipv6Addr \<Rightarrow> bool" where
  "v6_is_multicast (Ipv6Addr a b c d e f g h) = (a AND 0xff00 = 0xff00)"

fun classify_v6 :: "Ipv6Addr \<Rightarrow> AddressClass" where
  "classify_v6 (Ipv6Addr s0 s1 s2 s3 s4 s5 s6 s7) =
     (let address = Ipv6Addr s0 s1 s2 s3 s4 s5 s6 s7 in
      case to_ipv4_mapped address of
        Some mapped \<Rightarrow> classify_v4 mapped
      | None \<Rightarrow>
          if v6_is_unspecified address
             \<or> v6_is_multicast address
             \<or> (s0 = 0x2001 \<and> s1 = 0x0db8)
          then NonRoutable
          else if v6_is_loopback address
             \<or> s0 AND 0xfe00 = 0xfc00
             \<or> s0 AND 0xffc0 = 0xfe80
             \<or> s0 AND 0xffc0 = 0xfec0
          then Private
          else Public)"

fun classify_address :: "IpAddr \<Rightarrow> AddressClass" where
  "classify_address (V4 a) = classify_v4 a"
| "classify_address (V6 a) = classify_v6 a"

section \<open>Display of addresses\<close>

fun show_v4 :: "Ipv4Addr \<Rightarrow> string" where
  "show_v4 (Ipv4Addr a b c d) =
     str_join ''.'' (map (\<lambda>x. nat_to_string (unat x)) [a, b, c, d])"

fun nat_to_hex :: "nat \<Rightarrow> string" where
  "nat_to_hex n = (if n < 16 then [hex_digit n] else nat_to_hex (n div 16) @ [hex_digit (n mod 16)])"

declare nat_to_hex.simps [simp del]

text \<open>The first longest run of zero segments: its start and length.\<close>

fun longest_zeros :: "nat \<Rightarrow> nat \<times> nat \<Rightarrow> nat \<times> nat \<Rightarrow> u16 list \<Rightarrow> nat \<times> nat" where
  "longest_zeros i current longest [] = longest"
| "longest_zeros i (cs, cl) (ls, ll) (s # ss) =
     (if s = 0
      then (let cur = (if cl = 0 then (i, 1) else (cs, cl + 1)) in
            longest_zeros (i + 1) cur (if ll < snd cur then cur else (ls, ll)) ss)
      else longest_zeros (i + 1) (0, 0) (ls, ll) ss)"

definition show_segments :: "u16 list \<Rightarrow> string" where
  "show_segments ss = str_join '':'' (map (\<lambda>s. nat_to_hex (unat s)) ss)"

fun show_v6 :: "Ipv6Addr \<Rightarrow> string" where
  "show_v6 (Ipv6Addr a b c d e f g h) =
     (case to_ipv4_mapped (Ipv6Addr a b c d e f g h) of
        Some v4 \<Rightarrow> ''::ffff:'' @ show_v4 v4
      | None \<Rightarrow>
          (let ss = [a, b, c, d, e, f, g, h];
               (start, len) = longest_zeros 0 (0, 0) (0, 0) ss in
           if 1 < len
           then show_segments (take start ss) @ ''::'' @ show_segments (drop (start + len) ss)
           else show_segments ss))"

fun show_ip :: "IpAddr \<Rightarrow> string" where
  "show_ip (V4 a) = show_v4 a"
| "show_ip (V6 a) = show_v6 a"

section \<open>The egress policy\<close>

record EgressPolicy =
  egress_allow_private_network :: bool
  egress_allowed_ports :: "u16 set"
  egress_blocked_host_suffixes :: "string list"

definition egress_default :: EgressPolicy where
  "egress_default =
     \<lparr>egress_allow_private_network = False,
      egress_allowed_ports = {80, 443},
      egress_blocked_host_suffixes =
        [''localhost'', ''.localhost'', ''.local'', ''.internal'', ''.home.arpa'']\<rparr>"

definition egress_with_private_network :: "bool \<Rightarrow> EgressPolicy" where
  "egress_with_private_network allow = egress_default\<lparr>egress_allow_private_network := allow\<rparr>"

definition host_entry_blocks :: "string \<Rightarrow> string \<Rightarrow> bool" where
  "host_entry_blocks host entry =
     (case entry of
        c # rest \<Rightarrow> if c = CHR ''.'' then host = rest \<or> ends_with host entry else host = entry
      | [] \<Rightarrow> host = entry)"

definition host_is_blocked :: "EgressPolicy \<Rightarrow> string \<Rightarrow> bool" where
  "host_is_blocked p host = list_ex (host_entry_blocks host) (egress_blocked_host_suffixes p)"

definition enforce_address :: "EgressPolicy \<Rightarrow> IpAddr \<Rightarrow> string \<Rightarrow> WebError + unit" where
  "enforce_address p address url =
     (case classify_address address of
        Public \<Rightarrow> Inr ()
      | Private \<Rightarrow>
          if egress_allow_private_network p then Inr ()
          else Inl (with_url (web_error AddressBlocked
                 (''private/local address '' @ show_ip address @ '' is blocked'')) url)
      | NonRoutable \<Rightarrow>
          Inl (with_url (web_error AddressBlocked
                 (''non-routable/special address '' @ show_ip address @ '' is blocked'')) url))"

definition normalize_host :: "string \<Rightarrow> string" where
  "normalize_host host = to_ascii_lowercase (trim_end_char (CHR ''.'') host)"

definition validate_url :: "'u url_api \<Rightarrow> EgressPolicy \<Rightarrow> string \<Rightarrow> WebError + 'u" where
  "validate_url U p raw =
     (case url_parse U raw of
        Inl err \<Rightarrow> Inl (with_url (web_error InvalidUrl (''invalid URL: '' @ err)) raw)
      | Inr url \<Rightarrow>
          if url_scheme U url \<notin> {''http'', ''https''}
          then Inl (with_url (web_error UnsupportedScheme
                 (''scheme '' @ [CHR 0x27] @ url_scheme U url @ [CHR 0x27]
                    @ '' is not allowed for web research'')) raw)
          else if url_username U url \<noteq> [] \<or> url_password U url \<noteq> None
          then Inl (with_url (web_error CredentialsInUrl
                 ''credentials embedded in URLs are not allowed'') raw)
          else (case url_port_or_known_default U url of
            None \<Rightarrow> Inl (with_url (web_error PortBlocked ''URL has no usable port'') raw)
          | Some port \<Rightarrow>
              if port \<notin> egress_allowed_ports p
              then Inl (with_url (web_error PortBlocked
                     (''port '' @ nat_to_string (unat port)
                        @ '' is not allowed by web egress policy'')) raw)
              else (case url_host_str U url of
                None \<Rightarrow> Inl (with_url (web_error InvalidUrl ''URL does not contain a host'') raw)
              | Some host \<Rightarrow>
                  let normalized_host = normalize_host host in
                  if \<not> egress_allow_private_network p \<and> host_is_blocked p normalized_host
                  then Inl (with_url (web_error HostBlocked
                         (''host '' @ [CHR 0x27] @ host @ [CHR 0x27]
                            @ '' is blocked by web egress policy'')) raw)
                  else (case parse_ip_addr normalized_host of
                    None \<Rightarrow> Inr url
                  | Some address \<Rightarrow> rbind (enforce_address p address raw) (\<lambda>_. Inr url)))))"

definition target_requires_private_read :: "'u url_api \<Rightarrow> string \<Rightarrow> bool" where
  "target_requires_private_read U target =
     (let host = (case url_parse U target of
                    Inl _ \<Rightarrow> target
                  | Inr url \<Rightarrow> unwrap_or (url_host_str U url) target);
          normalized = normalize_host host in
      if host_is_blocked egress_default normalized then True
      else (case parse_ip_addr normalized of
        None \<Rightarrow> False
      | Some address \<Rightarrow> classify_address address = Private))"

section \<open>Reference: address blocks in CIDR notation\<close>

text \<open>
  The blocks the classification is meant to cover, as a table of prefixes: an address
  belongs to a block when its leading bits agree with it. The first matching row decides.
\<close>

fun v4_value :: "Ipv4Addr \<Rightarrow> nat" where
  "v4_value (Ipv4Addr a b c d) = ((unat a * 256 + unat b) * 256 + unat c) * 256 + unat d"

definition in_block :: "Ipv4Addr \<Rightarrow> Ipv4Addr \<times> nat \<Rightarrow> bool" where
  "in_block address block =
     (v4_value address div 2 ^ (32 - snd block) = v4_value (fst block) div 2 ^ (32 - snd block))"

definition non_routable_blocks :: "(Ipv4Addr \<times> nat) list" where
  "non_routable_blocks =
     [(Ipv4Addr 0 0 0 0, 8), (Ipv4Addr 192 0 0 0, 24), (Ipv4Addr 192 0 2 0, 24),
      (Ipv4Addr 192 88 99 0, 24), (Ipv4Addr 198 18 0 0, 15), (Ipv4Addr 198 51 100 0, 24),
      (Ipv4Addr 203 0 113 0, 24), (Ipv4Addr 224 0 0 0, 4), (Ipv4Addr 240 0 0 0, 4)]"

definition private_blocks :: "(Ipv4Addr \<times> nat) list" where
  "private_blocks =
     [(Ipv4Addr 10 0 0 0, 8), (Ipv4Addr 100 64 0 0, 10), (Ipv4Addr 127 0 0 0, 8),
      (Ipv4Addr 169 254 0 0, 16), (Ipv4Addr 172 16 0 0, 12), (Ipv4Addr 192 168 0 0, 16)]"

definition class_by_blocks :: "Ipv4Addr \<Rightarrow> AddressClass" where
  "class_by_blocks address =
     (if list_ex (in_block address) non_routable_blocks then NonRoutable
      else if list_ex (in_block address) private_blocks then Private else Public)"

lemma u8_bound [simp]: "unat (x :: u8) < 256"
  using unsigned_less [of x] by simp

lemma byte_div: "y < 256 \<Longrightarrow> (x * 256 + y) div 256 = (x :: nat)"
  by simp

lemma v4_value_div_bytes:
  "v4_value (Ipv4Addr a b c d) div 256 = (unat a * 256 + unat b) * 256 + unat c"
  "v4_value (Ipv4Addr a b c d) div 65536 = unat a * 256 + unat b"
  "v4_value (Ipv4Addr a b c d) div 16777216 = unat a"
proof -
  let ?v = "v4_value (Ipv4Addr a b c d)"
  show 1: "?v div 256 = (unat a * 256 + unat b) * 256 + unat c"
    by (simp only: v4_value.simps byte_div u8_bound)
  have "?v div 65536 = ?v div 256 div 256" by (simp only: div_mult2_eq [symmetric]) simp
  then show 2: "?v div 65536 = unat a * 256 + unat b" by (simp only: 1 byte_div u8_bound)
  have "?v div 16777216 = ?v div 65536 div 256" by (simp only: div_mult2_eq [symmetric]) simp
  then show "?v div 16777216 = unat a" by (simp only: 2 byte_div u8_bound)
qed

lemma v4_value_div_bits:
  "v4_value (Ipv4Addr a b c d) div 268435456 = unat a div 16"
  "v4_value (Ipv4Addr a b c d) div 4194304 = unat a * 4 + unat b div 64"
  "v4_value (Ipv4Addr a b c d) div 1048576 = unat a * 16 + unat b div 16"
  "v4_value (Ipv4Addr a b c d) div 131072 = unat a * 128 + unat b div 2"
proof -
  let ?v = "v4_value (Ipv4Addr a b c d)"
  have "?v div 268435456 = ?v div 16777216 div 16" "?v div 4194304 = ?v div 65536 div 64"
    "?v div 1048576 = ?v div 65536 div 16" "?v div 131072 = ?v div 65536 div 2"
    by (simp_all only: div_mult2_eq [symmetric]) simp_all
  moreover have "(unat a * 256 + unat b) div 64 = unat a * 4 + unat b div 64"
    "(unat a * 256 + unat b) div 16 = unat a * 16 + unat b div 16"
    "(unat a * 256 + unat b) div 2 = unat a * 128 + unat b div 2"
    using div_mult_self3 [of 64 "unat a * 4" "unat b"] div_mult_self3 [of 16 "unat a * 16" "unat b"]
      div_mult_self3 [of 2 "unat a * 128" "unat b"] by simp_all
  ultimately show "?v div 268435456 = unat a div 16" "?v div 4194304 = unat a * 4 + unat b div 64"
    "?v div 1048576 = unat a * 16 + unat b div 16" "?v div 131072 = unat a * 128 + unat b div 2"
    by (simp_all only: v4_value_div_bytes)
qed

lemmas v4_value_div = v4_value_div_bytes v4_value_div_bits

lemma digits_eq_iff:
  "y < k \<Longrightarrow> y' < k \<Longrightarrow> x * k + y = x' * k + y' \<longleftrightarrow> x = x' \<and> y = y'" for x :: nat
  by (metis div_mult_self3 div_less add.right_neutral mod_mult_self3 mod_less not_less0)

lemma block_sizes:
  "2 ^ (32 - 4) = (268435456 :: nat)" "2 ^ (32 - 8) = (16777216 :: nat)"
  "2 ^ (32 - 10) = (4194304 :: nat)" "2 ^ (32 - 12) = (1048576 :: nat)"
  "2 ^ (32 - 15) = (131072 :: nat)" "2 ^ (32 - 16) = (65536 :: nat)" "2 ^ (32 - 24) = (256 :: nat)"
  by simp_all

lemma in_block_simps:
  "in_block (Ipv4Addr a b c d) (Ipv4Addr p q r s, 4) = (unat a div 16 = unat p div 16)"
  "in_block (Ipv4Addr a b c d) (Ipv4Addr p q r s, 8) = (a = p)"
  "in_block (Ipv4Addr a b c d) (Ipv4Addr p q r s, 10) = (a = p \<and> unat b div 64 = unat q div 64)"
  "in_block (Ipv4Addr a b c d) (Ipv4Addr p q r s, 12) = (a = p \<and> unat b div 16 = unat q div 16)"
  "in_block (Ipv4Addr a b c d) (Ipv4Addr p q r s, 15) = (a = p \<and> unat b div 2 = unat q div 2)"
  "in_block (Ipv4Addr a b c d) (Ipv4Addr p q r s, 16) = (a = p \<and> b = q)"
  "in_block (Ipv4Addr a b c d) (Ipv4Addr p q r s, 24) = (a = p \<and> b = q \<and> c = r)"
proof -
  have small: "unat x div 64 < 4" "unat x div 16 < 16" "unat x div 2 < 128" for x :: u8
    using u8_bound [of x] by (simp_all add: less_mult_imp_div_less)
  show "in_block (Ipv4Addr a b c d) (Ipv4Addr p q r s, 4) = (unat a div 16 = unat p div 16)"
    "in_block (Ipv4Addr a b c d) (Ipv4Addr p q r s, 8) = (a = p)"
    "in_block (Ipv4Addr a b c d) (Ipv4Addr p q r s, 10) = (a = p \<and> unat b div 64 = unat q div 64)"
    "in_block (Ipv4Addr a b c d) (Ipv4Addr p q r s, 12) = (a = p \<and> unat b div 16 = unat q div 16)"
    "in_block (Ipv4Addr a b c d) (Ipv4Addr p q r s, 15) = (a = p \<and> unat b div 2 = unat q div 2)"
    "in_block (Ipv4Addr a b c d) (Ipv4Addr p q r s, 16) = (a = p \<and> b = q)"
    "in_block (Ipv4Addr a b c d) (Ipv4Addr p q r s, 24) = (a = p \<and> b = q \<and> c = r)"
    unfolding in_block_def fst_conv snd_conv word_unat_eq_iff
    by (simp_all only: block_sizes v4_value_div digits_eq_iff small u8_bound conj_assoc)
qed

text \<open>
  The comparisons the code writes on octets are the bit-prefix tests of the table.
\<close>

lemma div_eq_range: "0 < k \<Longrightarrow> n div k = m \<longleftrightarrow> k * m \<le> n \<and> n < k * Suc m" for n :: nat
  by (metis div_nat_eqI div_times_less_eq_dividend dividend_less_div_times mult.commute mult_Suc add.commute)

lemma octet_ranges:
  "(unat b div 64 = Suc 0) = (64 \<le> b \<and> b \<le> 127)" "(unat b div 16 = Suc 0) = (16 \<le> b \<and> b \<le> 31)"
  "(unat b div 2 = 9) = (18 \<le> b \<and> b \<le> 19)" "(unat b div 16 = 14) = (224 \<le> b \<and> b \<le> 239)"
  "(unat b div 16 = 15) = (240 \<le> b)" for b :: u8
  using u8_bound [of b] by (simp_all add: word_le_nat_alt div_eq_range) auto

section \<open>Facts about the policy\<close>

definition address_permitted :: "EgressPolicy \<Rightarrow> IpAddr \<Rightarrow> bool" where
  "address_permitted p address \<longleftrightarrow>
     classify_address address = Public
       \<or> (classify_address address = Private \<and> egress_allow_private_network p)"

lemma enforce_address_ok [simp]: "enforce_address p address url = Inr u \<longleftrightarrow> address_permitted p address"
  by (cases "classify_address address") (auto simp: enforce_address_def address_permitted_def)

lemma enforce_address_err: "enforce_address p address url = Inl e \<Longrightarrow>
    error_kind e = AddressBlocked \<and> error_url e = Some url \<and> web_error_blocked e"
  by (auto simp: enforce_address_def with_url_def web_error_def web_error_blocked_def
        split: AddressClass.splits if_splits)

text \<open>What a URL has to satisfy to be requested at all.\<close>

definition url_permitted :: "'u url_api \<Rightarrow> EgressPolicy \<Rightarrow> 'u \<Rightarrow> bool" where
  "url_permitted U p url \<longleftrightarrow>
     url_scheme U url \<in> {''http'', ''https''}
     \<and> url_username U url = [] \<and> url_password U url = None
     \<and> (\<exists>port \<in> egress_allowed_ports p. url_port_or_known_default U url = Some port)
     \<and> (\<exists>host. url_host_str U url = Some host
          \<and> (egress_allow_private_network p \<or> \<not> host_is_blocked p (normalize_host host))
          \<and> (\<forall>address. parse_ip_addr (normalize_host host) = Some address
                \<longrightarrow> address_permitted p address))"

lemma validate_url_ok_iff:
  "validate_url U p raw = Inr url \<longleftrightarrow> url_parse U raw = Inr url \<and> url_permitted U p url"
  by (cases "url_parse U raw")
    (auto simp: validate_url_def url_permitted_def Let_def rbind_eq_Inr_iff
       split: option.splits if_splits)

lemma egress_with_private_network_simps [simp]:
  "egress_allow_private_network (egress_with_private_network b) = b"
  "egress_allowed_ports (egress_with_private_network b) = egress_allowed_ports egress_default"
  "host_is_blocked (egress_with_private_network b) = host_is_blocked egress_default"
  by (simp_all add: egress_with_private_network_def host_is_blocked_def fun_eq_iff)

lemma host_entry_blocks_iff:
  "host_entry_blocks host entry \<longleftrightarrow>
     host = entry \<or> (\<exists>name. entry = CHR ''.'' # name \<and> (host = name \<or> ends_with host entry))"
  by (cases entry) (auto simp: host_entry_blocks_def ends_with_iff)

lemma trim_end_char_bracketed: "c \<noteq> CHR '']'' \<Longrightarrow> trim_end_char c (s @ '']'') = s @ '']''"
  by (simp add: trim_end_char_def)

lemma normalize_host_bracketed:
  "normalize_host (CHR ''['' # s @ '']'') = CHR ''['' # to_ascii_lowercase s @ '']''"
  using trim_end_char_bracketed [of "CHR ''.''" "CHR ''['' # s"]
  by (simp add: normalize_host_def to_ascii_lowercase_def)

lemma default_not_blocked_bracketed: "\<not> host_is_blocked egress_default (s @ '']'')"
  by (auto simp: host_is_blocked_def egress_default_def host_entry_blocks_def ends_with_iff suffix_def)

section \<open>Properties\<close>

text \<open>
  C38. The octet comparisons of \<open>classify_v4\<close> classify every IPv4 address exactly as the
  table of CIDR blocks does: special-purpose and multicast blocks are non-routable, the
  RFC 1918, loopback, link-local and carrier-grade NAT blocks are private, and every other
  address is public.
\<close>

theorem classify_v4_by_blocks: "classify_v4 address = class_by_blocks address"
proof (cases address)
  case (Ipv4Addr a b c d)
  have nr: "list_ex (in_block (Ipv4Addr a b c d)) non_routable_blocks \<longleftrightarrow>
      a = 0 \<or> (a = 192 \<and> b = 0 \<and> c = 0) \<or> (a = 192 \<and> b = 0 \<and> c = 2)
        \<or> (a = 192 \<and> b = 88 \<and> c = 99) \<or> (a = 198 \<and> 18 \<le> b \<and> b \<le> 19)
        \<or> (a = 198 \<and> b = 51 \<and> c = 100) \<or> (a = 203 \<and> b = 0 \<and> c = 113)
        \<or> (224 \<le> a \<and> a \<le> 239) \<or> 240 \<le> a"
    by (simp add: non_routable_blocks_def in_block_simps octet_ranges)
  have pr: "list_ex (in_block (Ipv4Addr a b c d)) private_blocks \<longleftrightarrow>
      a = 10 \<or> (a = 100 \<and> 64 \<le> b \<and> b \<le> 127) \<or> a = 127 \<or> (a = 169 \<and> b = 254)
        \<or> (a = 172 \<and> 16 \<le> b \<and> b \<le> 31) \<or> (a = 192 \<and> b = 168)"
    by (simp add: private_blocks_def in_block_simps octet_ranges)
  show ?thesis
    unfolding Ipv4Addr class_by_blocks_def nr pr classify_v4.simps
    by (auto simp: Let_def v4_broadcast_def)
qed

text \<open>
  An IPv4 address cannot change its class by being written as an IPv4-mapped IPv6
  address: \<open>::ffff:a.b.c.d\<close> is classified as \<open>a.b.c.d\<close> is.
\<close>

theorem mapped_same_class:
  "classify_address (V6 (Ipv6Addr 0 0 0 0 0 0xffff
      (push_bit 8 (ucast a) OR ucast b) (push_bit 8 (ucast c) OR ucast d)))
   = classify_address (V4 (Ipv4Addr a b c d))" for a b c d :: u8
proof -
  have hi: "(ucast (drop_bit 8 (push_bit 8 (ucast x) OR ucast y :: u16)) :: u8) = x"
    and lo: "(ucast (push_bit 8 (ucast x) OR ucast y :: u16) :: u8) = y" for x y :: u8
  proof -
    have none: "\<not> bit z (8 + n)" for z :: u8 and n
      using bit_imp_le_length [of z "8 + n"] by auto
    show "(ucast (drop_bit 8 (push_bit 8 (ucast x) OR ucast y :: u16)) :: u8) = x"
      "(ucast (push_bit 8 (ucast x) OR ucast y :: u16) :: u8) = y"
      by (auto intro!: bit_word_eqI simp: bit_simps none)
  qed
  have "to_ipv4_mapped (Ipv6Addr 0 0 0 0 0 0xffff
      (push_bit 8 (ucast a) OR ucast b) (push_bit 8 (ucast c) OR ucast d)) = Some (Ipv4Addr a b c d)"
    by (simp only: to_ipv4_mapped.simps hi lo simp_thms if_True)
  then show ?thesis by (simp only: classify_address.simps classify_v6.simps Let_def option.case)
qed

text \<open>
  C37. \<open>validate_url\<close> lets a URL through exactly when it parses, its scheme is \<open>http\<close> or
  \<open>https\<close>, it carries no credentials, its port is allowed, it has a host that is not a
  blocked name (unless the private network is granted), and a host that is a literal
  address is permitted by its class. Every refusal names the URL and has one of the six
  error kinds of the checks.
\<close>

theorem validate_url_correct:
  "(validate_url U p raw = Inr url \<longleftrightarrow> url_parse U raw = Inr url \<and> url_permitted U p url)
   \<and> (\<forall>e. validate_url U p raw = Inl e \<longrightarrow> error_url e = Some raw
        \<and> error_kind e \<in> {InvalidUrl, UnsupportedScheme, CredentialsInUrl, PortBlocked,
             HostBlocked, AddressBlocked})"
proof (intro conjI allI impI)
  fix e assume "validate_url U p raw = Inl e"
  then show "error_url e = Some raw" and "error_kind e \<in> {InvalidUrl, UnsupportedScheme,
      CredentialsInUrl, PortBlocked, HostBlocked, AddressBlocked}"
    by (auto simp: validate_url_def Let_def rbind_eq_Inl_iff with_url_def web_error_def
        split: sum.splits option.splits if_splits dest: enforce_address_err)
qed (rule validate_url_ok_iff)

text \<open>A concrete URL crate for the witnesses: a URL is its host, on port 80.\<close>

definition plain_host_api :: "string url_api" where
  "plain_host_api =
     (let scheme = ''http://'' in
     \<lparr>url_parse = (\<lambda>s. if starts_with s scheme then Inr (drop (length scheme) s) else Inl ''relative''),
      url_scheme = (\<lambda>_. ''http''), url_username = (\<lambda>_. []), url_password = (\<lambda>_. None),
      url_port_or_known_default = (\<lambda>_. Some 80), url_host_str = Some,
      url_as_str = (\<lambda>s. ''http://'' @ s),
      url_join = (\<lambda>_ s. if starts_with s scheme then Inr (drop (length scheme) s) else Inl ''relative'')\<rparr>)"

theorem validate_url_correct_witness:
  "validate_url plain_host_api egress_default ''http://127.0.0.1''
     = Inl \<lparr>error_kind = AddressBlocked,
            error_message = ''private/local address 127.0.0.1 is blocked'',
            error_url = Some ''http://127.0.0.1''\<rparr>
   \<and> \<not> url_permitted plain_host_api egress_default ''127.0.0.1''"
proof -
  have v: "validate_url plain_host_api egress_default ''http://127.0.0.1''
     = Inl \<lparr>error_kind = AddressBlocked,
            error_message = ''private/local address 127.0.0.1 is blocked'',
            error_url = Some ''http://127.0.0.1''\<rparr>"
    by code_simp
  have p: "url_parse plain_host_api ''http://127.0.0.1'' = Inr ''127.0.0.1''"
    by code_simp
  have "validate_url plain_host_api egress_default ''http://127.0.0.1'' \<noteq> Inr ''127.0.0.1''"
    unfolding v by (rule sum.distinct(1))
  with p have "\<not> url_permitted plain_host_api egress_default ''127.0.0.1''"
    using validate_url_correct [THEN conjunct1, of plain_host_api egress_default "''http://127.0.0.1''" "''127.0.0.1''"] by blast
  with v show ?thesis by (rule conjI)
qed

text \<open>
  A URL that passes \<open>validate_url\<close> without the private-network grant never needs the
  private-read capability: the two checks agree, so a target that
  \<open>target_requires_private_read\<close> flags is refused by the default policy.
\<close>

theorem private_target_refused:
  assumes "target_requires_private_read U raw"
  shows "\<not> is_ok (validate_url U (egress_with_private_network False) raw)"
proof
  assume "is_ok (validate_url U (egress_with_private_network False) raw)"
  then obtain url where ok: "url_parse U raw = Inr url"
    and perm: "url_permitted U (egress_with_private_network False) url"
    by (auto simp: is_ok_iff validate_url_ok_iff)
  then obtain host where h: "url_host_str U url = Some host"
    and nb: "\<not> host_is_blocked egress_default (normalize_host host)"
    and cls: "\<And>a. parse_ip_addr (normalize_host host) = Some a \<Longrightarrow> classify_address a = Public"
    by (auto simp: url_permitted_def address_permitted_def)
  have "\<not> target_requires_private_read U raw"
    using ok h nb cls by (auto simp: target_requires_private_read_def Let_def split: option.splits)
  with assms show False by simp
qed

theorem private_target_refused_witness:
  "\<not> is_ok (validate_url plain_host_api (egress_with_private_network False) ''http://db.internal.'')"
proof -
  have "target_requires_private_read plain_host_api ''http://db.internal.''"
    by code_simp
  then show ?thesis by (rule private_target_refused)
qed

text \<open>
  A literal IPv6 address in a URL is not classified. The \<open>url\<close> crate's \<open>host_str\<close>
  returns such a host in brackets, and \<open>IpAddr\<close> does not parse with brackets, so
  \<open>target_requires_private_read\<close> is false for every one of them, the loopback address
  included, although its documentation says that literal private addresses are covered.
\<close>

theorem bracketed_literal_not_private_read:
  assumes "url_parse U raw = Inr url"
    and "url_host_str U url = Some (CHR ''['' # literal @ '']'')"
  shows "\<not> target_requires_private_read U raw"
  using assms default_not_blocked_bracketed [of "CHR ''['' # to_ascii_lowercase literal"]
  by (simp add: target_requires_private_read_def Let_def normalize_host_bracketed
      parse_ip_addr_bracket)

theorem bracketed_literal_not_private_read_witness:
  "\<not> target_requires_private_read plain_host_api ''http://[::1]''
   \<and> classify_address (V6 (Ipv6Addr 0 0 0 0 0 0 0 1)) = Private"
proof -
  have p: "url_parse plain_host_api ''http://[::1]'' = Inr ''[::1]''" by code_simp
  have h: "url_host_str plain_host_api ''[::1]'' = Some (CHR ''['' # ''::1'' @ '']'')"
    by code_simp
  have "\<not> target_requires_private_read plain_host_api ''http://[::1]''"
    by (rule bracketed_literal_not_private_read [OF p h])
  moreover have "classify_address (V6 (Ipv6Addr 0 0 0 0 0 0 0 1)) = Private" by simp
  ultimately show ?thesis by (intro conjI)
qed

end
