(* ===== verification/Web_Client.thy ===== *)
theory Web_Client
  imports Web_Security
begin

text \<open>
  The HTTP client of the web tools, \<open>crates/impetus-core/src/web_research/http.rs\<close>: name
  resolution with the egress check on every address, the bounded read of a response body
  and the redirect loop of \<open>SecureHttpClient::execute\<close>.

  The two trait objects of the client are functions: \<open>resolver\<close> (\<open>DnsResolver::resolve\<close>)
  and \<open>transport\<close> (\<open>HttpTransport::get\<close> and \<open>post_form\<close>). Both take the number of the hop
  as their first argument, so a name may resolve differently on every call. The loop
  returns the requests it handed to the transport besides its result.
\<close>

section \<open>Addresses\<close>

datatype SocketAddr = SocketAddrV4 Ipv4Addr u16 | SocketAddrV6 Ipv6Addr u16 u32 u32

fun socket_ip :: "SocketAddr \<Rightarrow> IpAddr" where
  "socket_ip (SocketAddrV4 a _) = V4 a"
| "socket_ip (SocketAddrV6 a _ _ _) = V6 a"

fun socket_new :: "IpAddr \<Rightarrow> u16 \<Rightarrow> SocketAddr" where
  "socket_new (V4 a) port = SocketAddrV4 a port"
| "socket_new (V6 a) port = SocketAddrV6 a port 0 0"

fun show_socket :: "SocketAddr \<Rightarrow> string" where
  "show_socket (SocketAddrV4 a port) = show_v4 a @ '':'' @ nat_to_string (unat port)"
| "show_socket (SocketAddrV6 a port flowinfo scope_id) =
     (if scope_id = 0 then ''['' @ show_v6 a @ '']:'' @ nat_to_string (unat port)
      else ''['' @ show_v6 a @ ''%'' @ nat_to_string (unat scope_id) @ '']:''
             @ nat_to_string (unat port))"

lemma socket_ip_new [simp]: "socket_ip (socket_new ip port) = ip"
  by (cases ip) simp_all

text \<open>\<open>sort_by_key(to_string)\<close> (stable, byte order) and \<open>dedup\<close> (adjacent duplicates).\<close>

definition sort_dedup :: "SocketAddr list \<Rightarrow> SocketAddr list" where
  "sort_dedup addresses = remdups_adj (sort_key show_socket addresses)"

lemma set_sort_dedup [simp]: "set (sort_dedup xs) = set xs"
  by (simp add: sort_dedup_def)

lemma sort_dedup_Nil [simp]: "sort_dedup [] = []"
  by (simp add: sort_dedup_def)

lemma sort_dedup_Nil_iff [simp]: "sort_dedup xs = [] \<longleftrightarrow> xs = []"
  using set_sort_dedup [of xs] by (metis set_empty)

text \<open>\<open>SystemDnsResolver::resolve\<close>; \<open>lookup_host\<close> is the one of the async runtime.\<close>

definition system_resolve ::
  "(string \<Rightarrow> u16 \<Rightarrow> string + SocketAddr list) \<Rightarrow> string \<Rightarrow> u16 \<Rightarrow> WebError + SocketAddr list" where
  "system_resolve lookup_host host port =
     (case lookup_host host port of
        Inl err \<Rightarrow> Inl (web_error DnsResolutionFailed
                     (''DNS resolution failed for '' @ host @ '': '' @ err))
      | Inr found \<Rightarrow>
          let addresses = sort_dedup found in
          if addresses = []
          then Inl (web_error DnsResolutionFailed
                 (''DNS resolution returned no addresses for '' @ host))
          else Inr addresses)"

section \<open>Requests and responses\<close>

datatype 'u prepared =
    is_PreparedGet: PreparedGet (prepared_url: 'u) (resolved_addr: SocketAddr) (prepared_max_bytes: nat)
  | is_PreparedPostForm: PreparedPostForm (prepared_url: 'u) (resolved_addr: SocketAddr) (prepared_max_bytes: nat)
      (prepared_form: "(string \<times> string) list")

record 'h RawHttpResponse =
  raw_status :: nat
  raw_headers :: 'h
  raw_body :: string
  raw_body_truncated :: bool

record 'h SecureHttpResponse =
  requested_url :: string
  final_url :: string
  redirect_chain :: "string list"
  status :: nat
  headers :: 'h
  body :: string
  body_truncated :: bool

datatype RequestMode = Get | PostForm "(string \<times> string) list"

definition is_redirect_status :: "nat \<Rightarrow> bool" where
  "is_redirect_status s = (s \<in> {301, 302, 303, 307, 308})"

section \<open>The bounded body read\<close>

text \<open>
  The loop of \<open>ReqwestTransport::finish_response\<close> over the byte stream: a chunk is an
  error text or bytes. \<open>exceeds\<close> is \<open>content_length_exceeds_limit\<close>.
\<close>

fun read_body :: "nat \<Rightarrow> bool \<Rightarrow> string \<Rightarrow> string \<Rightarrow> (string + string) list \<Rightarrow> WebError + string \<times> bool" where
  "read_body max_bytes exceeds url acc [] = Inr (acc, False)"
| "read_body max_bytes exceeds url acc (Inl err # chunks) =
     Inl (with_url (web_error Transport (''failed while reading response body: '' @ err)) url)"
| "read_body max_bytes exceeds url acc (Inr chunk # chunks) =
     (let remaining = max_bytes - length acc in
      if remaining < length chunk then Inr (acc @ take remaining chunk, True)
      else
        let acc' = acc @ chunk in
        if length acc' = max_bytes \<and> exceeds then Inr (acc', True)
        else read_body max_bytes exceeds url acc' chunks)"

text \<open>
  \<open>body_truncated\<close> is assigned \<open>content_length_exceeds_limit\<close> when the body is exactly full
  and otherwise keeps its value; it is \<open>false\<close> whenever the loop goes on.
\<close>

definition finish_response ::
  "nat \<Rightarrow> 'h \<Rightarrow> nat option \<Rightarrow> (string + string) list \<Rightarrow> nat \<Rightarrow> string \<Rightarrow> WebError + 'h RawHttpResponse" where
  "finish_response st hs content_length chunks max_bytes url =
     (if is_redirect_status st
      then Inr \<lparr>raw_status = st, raw_headers = hs, raw_body = [], raw_body_truncated = False\<rparr>
      else rbind (read_body max_bytes (is_some_and content_length (\<lambda>l. max_bytes < l)) url [] chunks)
        (\<lambda>(b, truncated). Inr \<lparr>raw_status = st, raw_headers = hs, raw_body = b,
                                raw_body_truncated = truncated\<rparr>))"

section \<open>The client built for one request\<close>

text \<open>The settings of the \<open>reqwest\<close> client that \<open>client_for\<close> builds.\<close>

record ClientConfig =
  follow_redirects :: bool
  use_proxy :: bool
  pinned :: "(string \<times> SocketAddr) option"

definition client_for :: "'u url_api \<Rightarrow> 'u \<Rightarrow> SocketAddr \<Rightarrow> WebError + ClientConfig" where
  "client_for U url addr =
     (case url_host_str U url of
        None \<Rightarrow> Inl (with_url (web_error InvalidUrl ''request URL does not contain a host'')
                  (url_as_str U url))
      | Some host \<Rightarrow>
          Inr \<lparr>follow_redirects = False, use_proxy = False,
               pinned = (if parse_ip_addr host = None then Some (host, addr) else None)\<rparr>)"

section \<open>The redirect loop\<close>

record ('u, 'h) SecureHttpClient =
  client_transport :: "nat \<Rightarrow> 'u prepared \<Rightarrow> WebError + 'h RawHttpResponse"
  client_resolver :: "nat \<Rightarrow> string \<Rightarrow> u16 \<Rightarrow> WebError + SocketAddr list"
  client_egress :: EgressPolicy
  client_max_redirects :: nat

definition DEFAULT_MAX_REDIRECTS :: nat where
  "DEFAULT_MAX_REDIRECTS = 5"

definition client_new where
  "client_new transport resolver egress =
     \<lparr>client_transport = transport, client_resolver = resolver, client_egress = egress,
      client_max_redirects = DEFAULT_MAX_REDIRECTS\<rparr>"

text \<open>The \<open>for\<close> loop over the addresses: the first refusal is returned.\<close>

fun enforce_all :: "EgressPolicy \<Rightarrow> SocketAddr list \<Rightarrow> string \<Rightarrow> WebError + unit" where
  "enforce_all p [] url = Inr ()"
| "enforce_all p (a # as) url = rbind (enforce_address p (socket_ip a) url) (\<lambda>_. enforce_all p as url)"

text \<open>The candidates: a literal host is its own address, a name is looked up.\<close>

definition lookup_addresses ::
  "'u url_api \<Rightarrow> ('u, 'h) SecureHttpClient \<Rightarrow> nat \<Rightarrow> 'u \<Rightarrow> string \<Rightarrow> u16 \<Rightarrow> WebError + SocketAddr list" where
  "lookup_addresses U c hop url host port =
     (case parse_ip_addr host of
        Some ip \<Rightarrow> Inr [socket_new ip port]
      | None \<Rightarrow>
          (case client_resolver c hop host port of
             Inl e \<Rightarrow> Inl (if error_url e = None then with_url e (url_as_str U url) else e)
           | Inr found \<Rightarrow> Inr found))"

definition resolve_and_validate ::
  "'u url_api \<Rightarrow> ('u, 'h) SecureHttpClient \<Rightarrow> nat \<Rightarrow> 'u \<Rightarrow> WebError + SocketAddr" where
  "resolve_and_validate U c hop url =
     rbind (ok_or (url_host_str U url)
              (with_url (web_error InvalidUrl ''URL does not contain a host'') (url_as_str U url)))
       (\<lambda>host. rbind (ok_or (url_port_or_known_default U url)
                  (with_url (web_error PortBlocked ''URL has no usable port'') (url_as_str U url)))
         (\<lambda>port. rbind (lookup_addresses U c hop url host port)
           (\<lambda>found. let addresses = sort_dedup found in
              case addresses of
                [] \<Rightarrow> Inl (with_url (web_error DnsResolutionFailed
                       (''DNS resolution returned no addresses for '' @ host)) (url_as_str U url))
              | first # _ \<Rightarrow>
                  rbind (enforce_all (client_egress c) addresses (url_as_str U url))
                    (\<lambda>_. Inr first))))"

fun prepare :: "RequestMode \<Rightarrow> 'u \<Rightarrow> SocketAddr \<Rightarrow> nat \<Rightarrow> 'u prepared" where
  "prepare Get url addr max_bytes = PreparedGet url addr max_bytes"
| "prepare (PostForm form) url addr max_bytes = PreparedPostForm url addr max_bytes form"

definition next_mode :: "RequestMode \<Rightarrow> nat \<Rightarrow> RequestMode" where
  "next_mode mode st = (if mode \<noteq> Get \<and> st \<in> {301, 302, 303} then Get else mode)"

text \<open>
  The redirect target: \<open>location\<close> is the value of the \<open>Location\<close> header, \<open>None\<close> when there
  is none, \<open>Some None\<close> when \<open>to_str\<close> refuses it.
\<close>

definition next_url :: "'u url_api \<Rightarrow> EgressPolicy \<Rightarrow> 'u \<Rightarrow> string option option \<Rightarrow> WebError + 'u" where
  "next_url U p current location =
     (case location of
        None \<Rightarrow> Inl (with_url (web_error RedirectMissingLocation
                  ''redirect response does not contain a Location header'') (url_as_str U current))
      | Some None \<Rightarrow> Inl (with_url (web_error RedirectMissingLocation
                  ''redirect Location header is not valid UTF-8'') (url_as_str U current))
      | Some (Some target) \<Rightarrow>
          (case url_join U current target of
             Inl err \<Rightarrow> Inl (with_url (web_error InvalidUrl (''invalid redirect target: '' @ err))
                          (url_as_str U current))
           | Inr joined \<Rightarrow> validate_url U p (url_as_str U joined)))"

text \<open>
  The body of the loop from hop \<open>hop\<close> on; \<open>left = max_redirects - hop\<close> further redirects
  may be followed.
\<close>

fun execute_from ::
  "'u url_api \<Rightarrow> ('h \<Rightarrow> string option option) \<Rightarrow> ('u, 'h) SecureHttpClient \<Rightarrow> string \<Rightarrow> nat \<Rightarrow>
   nat \<Rightarrow> nat \<Rightarrow> RequestMode \<Rightarrow> 'u \<Rightarrow> string list \<Rightarrow>
   'u prepared list \<times> (WebError + 'h SecureHttpResponse)" where
  "execute_from U get_location c raw max_bytes hop left mode current chain =
     (case resolve_and_validate U c hop current of
        Inl e \<Rightarrow> ([], Inl e)
      | Inr addr \<Rightarrow>
          (let request = prepare mode current addr max_bytes in
           case client_transport c hop request of
             Inl e \<Rightarrow> ([request], Inl e)
           | Inr response \<Rightarrow>
               if \<not> is_redirect_status (raw_status response)
               then ([request], Inr \<lparr>requested_url = raw, final_url = url_as_str U current,
                      redirect_chain = chain, status = raw_status response,
                      headers = raw_headers response, body = raw_body response,
                      body_truncated = raw_body_truncated response\<rparr>)
               else (case left of
                   0 \<Rightarrow> ([request], Inl (with_url (web_error RedirectLimit
                          (''redirect limit ('' @ nat_to_string (client_max_redirects c)
                             @ '') exceeded'')) (url_as_str U current)))
                 | Suc left' \<Rightarrow>
                     (case next_url U (client_egress c) current (get_location (raw_headers response)) of
                        Inl e \<Rightarrow> ([request], Inl e)
                      | Inr next \<Rightarrow>
                          (let (requests, result) =
                             execute_from U get_location c raw max_bytes (hop + 1) left'
                               (next_mode mode (raw_status response)) next
                               (chain @ [url_as_str U next])
                           in (request # requests, result))))))"

declare execute_from.simps [simp del]

definition execute ::
  "'u url_api \<Rightarrow> ('h \<Rightarrow> string option option) \<Rightarrow> ('u, 'h) SecureHttpClient \<Rightarrow> string \<Rightarrow> nat \<Rightarrow>
   RequestMode \<Rightarrow> 'u prepared list \<times> (WebError + 'h SecureHttpResponse)" where
  "execute U get_location c raw_url max_bytes mode =
     (if max_bytes = 0
      then ([], Inl (with_url (web_error InvalidRequest ''max_bytes must be greater than zero'') raw_url))
      else case validate_url U (client_egress c) raw_url of
        Inl e \<Rightarrow> ([], Inl e)
      | Inr current \<Rightarrow>
          execute_from U get_location c raw_url max_bytes 0 (client_max_redirects c) mode current [])"

definition http_get where
  "http_get U get_location c raw_url max_bytes = execute U get_location c raw_url max_bytes Get"

definition http_post_form where
  "http_post_form U get_location c raw_url form max_bytes =
     execute U get_location c raw_url max_bytes (PostForm form)"

section \<open>Facts about one hop\<close>

lemma enforce_all_ok [simp]:
  "enforce_all p as url = Inr u \<longleftrightarrow> (\<forall>a \<in> set as. address_permitted p (socket_ip a))"
  by (induction as) (auto simp: rbind_eq_Inr_iff)

text \<open>The address a request is pinned to: permitted, and the literal itself for a literal host.\<close>

definition pin_ok :: "'u url_api \<Rightarrow> EgressPolicy \<Rightarrow> 'u \<Rightarrow> SocketAddr \<Rightarrow> bool" where
  "pin_ok U p url addr \<longleftrightarrow>
     address_permitted p (socket_ip addr)
     \<and> (\<exists>config. client_for U url addr = Inr config \<and> \<not> follow_redirects config
          \<and> \<not> use_proxy config
          \<and> (case pinned config of
               Some (host, a) \<Rightarrow> url_host_str U url = Some host \<and> a = addr
             | None \<Rightarrow> \<exists>host. url_host_str U url = Some host
                          \<and> parse_ip_addr host = Some (socket_ip addr)))"

lemma resolve_and_validate_pin:
  assumes "resolve_and_validate U c hop url = Inr addr"
  shows "pin_ok U (client_egress c) url addr"
proof -
  from assms obtain host port found where h: "url_host_str U url = Some host"
    and lookup: "lookup_addresses U c hop url host port = Inr found"
    and pick: "(case sort_dedup found of
        [] \<Rightarrow> Inl (with_url (web_error DnsResolutionFailed
               (''DNS resolution returned no addresses for '' @ host)) (url_as_str U url))
      | first # _ \<Rightarrow> rbind (enforce_all (client_egress c) (sort_dedup found) (url_as_str U url))
                       (\<lambda>_. Inr first)) = Inr addr"
    unfolding resolve_and_validate_def Let_def rbind_eq_Inr_iff ok_or_eq_Inr_iff by blast
  have lit: "found = [socket_new ip port]" if "parse_ip_addr host = Some ip" for ip
    using lookup that by (simp add: lookup_addresses_def)
  from pick obtain rest where found: "sort_dedup found = addr # rest"
    and perm': "enforce_all (client_egress c) (sort_dedup found) (url_as_str U url) = Inr ()"
    by (cases "sort_dedup found") (auto simp: rbind_eq_Inr_iff simp del: enforce_all_ok)
  from perm' have perm: "\<forall>a \<in> set found. address_permitted (client_egress c) (socket_ip a)"
    by simp
  from found have mem: "addr \<in> set found"
    by (metis list.set_intros(1) set_sort_dedup)
  have "socket_ip addr = ip" if "parse_ip_addr host = Some ip" for ip
    using lit [OF that] mem by simp
  with mem perm h show ?thesis
    by (auto simp: pin_ok_def client_for_def split: option.splits)
qed

lemma next_url_permitted: "next_url U p current location = Inr next \<Longrightarrow> url_permitted U p next"
  by (auto simp: next_url_def validate_url_ok_iff split: option.splits sum.splits)

definition request_safe :: "'u url_api \<Rightarrow> EgressPolicy \<Rightarrow> 'u prepared \<Rightarrow> bool" where
  "request_safe U p request \<longleftrightarrow>
     url_permitted U p (prepared_url request)
     \<and> pin_ok U p (prepared_url request) (resolved_addr request)"

lemma prepare_sel [simp]:
  "prepared_url (prepare mode url addr n) = url"
  "resolved_addr (prepare mode url addr n) = addr"
  "prepared_max_bytes (prepare mode url addr n) = n"
  "is_PreparedPostForm (prepare mode url addr n) \<longleftrightarrow> mode \<noteq> Get"
  by (cases mode; simp)+

section \<open>Facts about the loop\<close>

text \<open>The four ways a hop can end.\<close>

lemma execute_from_cases:
  fixes U :: "'u url_api" and get_location :: "'h \<Rightarrow> string option option"
    and c :: "('u, 'h) SecureHttpClient" and raw :: string and max_bytes :: nat
  defines "run \<equiv> execute_from U get_location c raw max_bytes"
  obtains
    (refused) e where "run hop left mode current chain = ([], Inl e)"
  | (failed) addr e where "resolve_and_validate U c hop current = Inr addr"
      "run hop left mode current chain = ([prepare mode current addr max_bytes], Inl e)"
  | (answered) addr r where "resolve_and_validate U c hop current = Inr addr"
      "run hop left mode current chain = ([prepare mode current addr max_bytes], Inr r)"
      "redirect_chain r = chain" "\<not> is_redirect_status (status r)" "requested_url r = raw"
      "final_url r = url_as_str U current"
  | (redirected) addr left' response nxt where "resolve_and_validate U c hop current = Inr addr"
      "client_transport c hop (prepare mode current addr max_bytes) = Inr response"
      "is_redirect_status (raw_status response)" "left = Suc left'"
      "next_url U (client_egress c) current (get_location (raw_headers response)) = Inr nxt"
      "run hop left mode current chain =
         (prepare mode current addr max_bytes
            # fst (run (hop + 1) left' (next_mode mode (raw_status response)) nxt
                     (chain @ [url_as_str U nxt])),
          snd (run (hop + 1) left' (next_mode mode (raw_status response)) nxt
                     (chain @ [url_as_str U nxt])))"
proof (cases "resolve_and_validate U c hop current")
  case (Inl e)
  then show ?thesis using refused by (simp add: run_def execute_from.simps)
next
  case addr: (Inr addr)
  let ?req = "prepare mode current addr max_bytes"
  show ?thesis
  proof (cases "client_transport c hop ?req")
    case (Inl e)
    then show ?thesis using addr failed by (simp add: run_def execute_from.simps)
  next
    case response: (Inr response)
    note unfold = run_def execute_from.simps [of U get_location c raw max_bytes hop] addr response
    show ?thesis
    proof (cases "is_redirect_status (raw_status response)")
      case False
      then show ?thesis by (intro answered [OF addr], simp add: unfold) simp_all
    next
      case redirect: True
      show ?thesis
      proof (cases left)
        case 0
        then show ?thesis using addr redirect failed by (simp add: unfold)
      next
        case left: (Suc left')
        show ?thesis
        proof (cases "next_url U (client_egress c) current (get_location (raw_headers response))")
          case (Inl e)
          then show ?thesis using left redirect by (intro failed [OF addr]) (simp add: unfold)
        next
          case (Inr nxt)
          show ?thesis
            by (rule redirected [OF addr response redirect left Inr])
              (simp add: unfold left redirect Inr case_prod_unfold Let_def)
        qed
      qed
    qed
  qed
qed

lemma execute_from_safe:
  "url_permitted U (client_egress c) current \<Longrightarrow>
   list_all (request_safe U (client_egress c))
     (fst (execute_from U get_location c raw max_bytes hop left mode current chain))"
proof (induction left arbitrary: hop mode current chain rule: less_induct)
  case (less left)
  show ?case
    by (cases rule: execute_from_cases [of U get_location c raw max_bytes hop left mode current chain])
      (use less in \<open>auto simp: request_safe_def dest: resolve_and_validate_pin next_url_permitted\<close>)
qed

lemma execute_from_bound:
  "length (fst (execute_from U get_location c raw max_bytes hop left mode current chain)) \<le> Suc left"
proof (induction left arbitrary: hop mode current chain rule: less_induct)
  case (less left)
  show ?case
    by (cases rule: execute_from_cases [of U get_location c raw max_bytes hop left mode current chain])
      (use less in auto)
qed

lemma execute_from_result:
  "snd (execute_from U get_location c raw max_bytes hop left mode current chain) = Inr r \<Longrightarrow>
   requests = fst (execute_from U get_location c raw max_bytes hop left mode current chain) \<Longrightarrow>
   requests \<noteq> [] \<and> length (redirect_chain r) + 1 = length chain + length requests
   \<and> \<not> is_redirect_status (status r) \<and> requested_url r = raw
   \<and> final_url r = url_as_str U (prepared_url (last requests))"
proof (induction left arbitrary: hop mode current chain requests rule: less_induct)
  case (less left)
  show ?case
  proof (cases rule: execute_from_cases [of U get_location c raw max_bytes hop left mode current chain])
    case (redirected addr left' response nxt)
    then show ?thesis
      using less.prems less.IH [of left' "hop + 1" "next_mode mode (raw_status response)" nxt
          "chain @ [url_as_str U nxt]" "tl requests"] by simp
  qed (use less.prems in simp_all)
qed

lemma execute_from_get_only:
  "list_all (\<lambda>request. \<not> is_PreparedPostForm request)
     (fst (execute_from U get_location c raw max_bytes hop left Get current chain))"
proof (induction left arbitrary: hop current chain rule: less_induct)
  case (less left)
  show ?case
    by (cases rule: execute_from_cases [of U get_location c raw max_bytes hop left Get current chain])
      (use less in \<open>auto simp: next_mode_def\<close>)
qed

lemma next_mode_not_Get: "next_mode mode st \<noteq> Get \<Longrightarrow> is_redirect_status st \<Longrightarrow> st \<in> {307, 308}"
  by (auto simp: next_mode_def is_redirect_status_def split: if_splits)

lemma execute_from_resend:
  assumes "requests = fst (execute_from U get_location c raw max_bytes hop left mode current chain)"
    and "i < j" "j < length requests" "is_PreparedPostForm (requests ! j)"
  shows "\<exists>response. client_transport c (hop + i) (requests ! i) = Inr response
           \<and> raw_status response \<in> {307, 308}"
  using assms
proof (induction left arbitrary: hop mode current chain requests i j rule: less_induct)
  case (less left)
  show ?case
  proof (cases rule: execute_from_cases [of U get_location c raw max_bytes hop left mode current chain])
    case (redirected addr left' response nxt)
    let ?rest = "fst (execute_from U get_location c raw max_bytes (hop + 1) left'
                   (next_mode mode (raw_status response)) nxt (chain @ [url_as_str U nxt]))"
    have reqs: "requests = prepare mode current addr max_bytes # ?rest"
      using redirected less.prems(1) by simp
    obtain j' where j: "j = Suc j'" using less.prems(2) by (cases j) auto
    have j': "j' < length ?rest" "is_PreparedPostForm (?rest ! j')"
      using less.prems(3,4) unfolding reqs j by simp_all
    have "next_mode mode (raw_status response) \<noteq> Get"
      using j' execute_from_get_only [of U get_location c raw max_bytes "hop + 1" left' nxt
          "chain @ [url_as_str U nxt]"] by (auto simp: list_all_length)
    then have st: "raw_status response \<in> {307, 308}"
      using redirected(3) by (rule next_mode_not_Get)
    show ?thesis
    proof (cases i)
      case 0
      then show ?thesis using redirected(2) st reqs by simp
    next
      case (Suc i')
      then show ?thesis
        using less.IH [of left' ?rest "hop + 1" "next_mode mode (raw_status response)" nxt
            "chain @ [url_as_str U nxt]" i' j'] redirected(4) less.prems(2) j j' reqs by simp
    qed
  qed (use less.prems in auto)
qed

lemma read_body_complete:
  "length acc \<le> max_bytes \<Longrightarrow>
   \<exists>truncated. read_body max_bytes exceeds url acc (map Inr cs)
                 = Inr (take max_bytes (acc @ concat cs), truncated)
     \<and> (max_bytes < length (acc @ concat cs) \<longrightarrow> truncated)
     \<and> (truncated \<longrightarrow> exceeds \<or> max_bytes < length (acc @ concat cs))"
proof (induction cs arbitrary: acc)
  case (Cons chunk cs)
  show ?case
  proof (cases "max_bytes - length acc < length chunk")
    case True
    with Cons.prems have "max_bytes < length (acc @ concat (chunk # cs))" by simp
    with True Cons.prems show ?thesis by (intro exI [of _ True]) (simp add: Let_def)
  next
    case fits: False
    with Cons.prems have le: "length (acc @ chunk) \<le> max_bytes" by simp
    show ?thesis
    proof (cases "length (acc @ chunk) = max_bytes \<and> exceeds")
      case True
      with fits show ?thesis by (intro exI [of _ True]) (simp add: Let_def)
    next
      case False
      then have "read_body max_bytes exceeds url acc (map Inr (chunk # cs))
          = read_body max_bytes exceeds url (acc @ chunk) (map Inr cs)"
        using fits by (simp only: list.map read_body.simps Let_def if_False)
      with Cons.IH [OF le] show ?thesis by simp
    qed
  qed
qed auto

lemma execute_permitted:
  "fst (execute U get_location c raw max_bytes mode) = []
   \<or> (\<exists>current. url_permitted U (client_egress c) current
        \<and> execute U get_location c raw max_bytes mode
          = execute_from U get_location c raw max_bytes 0 (client_max_redirects c) mode current [])"
proof (cases "validate_url U (client_egress c) raw")
  case (Inr current)
  moreover from this have "url_permitted U (client_egress c) current"
    by (simp add: validate_url_ok_iff)
  ultimately show ?thesis by (auto simp: execute_def)
qed (simp add: execute_def)

section \<open>Properties\<close>

text \<open>
  C5. No request leaves the permitted network. Every request that \<open>execute\<close> hands to the
  transport, the first and the ones after redirects, is for a URL that the egress policy
  permits and goes to an address that passed \<open>enforce_address\<close> in the same hop: the client
  is built without proxy and without redirects of its own, and is pinned to that address,
  or the host is that address. This holds for every resolver, also one that answers
  differently on every hop. At most \<open>max_redirects + 1\<close> requests are made.
\<close>

theorem execute_stays_permitted:
  "list_all (request_safe U (client_egress c)) (fst (execute U get_location c raw max_bytes mode))
   \<and> length (fst (execute U get_location c raw max_bytes mode)) \<le> client_max_redirects c + 1"
  using execute_permitted [of U get_location c raw max_bytes mode]
    execute_from_safe [of U c _ get_location raw max_bytes 0 "client_max_redirects c" mode "[]"]
    execute_from_bound [of U get_location c raw max_bytes 0 "client_max_redirects c" mode _ "[]"]
  by auto

text \<open>
  A successful \<open>execute\<close> returns a response that is not a redirect, names the URL that was
  asked for and, as the final URL, the one of the last request made, and its redirect
  chain has one entry per request after the first.
\<close>

theorem execute_result:
  assumes "execute U get_location c raw max_bytes mode = (requests, Inr r)"
  shows "\<not> is_redirect_status (status r) \<and> requested_url r = raw
    \<and> requests \<noteq> [] \<and> final_url r = url_as_str U (prepared_url (last requests))
    \<and> length requests = length (redirect_chain r) + 1"
proof -
  from assms obtain current where
    "execute_from U get_location c raw max_bytes 0 (client_max_redirects c) mode current []
       = (requests, Inr r)"
    by (auto simp: execute_def split: if_splits sum.splits)
  then have s: "snd (execute_from U get_location c raw max_bytes 0 (client_max_redirects c) mode
                current []) = Inr r"
    and f: "requests = fst (execute_from U get_location c raw max_bytes 0 (client_max_redirects c) mode
                current [])"
    by simp_all
  show ?thesis using execute_from_result [OF s f] by auto
qed

text \<open>
  A form body is sent again after a redirect only when every answer before it asked to
  keep the method: if request \<open>j\<close> is a form POST, all the responses to the earlier requests
  have status 307 or 308.
\<close>

theorem form_resent_only_after_307_308:
  assumes "fst (execute U get_location c raw max_bytes mode) = requests"
    and "i < j" "j < length requests" "is_PreparedPostForm (requests ! j)"
  shows "\<exists>response. client_transport c i (requests ! i) = Inr response
           \<and> raw_status response \<in> {307, 308}"
proof -
  from assms(1,3) obtain current where
    "requests = fst (execute_from U get_location c raw max_bytes 0 (client_max_redirects c) mode
                  current [])"
    using execute_permitted [of U get_location c raw max_bytes mode] by auto
  from execute_from_resend [OF this assms(2-4)] show ?thesis by simp
qed

text \<open>A client for the witnesses: the first answer redirects with a given status.\<close>

definition one_redirect_client :: "nat \<Rightarrow> (string, string option option) SecureHttpClient" where
  "one_redirect_client st =
     client_new
       (\<lambda>hop _. Inr (if hop = 0
           then \<lparr>raw_status = st, raw_headers = Some (Some ''http://b.org''), raw_body = [],
                 raw_body_truncated = False\<rparr>
           else \<lparr>raw_status = 200, raw_headers = None, raw_body = ''ok'', raw_body_truncated = False\<rparr>))
       (\<lambda>_ _ port. Inr [SocketAddrV4 (Ipv4Addr 93 184 216 34) port])
       egress_default"

lemma one_redirect_run:
  "execute plain_host_api id (one_redirect_client 307) ''http://a.org'' 100 (PostForm [(''q'', ''x'')])
   = ([PreparedPostForm ''a.org'' (SocketAddrV4 (Ipv4Addr 93 184 216 34) 80) 100 [(''q'', ''x'')],
       PreparedPostForm ''b.org'' (SocketAddrV4 (Ipv4Addr 93 184 216 34) 80) 100 [(''q'', ''x'')]],
      Inr \<lparr>requested_url = ''http://a.org'', final_url = ''http://b.org'',
           redirect_chain = [''http://b.org''], status = 200, headers = None, body = ''ok'',
           body_truncated = False\<rparr>)"
  by code_simp

theorem execute_result_witness:
  "\<exists>requests r. execute plain_host_api id (one_redirect_client 307) ''http://a.org'' 100
       (PostForm [(''q'', ''x'')]) = (requests, Inr r)
     \<and> \<not> is_redirect_status (status r) \<and> length requests = length (redirect_chain r) + 1"
  using execute_result [OF one_redirect_run] one_redirect_run by blast

theorem form_resent_only_after_307_308_witness:
  "\<exists>response. client_transport (one_redirect_client 307) 0
       (PreparedPostForm ''a.org'' (SocketAddrV4 (Ipv4Addr 93 184 216 34) 80) 100 [(''q'', ''x'')])
     = Inr response \<and> raw_status response \<in> {307, 308}"
  using form_resent_only_after_307_308 [OF arg_cong [OF one_redirect_run, of fst, unfolded fst_conv],
      of 0 1] by simp

text \<open>
  A response body is never longer than \<open>max_bytes\<close> and is the beginning of what the
  server sent; when bytes were left out the response says that it is truncated, and it
  says so only then or when the announced length exceeds the limit.
\<close>

theorem finish_response_body:
  assumes "\<not> is_redirect_status st" and "chunks = map Inr cs"
  shows "\<exists>truncated. finish_response st hs content_length chunks max_bytes url
       = Inr \<lparr>raw_status = st, raw_headers = hs, raw_body = take max_bytes (concat cs),
              raw_body_truncated = truncated\<rparr>
     \<and> (max_bytes < length (concat cs) \<longrightarrow> truncated)
     \<and> (truncated \<longrightarrow> max_bytes < length (concat cs) \<or> is_some_and content_length (\<lambda>l. max_bytes < l))"
proof -
  obtain truncated where r: "read_body max_bytes (is_some_and content_length (\<lambda>l. max_bytes < l)) url []
        (map Inr cs) = Inr (take max_bytes (concat cs), truncated)"
    and t: "max_bytes < length (concat cs) \<longrightarrow> truncated"
      "truncated \<longrightarrow> is_some_and content_length (\<lambda>l. max_bytes < l) \<or> max_bytes < length (concat cs)"
    using read_body_complete [of "[]" max_bytes "is_some_and content_length (\<lambda>l. max_bytes < l)" url cs]
    by auto
  show ?thesis
    unfolding finish_response_def assms(2) using assms(1) r t by (intro exI [of _ truncated]) auto
qed

theorem finish_response_body_witness:
  "\<exists>truncated. finish_response 200 () None [Inr ''abc'', Inr ''def''] 4 ''u''
     = Inr \<lparr>raw_status = 200, raw_headers = (), raw_body = ''abcd'', raw_body_truncated = truncated\<rparr>
     \<and> truncated"
  using finish_response_body [of 200 "[Inr ''abc'', Inr ''def'']" "[''abc'', ''def'']" "()" None 4 "''u''"]
  by (simp add: is_redirect_status_def)

end
