(* ===== verification/Protocol_Types.thy ===== *)
theory Protocol_Types
  imports Rust_Std
begin

text \<open>
  The wire types of \<open>crates/impetus-protocol/src/types.rs\<close> that carry the admission
  pipeline: execution modes, actions and their fingerprints, policy decisions and
  the user's policy documents, approvals. Record fields carry a prefix for their
  record, since Isabelle's field names are global; enum constructors keep the
  source's names and are written qualified (\<open>PolicyDecision.Allow\<close>) where two enums
  share one.

  Two functions belong to third-party crates and are parameters, bundled in the
  record \<open>externals\<close>: the JSON serialisation of an action (\<open>serde_json::to_vec\<close>)
  and the SHA-256 digest of a byte string.
\<close>

section \<open>Execution modes and prompts\<close>

datatype ExecutionMode = Ask | Plan | AcceptEdits | Auto | Bypass

fun mode_label :: "ExecutionMode \<Rightarrow> string" where
  "mode_label Ask = ''ASK''"
| "mode_label Plan = ''PLAN''"
| "mode_label AcceptEdits = ''ACCEPT EDITS''"
| "mode_label Auto = ''AUTO''"
| "mode_label Bypass = ''BYPASS''"

definition is_mutating_tool_allowed :: "ExecutionMode \<Rightarrow> bool" where
  "is_mutating_tool_allowed m = (m \<noteq> Plan)"

fun cycle_next :: "ExecutionMode \<Rightarrow> ExecutionMode" where
  "cycle_next Ask = AcceptEdits"
| "cycle_next AcceptEdits = Plan"
| "cycle_next Plan = Auto"
| "cycle_next Auto = Ask"
| "cycle_next Bypass = Ask"

fun required_ipc_capability :: "ExecutionMode \<Rightarrow> string option" where
  "required_ipc_capability AcceptEdits = Some ''approval_scope_file_edits''"
| "required_ipc_capability Bypass = Some ''approval_scope_full_auto''"
| "required_ipc_capability _ = None"

datatype UserPromptIntent = Prompt | Steer | FollowUp

record ArtifactRef =
  artifact_id :: string
  artifact_byte_count :: nat

section \<open>Actions\<close>

datatype ActionOrigin = User | Agent

datatype ActionKind =
    ReadFile | WriteFile | SpawnProcess | NetworkConnect | SshConnect | SftpTransfer
  | TmuxAttach | WebSearch | WebFetch | WebDownload | WebBrowser | WebSubmit | WebUpload

datatype ExecutionSemantics = ReadOnly | Idempotent | Mutating | NonReplayable

fun execution_semantics :: "ActionKind \<Rightarrow> ExecutionSemantics" where
  "execution_semantics ReadFile = ReadOnly"
| "execution_semantics WriteFile = Mutating"
| "execution_semantics SpawnProcess = NonReplayable"
| "execution_semantics NetworkConnect = Idempotent"
| "execution_semantics SshConnect = NonReplayable"
| "execution_semantics SftpTransfer = Mutating"
| "execution_semantics TmuxAttach = NonReplayable"
| "execution_semantics WebSearch = Idempotent"
| "execution_semantics WebFetch = ReadOnly"
| "execution_semantics WebDownload = Mutating"
| "execution_semantics WebBrowser = NonReplayable"
| "execution_semantics WebSubmit = Mutating"
| "execution_semantics WebUpload = Mutating"

definition can_parallelize :: "ActionKind \<Rightarrow> bool" where
  "can_parallelize k = (execution_semantics k \<in> {ReadOnly, Idempotent})"

record Action =
  action_origin :: ActionOrigin
  action_kind :: ActionKind
  action_summary :: string
  action_target :: "string option"

record externals =
  serialise_action :: "Action \<Rightarrow> string"
  sha256 :: "string \<Rightarrow> string"

text \<open>\<open>ActionFingerprint\<close> is the hexadecimal text of a digest. The bytes that are hashed
  are a domain tag, the serialised action and, with a version, a NUL-separated suffix.\<close>

type_synonym ActionFingerprint = string

definition version_suffix :: "u32 option \<Rightarrow> string" where
  "version_suffix version =
     (case version of
        None \<Rightarrow> []
      | Some v \<Rightarrow> CHR 0x00 # ''version:'' @ nat_to_string (unat v))"

definition fingerprint_bytes :: "externals \<Rightarrow> Action \<Rightarrow> u32 option \<Rightarrow> string" where
  "fingerprint_bytes X a version =
     ''impetus-action-v1'' @ [CHR 0x00] @ serialise_action X a @ version_suffix version"

definition for_action_with_version :: "externals \<Rightarrow> Action \<Rightarrow> u32 option \<Rightarrow> ActionFingerprint" where
  "for_action_with_version X a version = hex_encode (sha256 X (fingerprint_bytes X a version))"

definition for_action :: "externals \<Rightarrow> Action \<Rightarrow> ActionFingerprint" where
  "for_action X a = for_action_with_version X a None"

section \<open>Policy decisions and the user's policy config\<close>

datatype PolicyDecision = Allow | NeedsApproval string | Deny string

datatype PolicyConfigDecision = Allow | Deny | NeedsApproval

fun to_decision :: "PolicyConfigDecision \<Rightarrow> PolicyDecision" where
  "to_decision PolicyConfigDecision.Allow = PolicyDecision.Allow"
| "to_decision PolicyConfigDecision.Deny = PolicyDecision.Deny ''denied by user policy config''"
| "to_decision PolicyConfigDecision.NeedsApproval =
     PolicyDecision.NeedsApproval ''requires approval per user policy config''"

record PolicyConfig =
  config_version :: u32
  config_overrides :: "ActionKind \<rightharpoonup> PolicyConfigDecision"

definition POLICY_CONFIG_VERSION :: u32 where
  "POLICY_CONFIG_VERSION = 1"

datatype PolicyConfigError = Io | Json | UnsupportedVersion u32

definition config_validate :: "PolicyConfig \<Rightarrow> PolicyConfigError + unit" where
  "config_validate c =
     (if config_version c \<noteq> POLICY_CONFIG_VERSION
      then Inl (UnsupportedVersion (config_version c)) else Inr ())"

text \<open>\<open>from_str\<close> is \<open>serde_json::from_str\<close>; \<open>read\<close> is \<open>std::fs::read_to_string\<close> on the
  file system at hand.\<close>

definition config_parse :: "(string \<Rightarrow> PolicyConfig option) \<Rightarrow> string \<Rightarrow> PolicyConfigError + PolicyConfig" where
  "config_parse from_str json =
     rbind (ok_or (from_str json) PolicyConfigError.Json)
       (\<lambda>c. rbind (config_validate c) (\<lambda>_. Inr c))"

definition config_load_from_path ::
    "(string \<Rightarrow> PolicyConfig option) \<Rightarrow> (string \<Rightarrow> string option) \<Rightarrow> string
     \<Rightarrow> PolicyConfigError + PolicyConfig" where
  "config_load_from_path from_str read path =
     rbind (ok_or (read path) PolicyConfigError.Io) (config_parse from_str)"

definition override_for :: "PolicyConfig \<Rightarrow> ActionKind \<Rightarrow> PolicyConfigDecision option" where
  "override_for c k = config_overrides c k"

definition config_load_optional ::
    "(string \<Rightarrow> PolicyConfig option) \<Rightarrow> (string \<Rightarrow> string option) \<Rightarrow> (string \<Rightarrow> bool) \<Rightarrow> string
     \<Rightarrow> PolicyConfigError + PolicyConfig" where
  "config_load_optional from_str read path_exists path =
     (if \<not> path_exists path
      then Inr \<lparr>config_version = POLICY_CONFIG_VERSION, config_overrides = Map.empty\<rparr>
      else config_load_from_path from_str read path)"

section \<open>The policy store of governed instructions\<close>

datatype InstructionKind = Soul | ProjectRules | Convention | Guide | Skill

record GovernedInstructionRef =
  governed_id :: string
  governed_label :: string
  governed_kind :: "InstructionKind option"
  governed_instruction_id :: "string option"

record PolicyStore =
  store_version :: u32
  store_instructions :: "GovernedInstructionRef list"

definition POLICY_STORE_VERSION :: u32 where
  "POLICY_STORE_VERSION = 1"

datatype PolicyStoreError =
    Io | Json | UnsupportedVersion u32 | DuplicateId string | EmptyId | EmptyLabel

definition governed_ids :: "PolicyStore \<Rightarrow> string list" where
  "governed_ids ps = map governed_id (store_instructions ps)"

text \<open>The ids of the resolved references (in their order) that the store governs.\<close>

definition governed_ids_in :: "PolicyStore \<Rightarrow> string list \<Rightarrow> string list" where
  "governed_ids_in ps reference_ids =
     (let governed = set (List.map_filter governed_instruction_id (store_instructions ps))
      in filter (\<lambda>r. r \<in> governed) reference_ids)"

definition secret_marker :: "string \<Rightarrow> bool" where
  "secret_marker t = (str_contains t ''sk-'' \<or> str_contains (to_ascii_lowercase t) ''password'')"

fun validate_entries ::
    "string set \<Rightarrow> GovernedInstructionRef list \<Rightarrow> PolicyStoreError + unit" where
  "validate_entries seen [] = Inr ()"
| "validate_entries seen (e # es) =
     (if trim (governed_id e) = [] then Inl EmptyId
      else if trim (governed_label e) = [] then Inl EmptyLabel
      else if governed_id e \<in> seen then Inl (DuplicateId (governed_id e))
      else if secret_marker (governed_id e) \<or> secret_marker (governed_label e) then Inl EmptyLabel
      else validate_entries (insert (governed_id e) seen) es)"

definition store_validate :: "PolicyStore \<Rightarrow> PolicyStoreError + unit" where
  "store_validate ps =
     (if store_version ps \<noteq> POLICY_STORE_VERSION
      then Inl (PolicyStoreError.UnsupportedVersion (store_version ps))
      else validate_entries {} (store_instructions ps))"

definition store_parse :: "(string \<Rightarrow> PolicyStore option) \<Rightarrow> string \<Rightarrow> PolicyStoreError + PolicyStore" where
  "store_parse from_str json =
     rbind (ok_or (from_str json) PolicyStoreError.Json)
       (\<lambda>ps. rbind (store_validate ps) (\<lambda>_. Inr ps))"

section \<open>Approvals\<close>

datatype ApprovalState = Pending | Approved | Rejected

datatype ApprovalResolver = User | Agent

record ApprovalResolution =
  resolution_id :: uuid
  resolution_fingerprint :: ActionFingerprint
  resolution_intent_revision :: nat
  resolution_accepted :: bool
  resolution_resolver :: ApprovalResolver

record ApprovalRequest =
  request_id :: uuid
  request_action :: Action
  request_fingerprint :: ActionFingerprint
  request_capability_version :: "u32 option"
  request_intent_revision :: nat
  request_reason :: string
  request_state :: ApprovalState

definition resolution_user :: "ApprovalRequest \<Rightarrow> bool \<Rightarrow> ApprovalResolution" where
  "resolution_user r accepted =
     \<lparr>resolution_id = request_id r,
      resolution_fingerprint = request_fingerprint r,
      resolution_intent_revision = request_intent_revision r,
      resolution_accepted = accepted,
      resolution_resolver = ApprovalResolver.User\<rparr>"

text \<open>\<open>new_id\<close> is the value \<open>Uuid::new_v4()\<close> returns.\<close>

definition pending_with_version ::
    "externals \<Rightarrow> uuid \<Rightarrow> Action \<Rightarrow> string \<Rightarrow> nat \<Rightarrow> u32 option \<Rightarrow> ApprovalRequest" where
  "pending_with_version X new_id a reason intent_revision capability_version =
     \<lparr>request_id = new_id,
      request_action = a,
      request_fingerprint = for_action_with_version X a capability_version,
      request_capability_version = capability_version,
      request_intent_revision = intent_revision,
      request_reason = reason,
      request_state = Pending\<rparr>"

section \<open>Facts\<close>

lemma can_parallelize_iff:
  "can_parallelize k \<longleftrightarrow> k \<in> {ReadFile, NetworkConnect, WebSearch, WebFetch}"
  by (cases k) (simp_all add: can_parallelize_def)

text \<open>Cycling never enters or stays in \<open>Bypass\<close>: the mode a user cycles through is one of four.\<close>

lemma cycle_next_not_Bypass: "cycle_next m \<noteq> Bypass"
  by (cases m) simp_all

definition entry_ok :: "GovernedInstructionRef \<Rightarrow> bool" where
  "entry_ok e \<longleftrightarrow> trim (governed_id e) \<noteq> [] \<and> trim (governed_label e) \<noteq> []
     \<and> \<not> secret_marker (governed_id e) \<and> \<not> secret_marker (governed_label e)"

lemma validate_entries_Inr_iff:
  "validate_entries seen es = Inr () \<longleftrightarrow>
     list_all entry_ok es \<and> governed_id ` set es \<inter> seen = {} \<and> distinct (map governed_id es)"
  by (induction seen es rule: validate_entries.induct) (auto simp: entry_ok_def)

section \<open>Facts about fingerprints\<close>

lemma hex_digit_inj: "m < 16 \<Longrightarrow> n < 16 \<Longrightarrow> hex_digit m = hex_digit n \<Longrightarrow> m = n"
  by (auto simp: hex_digit_def split: if_splits)

lemma code_less [simp]: "code c < 256"
  using of_char_of [of "code c"] by (metis char_of_char mod_less_divisor zero_less_numeral)

lemma hex_byte_inj:
  assumes "hex_digit (code c div 16) = hex_digit (code d div 16)"
    and "hex_digit (code c mod 16) = hex_digit (code d mod 16)"
  shows "c = d"
proof -
  have "code c div 16 = code d div 16" "code c mod 16 = code d mod 16"
    using assms by (auto intro!: hex_digit_inj simp: less_mult_imp_div_less)
  then have "code c = code d" by (metis div_mult_mod_eq)
  then show ?thesis by simp
qed

lemma hex_encode_inj: "hex_encode s = hex_encode t \<Longrightarrow> s = t"
proof (induction s arbitrary: t)
  case Nil
  then show ?case by (cases t) (simp_all add: hex_encode_def)
next
  case (Cons c s)
  then show ?case by (cases t) (auto simp: hex_encode_def intro: hex_byte_inj)
qed

lemma nat_to_string_inj: "nat_to_string m = nat_to_string n \<Longrightarrow> m = n"
proof (induction m arbitrary: n rule: nat_to_string.induct)
  case (1 m)
  have digit: "char_of (48 + a) = (char_of (48 + b) :: char) \<Longrightarrow> a < 10 \<Longrightarrow> b < 10 \<Longrightarrow> a = b" for a b :: nat
    by simp
  show ?case
  proof (cases "m < 10 \<or> n < 10")
    case True
    have "length (nat_to_string k) = 1 \<longleftrightarrow> k < 10" for k
      by (subst nat_to_string.simps) simp
    then have "m < 10" "n < 10" using True "1.prems" by metis+
    then show ?thesis
      using "1.prems" by (simp add: nat_to_string.simps [of m] nat_to_string.simps [of n])
  next
    case False
    then have "nat_to_string (m div 10) = nat_to_string (n div 10)"
      "char_of (48 + m mod 10) = (char_of (48 + n mod 10) :: char)"
      using "1.prems" by (simp_all add: nat_to_string.simps [of m] nat_to_string.simps [of n])
    then have "m div 10 = n div 10" "m mod 10 = n mod 10"
      using "1.IH" False digit [of "m mod 10" "n mod 10"] by auto
    then show ?thesis by (metis div_mult_mod_eq)
  qed
qed

lemma version_suffix_inj: "version_suffix v = version_suffix w \<Longrightarrow> v = w"
  by (auto simp: version_suffix_def word_unat_eq_iff split: option.splits dest!: nat_to_string_inj)

lemma version_suffix_cases: "version_suffix v = [] \<or> (\<exists>r. version_suffix v = CHR 0x00 # r)"
  by (simp add: version_suffix_def split: option.splits)

text \<open>Text without a given byte, followed by nothing or by that byte, can be split again.\<close>

lemma append_sep_inj:
  assumes "s @ x = t @ y" and "c \<notin> set s" "c \<notin> set t"
    and "x = [] \<or> (\<exists>r. x = c # r)" "y = [] \<or> (\<exists>r. y = c # r)"
  shows "s = t \<and> x = y"
proof -
  have "takeWhile (\<lambda>b. b \<noteq> c) (s @ x) = s" "takeWhile (\<lambda>b. b \<noteq> c) (t @ y) = t"
    using assms(2-5) by (auto simp: takeWhile_append)
  then have "s = t" using assms(1) by simp
  with assms(1) show ?thesis by simp
qed

section \<open>Properties\<close>

text \<open>
  A fingerprint determines the action and the capability version it was made for. If
  the JSON text of an action determines the action and has no NUL byte, and the two
  messages that are hashed do not collide, equal fingerprints belong to the same action
  and version: the version suffix cannot be mistaken for a part of the action.
\<close>

theorem fingerprint_determines_action:
  assumes "\<And>a b. serialise_action X a = serialise_action X b \<Longrightarrow> a = b"
    and "\<And>a. CHR 0x00 \<notin> set (serialise_action X a)"
    and "sha256 X (fingerprint_bytes X a v) = sha256 X (fingerprint_bytes X b w)
          \<Longrightarrow> fingerprint_bytes X a v = fingerprint_bytes X b w"
    and "for_action_with_version X a v = for_action_with_version X b w"
  shows "a = b \<and> v = w"
proof -
  have "fingerprint_bytes X a v = fingerprint_bytes X b w"
    using assms(3,4) hex_encode_inj by (auto simp: for_action_with_version_def)
  then have "serialise_action X a @ version_suffix v = serialise_action X b @ version_suffix w"
    by (simp add: fingerprint_bytes_def)
  then have "serialise_action X a = serialise_action X b \<and> version_suffix v = version_suffix w"
    using append_sep_inj [OF _ assms(2) assms(2) version_suffix_cases version_suffix_cases] by blast
  then show ?thesis using assms(1) version_suffix_inj by blast
qed

text \<open>A serialisation for the witness: two bytes for origin and kind, the texts in hexadecimal.\<close>

definition demo_kind :: "ActionKind \<Rightarrow> char" where
  "demo_kind k =
     (case k of ReadFile \<Rightarrow> CHR ''a'' | WriteFile \<Rightarrow> CHR ''b'' | SpawnProcess \<Rightarrow> CHR ''c''
      | NetworkConnect \<Rightarrow> CHR ''d'' | SshConnect \<Rightarrow> CHR ''e'' | SftpTransfer \<Rightarrow> CHR ''f''
      | TmuxAttach \<Rightarrow> CHR ''g'' | WebSearch \<Rightarrow> CHR ''h'' | WebFetch \<Rightarrow> CHR ''i''
      | WebDownload \<Rightarrow> CHR ''j'' | WebBrowser \<Rightarrow> CHR ''k'' | WebSubmit \<Rightarrow> CHR ''l''
      | WebUpload \<Rightarrow> CHR ''m'')"

definition demo_externals :: externals where
  "demo_externals =
     \<lparr>serialise_action = (\<lambda>a.
        [if action_origin a = ActionOrigin.User then CHR ''u'' else CHR ''v'', demo_kind (action_kind a)]
        @ hex_encode (action_summary a) @ '':''
        @ (case action_target a of None \<Rightarrow> ''-'' | Some t \<Rightarrow> hex_encode t)),
      sha256 = id\<rparr>"

lemma demo_kind_inj: "demo_kind k = demo_kind l \<Longrightarrow> k = l"
  by (cases k; cases l) (simp_all add: demo_kind_def)

lemma hex_digit_range: "n < 16 \<Longrightarrow> 48 \<le> code (hex_digit n) \<and> code (hex_digit n) \<noteq> 58"
  by (auto simp: hex_digit_def)

lemma hex_encode_range: "x \<in> set (hex_encode s) \<Longrightarrow> 48 \<le> code x \<and> code x \<noteq> 58"
proof -
  assume "x \<in> set (hex_encode s)"
  then obtain c where "x = hex_digit (code c div 16) \<or> x = hex_digit (code c mod 16)"
    by (auto simp: hex_encode_def)
  moreover have "code c div 16 < 16" "code c mod 16 < 16"
    by (simp_all add: less_mult_imp_div_less)
  ultimately obtain n where "n < 16" "x = hex_digit n" by blast
  then show ?thesis using hex_digit_range by simp
qed

lemma hex_encode_no_sep:
  "CHR '':'' \<notin> set (hex_encode s)" "CHR ''-'' \<notin> set (hex_encode s)" "CHR 0x00 \<notin> set (hex_encode s)"
  using hex_encode_range [of "CHR '':''" s] hex_encode_range [of "CHR ''-''" s]
    hex_encode_range [of "CHR 0x00" s] by auto

lemma demo_target_inj:
  assumes "(case x of None \<Rightarrow> ''-'' | Some t \<Rightarrow> hex_encode t) = (case y of None \<Rightarrow> ''-'' | Some t \<Rightarrow> hex_encode t)"
  shows "x = y"
proof -
  have "hex_encode t \<noteq> ''-''" for t
    using hex_encode_no_sep(2) [of t] by auto
  then show ?thesis
    using assms hex_encode_inj by (cases x; cases y) (auto dest: sym)
qed

lemma demo_serialise_inj: "serialise_action demo_externals a = serialise_action demo_externals b \<Longrightarrow> a = b"
proof -
  assume eq: "serialise_action demo_externals a = serialise_action demo_externals b"
  let ?tail = "\<lambda>a :: Action. '':'' @ (case action_target a of None \<Rightarrow> ''-'' | Some t \<Rightarrow> hex_encode t)"
  have oa: "x = ActionOrigin.User \<or> x = ActionOrigin.Agent" for x by (cases x) auto
  from eq have o: "action_origin a = action_origin b" and k: "action_kind a = action_kind b"
    and r: "hex_encode (action_summary a) @ ?tail a = hex_encode (action_summary b) @ ?tail b"
    using oa [of "action_origin a"] oa [of "action_origin b"]
    by (auto simp: demo_externals_def split: if_splits dest: demo_kind_inj)
  have "hex_encode (action_summary a) = hex_encode (action_summary b) \<and> ?tail a = ?tail b"
    by (rule append_sep_inj [OF r hex_encode_no_sep(1) hex_encode_no_sep(1)]) simp_all
  then have "action_summary a = action_summary b" "action_target a = action_target b"
    using hex_encode_inj by (auto intro: demo_target_inj)
  with o k show ?thesis by simp
qed

lemma demo_serialise_no_nul: "CHR 0x00 \<notin> set (serialise_action demo_externals a)"
  using hex_encode_no_sep(3) by (auto simp: demo_externals_def demo_kind_def split: option.splits ActionKind.splits)

theorem fingerprint_determines_action_witness:
  "for_action_with_version demo_externals
     \<lparr>action_origin = ActionOrigin.Agent, action_kind = WriteFile, action_summary = ''s'', action_target = None\<rparr>
     (Some 1)
   \<noteq> for_action_with_version demo_externals
     \<lparr>action_origin = ActionOrigin.Agent, action_kind = WriteFile, action_summary = ''s'', action_target = None\<rparr>
     (Some 2)"
proof
  let ?a = "\<lparr>action_origin = ActionOrigin.Agent, action_kind = WriteFile, action_summary = ''s'',
             action_target = None\<rparr>"
  assume "for_action_with_version demo_externals ?a (Some 1) = for_action_with_version demo_externals ?a (Some 2)"
  then have "?a = ?a \<and> Some (1 :: u32) = Some 2"
    by (intro fingerprint_determines_action [of demo_externals] demo_serialise_inj demo_serialise_no_nul)
      (simp_all add: demo_externals_def)
  then show False by simp
qed

text \<open>
  A policy store is accepted exactly when its version is supported, every entry has a
  non-blank id and label without a secret marker, and the ids are distinct.
\<close>

theorem store_validate_iff:
  "store_validate ps = Inr () \<longleftrightarrow>
     store_version ps = POLICY_STORE_VERSION \<and> list_all entry_ok (store_instructions ps)
     \<and> distinct (governed_ids ps)"
  by (auto simp: store_validate_def validate_entries_Inr_iff governed_ids_def)

end
