(* ===== verification/Policy.thy ===== *)
theory Policy
  imports Protocol_Types Web_Security
begin

text \<open>
  The policy engine, \<open>crates/impetus-core/src/policy.rs\<close>, and the permission gate of
  extension packages, \<open>extension_policy.rs\<close> with the tokens of
  \<open>crates/impetus-extension-sdk/src/permissions.rs\<close>.

  The engine's overrides are an \<open>Arc<RwLock<..>>\<close> that clones share: an engine holds the
  address of a cell in a list of override maps, and a clone is the same record. A poisoned
  lock is entered like a healthy one (\<open>into_inner\<close>), so poisoning is not represented.

  The file system is the record \<open>file_system\<close>: \<open>std::fs::canonicalize\<close> and
  \<open>Path::exists\<close> at the time of the call.
\<close>

section \<open>Sandbox scope\<close>

record file_system =
  canonicalize :: "string \<Rightarrow> string option"
  path_exists :: "string \<Rightarrow> bool"

record SandboxScope =
  workspace_root :: string
  allow_network :: bool
  allowed_hosts :: "string list"
  allow_web_outbound :: bool
  allow_private_network :: bool

definition local_workspace :: "string \<Rightarrow> SandboxScope" where
  "local_workspace root =
     \<lparr>workspace_root = root, allow_network = False, allowed_hosts = [],
      allow_web_outbound = False, allow_private_network = False\<rparr>"

definition with_network :: "SandboxScope \<Rightarrow> bool \<Rightarrow> SandboxScope" where
  "with_network s allow = s\<lparr>allow_network := allow\<rparr>"

definition with_web_outbound :: "SandboxScope \<Rightarrow> bool \<Rightarrow> SandboxScope" where
  "with_web_outbound s allow = s\<lparr>allow_web_outbound := allow\<rparr>"

definition with_private_network :: "SandboxScope \<Rightarrow> bool \<Rightarrow> SandboxScope" where
  "with_private_network s allow = s\<lparr>allow_private_network := allow\<rparr>"

text \<open>The \<open>while\<close> loop of \<open>contains_target\<close>: the nearest ancestor that exists.\<close>

function existing_ancestor :: "file_system \<Rightarrow> string \<Rightarrow> string option" where
  "existing_ancestor fs p =
     (if path_exists fs p then Some p
      else case path_parent p of
        None \<Rightarrow> None
      | Some parent \<Rightarrow> existing_ancestor fs parent)"
  by pat_completeness auto
termination
  by (relation "measure (\<lambda>(fs, p). length p)") (simp_all add: path_parent_shorter)

declare existing_ancestor.simps [simp del]

definition contains_target :: "file_system \<Rightarrow> SandboxScope \<Rightarrow> string \<Rightarrow> bool \<Rightarrow> bool" where
  "contains_target fs scope candidate allow_missing_leaf =
     (case canonicalize fs (workspace_root scope) of
        None \<Rightarrow> False
      | Some root \<Rightarrow>
          (let target = (if is_absolute candidate then candidate else path_join root candidate) in
           case canonicalize fs target of
             Some resolved \<Rightarrow> path_starts_with resolved root
           | None \<Rightarrow>
               if \<not> allow_missing_leaf then False
               else (case existing_ancestor fs target of
                 None \<Rightarrow> False
               | Some ancestor \<Rightarrow>
                   is_some_and (canonicalize fs ancestor) (\<lambda>a. path_starts_with a root))))"

definition scope_contains :: "file_system \<Rightarrow> SandboxScope \<Rightarrow> string \<Rightarrow> bool" where
  "scope_contains fs scope candidate = contains_target fs scope candidate False"

definition contains_write_target :: "file_system \<Rightarrow> SandboxScope \<Rightarrow> string \<Rightarrow> bool" where
  "contains_write_target fs scope candidate = contains_target fs scope candidate True"

section \<open>The engine\<close>

type_synonym overrides = "ActionKind \<rightharpoonup> PolicyConfigDecision"
type_synonym policy_heap = "overrides list"

record PolicyEngine =
  engine_scope :: SandboxScope
  engine_overrides :: nat

definition policy_new :: "SandboxScope \<Rightarrow> policy_heap \<Rightarrow> PolicyEngine \<times> policy_heap" where
  "policy_new scope h =
     (\<lparr>engine_scope = scope, engine_overrides = length h\<rparr>, h @ [Map.empty])"

definition policy_with_config ::
    "SandboxScope \<Rightarrow> PolicyConfig \<Rightarrow> policy_heap \<Rightarrow> PolicyEngine \<times> policy_heap" where
  "policy_with_config scope config h =
     (\<lparr>engine_scope = scope, engine_overrides = length h\<rparr>, h @ [config_overrides config])"

definition reload_config :: "PolicyEngine \<Rightarrow> PolicyConfig \<Rightarrow> policy_heap \<Rightarrow> policy_heap" where
  "reload_config e config h = h[engine_overrides e := config_overrides config]"

definition reload_config_from_path ::
    "(string \<Rightarrow> PolicyConfig option) \<Rightarrow> (string \<Rightarrow> string option) \<Rightarrow> PolicyEngine \<Rightarrow> string
     \<Rightarrow> policy_heap \<Rightarrow> (PolicyConfigError + unit) \<times> policy_heap" where
  "reload_config_from_path from_str read e path h =
     (case config_load_from_path from_str read path of
        Inl err \<Rightarrow> (Inl err, h)
      | Inr config \<Rightarrow> (Inr (), reload_config e config h))"

definition engine_config :: "PolicyEngine \<Rightarrow> policy_heap \<Rightarrow> PolicyConfig" where
  "engine_config e h =
     \<lparr>config_version = POLICY_CONFIG_VERSION, config_overrides = h ! engine_overrides e\<rparr>"

fun web_capability :: "ActionKind \<Rightarrow> WebCapability option" where
  "web_capability WebSearch = Some Search"
| "web_capability WebFetch = Some Read"
| "web_capability WebDownload = Some Download"
| "web_capability WebBrowser = Some Browser"
| "web_capability WebSubmit = Some Submit"
| "web_capability WebUpload = Some Upload"
| "web_capability _ = None"

definition target_is_in_scope :: "file_system \<Rightarrow> PolicyEngine \<Rightarrow> Action \<Rightarrow> bool \<Rightarrow> bool" where
  "target_is_in_scope fs e action allow_missing_leaf =
     is_some_and (action_target action)
       (\<lambda>target. if allow_missing_leaf then contains_write_target fs (engine_scope e) target
                 else scope_contains fs (engine_scope e) target)"

definition evaluate_web_hard_deny :: "'u url_api \<Rightarrow> PolicyEngine \<Rightarrow> Action \<Rightarrow> PolicyDecision option" where
  "evaluate_web_hard_deny U e action =
     (if web_capability (action_kind action) = None
      then Some (PolicyDecision.Deny ''unknown web action'')
      else if \<not> allow_network (engine_scope e)
      then Some (PolicyDecision.Deny ''network is disabled in this workspace scope'')
      else if is_some_and (action_target action) (target_requires_private_read U)
              \<and> \<not> allow_private_network (engine_scope e)
      then Some (PolicyDecision.Deny
             ''private/LAN web targets require session private-network allowance'')
      else None)"

text \<open>The \<open>expect\<close> on the capability is unreachable, as the hard deny checked it; the model
  gives the branch the decision of the hard deny.\<close>

definition evaluate_web_action :: "'u url_api \<Rightarrow> PolicyEngine \<Rightarrow> Action \<Rightarrow> PolicyDecision" where
  "evaluate_web_action U e action =
     (case evaluate_web_hard_deny U e action of
        Some deny \<Rightarrow> deny
      | None \<Rightarrow>
          (case web_capability (action_kind action) of
             None \<Rightarrow> PolicyDecision.Deny ''unknown web action''
           | Some capability \<Rightarrow>
               (let private_target =
                      is_some_and (action_target action) (target_requires_private_read U);
                    effective = (if private_target \<and> capability = Read then PrivateRead
                                 else capability)
                in if capability_is_read_only effective then PolicyDecision.Allow
                   else if allow_web_outbound (engine_scope e) then PolicyDecision.Allow
                   else PolicyDecision.NeedsApproval
                          ''outbound web requires session allowance or user approval'')))"

text \<open>The three \<open>match\<close> blocks of \<open>evaluate\<close>: scope, network, then overrides and defaults.\<close>

definition scope_deny :: "file_system \<Rightarrow> PolicyEngine \<Rightarrow> Action \<Rightarrow> PolicyDecision option" where
  "scope_deny fs e action =
     (case action_kind action of
        ReadFile \<Rightarrow>
          if \<not> target_is_in_scope fs e action False
          then Some (PolicyDecision.Deny ''read target is missing or outside the workspace scope'')
          else None
      | WriteFile \<Rightarrow>
          if \<not> target_is_in_scope fs e action True
          then Some (PolicyDecision.Deny ''write target is outside the workspace scope'')
          else None
      | _ \<Rightarrow> None)"

definition network_deny :: "'u url_api \<Rightarrow> PolicyEngine \<Rightarrow> Action \<Rightarrow> PolicyDecision option" where
  "network_deny U e action =
     (if action_kind action \<in> {NetworkConnect, SshConnect, SftpTransfer}
      then if \<not> allow_network (engine_scope e)
           then Some (PolicyDecision.Deny ''network is disabled in this workspace scope'')
           else None
      else if action_kind action \<in> {WebSearch, WebFetch, WebDownload, WebBrowser, WebSubmit, WebUpload}
      then evaluate_web_hard_deny U e action
      else None)"

definition default_decision :: "'u url_api \<Rightarrow> PolicyEngine \<Rightarrow> Action \<Rightarrow> PolicyDecision" where
  "default_decision U e action =
     (case action_kind action of
        ReadFile \<Rightarrow> PolicyDecision.Allow
      | WriteFile \<Rightarrow> PolicyDecision.NeedsApproval ''changes local machine state''
      | SpawnProcess \<Rightarrow>
          if action_origin action = ActionOrigin.User then PolicyDecision.Allow
          else PolicyDecision.NeedsApproval ''changes local machine state''
      | TmuxAttach \<Rightarrow> PolicyDecision.NeedsApproval ''changes local machine state''
      | NetworkConnect \<Rightarrow> PolicyDecision.NeedsApproval ''opens a network connection''
      | SshConnect \<Rightarrow> PolicyDecision.NeedsApproval ''opens a network connection''
      | SftpTransfer \<Rightarrow> PolicyDecision.NeedsApproval ''opens a network connection''
      | _ \<Rightarrow> evaluate_web_action U e action)"

definition evaluate ::
    "file_system \<Rightarrow> 'u url_api \<Rightarrow> policy_heap \<Rightarrow> PolicyEngine \<Rightarrow> Action \<Rightarrow> PolicyDecision" where
  "evaluate fs U h e action =
     (case scope_deny fs e action of
        Some deny \<Rightarrow> deny
      | None \<Rightarrow>
          (case network_deny U e action of
             Some deny \<Rightarrow> deny
           | None \<Rightarrow>
               (case (h ! engine_overrides e) (action_kind action) of
                  Some overridden \<Rightarrow> to_decision overridden
                | None \<Rightarrow> default_decision U e action)))"

definition egress_policy :: "PolicyEngine \<Rightarrow> EgressPolicy" where
  "egress_policy e = egress_with_private_network (allow_private_network (engine_scope e))"

section \<open>Snapshots and replay\<close>

type_synonym PolicyVersion = u32

definition PolicyVersion_V1 :: PolicyVersion where
  "PolicyVersion_V1 = 1"

record PolicySnapshot =
  snapshot_version :: PolicyVersion
  snapshot_scope :: SandboxScope
  snapshot_timestamp :: nat

definition snapshot_capture :: "nat \<Rightarrow> PolicyEngine \<Rightarrow> PolicySnapshot" where
  "snapshot_capture now_secs e =
     \<lparr>snapshot_version = PolicyVersion_V1, snapshot_scope = engine_scope e,
      snapshot_timestamp = now_secs\<rparr>"

definition replay ::
    "file_system \<Rightarrow> 'u url_api \<Rightarrow> policy_heap \<Rightarrow> PolicySnapshot \<Rightarrow> Action \<Rightarrow> PolicyDecision" where
  "replay fs U h snapshot action =
     (if snapshot_version snapshot \<noteq> PolicyVersion_V1
      then PolicyDecision.Deny (''unsupported policy version: PolicyVersion(''
             @ nat_to_string (unat (snapshot_version snapshot)) @ '')'')
      else let (historical, h') = policy_new (snapshot_scope snapshot) h
           in evaluate fs U h' historical action)"

section \<open>Permissions of extension packages\<close>

datatype ExtensionPermission =
    FilesystemRead | FilesystemWrite | Network | ProcessSpawn | Pty | Git | Mcp | Browser | Lsp
  | Memory | SecretsProvider

fun permission_str :: "ExtensionPermission \<Rightarrow> string" where
  "permission_str FilesystemRead = ''filesystem_read''"
| "permission_str FilesystemWrite = ''filesystem_write''"
| "permission_str Network = ''network''"
| "permission_str ProcessSpawn = ''process_spawn''"
| "permission_str Pty = ''pty''"
| "permission_str Git = ''git''"
| "permission_str Mcp = ''mcp''"
| "permission_str ExtensionPermission.Browser = ''browser''"
| "permission_str Lsp = ''lsp''"
| "permission_str Memory = ''memory''"
| "permission_str SecretsProvider = ''secrets_provider''"

datatype PermissionsError = Unknown string | Duplicate string

definition permission_from_str :: "string \<Rightarrow> PermissionsError + ExtensionPermission" where
  "permission_from_str s =
     (case List.find (\<lambda>p. permission_str p = s)
        [FilesystemRead, FilesystemWrite, Network, ProcessSpawn, Pty, Git, Mcp,
         ExtensionPermission.Browser, Lsp, Memory, SecretsProvider] of
        Some p \<Rightarrow> Inr p
      | None \<Rightarrow> Inl (Unknown s))"

fun validate_permissions_from ::
    "ExtensionPermission set \<Rightarrow> ExtensionPermission list \<Rightarrow> PermissionsError + unit" where
  "validate_permissions_from seen [] = Inr ()"
| "validate_permissions_from seen (p # ps) =
     (if p \<in> seen then Inl (Duplicate (permission_str p))
      else validate_permissions_from (insert p seen) ps)"

definition validate_permissions :: "ExtensionPermission list \<Rightarrow> PermissionsError + unit" where
  "validate_permissions ps = validate_permissions_from {} ps"

fun action_kinds_for_permission :: "ExtensionPermission \<Rightarrow> ActionKind list" where
  "action_kinds_for_permission FilesystemRead = [ReadFile]"
| "action_kinds_for_permission FilesystemWrite = [WriteFile]"
| "action_kinds_for_permission Network = [NetworkConnect, SshConnect, SftpTransfer]"
| "action_kinds_for_permission ProcessSpawn = [SpawnProcess]"
| "action_kinds_for_permission Pty = [TmuxAttach]"
| "action_kinds_for_permission Git = [SpawnProcess]"
| "action_kinds_for_permission Mcp = [NetworkConnect]"
| "action_kinds_for_permission ExtensionPermission.Browser = [WebBrowser, WebFetch, WebSearch]"
| "action_kinds_for_permission Lsp = [SpawnProcess]"
| "action_kinds_for_permission Memory = []"
| "action_kinds_for_permission SecretsProvider = []"

definition declared_reason :: "ExtensionPermission \<Rightarrow> string" where
  "declared_reason p =
     ''extension declared `'' @ permission_str p @ ''` (still subject to Policy at action time)''"

fun evaluate_permission_against_scope :: "ExtensionPermission \<Rightarrow> SandboxScope \<Rightarrow> PolicyDecision" where
  "evaluate_permission_against_scope Network scope =
     (if \<not> allow_network scope
      then PolicyDecision.Deny (''extension permission `'' @ permission_str Network
             @ ''` requires network; sandbox has allow_network=false'')
      else PolicyDecision.NeedsApproval (declared_reason Network))"
| "evaluate_permission_against_scope FilesystemRead scope = PolicyDecision.Allow"
| "evaluate_permission_against_scope Lsp scope = PolicyDecision.Allow"
| "evaluate_permission_against_scope Memory scope = PolicyDecision.Allow"
| "evaluate_permission_against_scope SecretsProvider scope = PolicyDecision.NeedsApproval
     ''secrets_provider resolves Keychain references only; no raw token grant''"
| "evaluate_permission_against_scope p scope = PolicyDecision.NeedsApproval (declared_reason p)"

fun permission_eval :: "ExtensionPermission list \<Rightarrow> SandboxScope \<Rightarrow> string + unit" where
  "permission_eval [] scope = Inr ()"
| "permission_eval (p # ps) scope =
     (case evaluate_permission_against_scope p scope of
        PolicyDecision.Deny reason \<Rightarrow> Inl reason
      | _ \<Rightarrow> permission_eval ps scope)"

definition action_for_host_process_operate ::
    "ActionOrigin \<Rightarrow> string \<Rightarrow> string \<Rightarrow> ExtensionPermission option \<Rightarrow> Action" where
  "action_for_host_process_operate origin extension_id op permission =
     (let op = trim op;
          kind = (if op = ''echo'' then SpawnProcess
                  else case permission of
                    None \<Rightarrow> SpawnProcess
                  | Some p \<Rightarrow> (case action_kinds_for_permission p of [] \<Rightarrow> SpawnProcess | k # _ \<Rightarrow> k))
      in \<lparr>action_origin = origin, action_kind = kind,
          action_summary = ''extension host_process operate `'' @ op @ ''` on `'' @ extension_id @ ''`'',
          action_target = Some (extension_id @ [slash] @ op)\<rparr>)"

section \<open>Facts about the scope\<close>

lemma RootDir_seg [simp]: "RootDir \<notin> set (seg_component w)"
  by (simp add: seg_component_def)

lemma RootDir_in_components: "RootDir \<in> set (components p) \<longleftrightarrow> is_absolute p"
  by (auto simp: components_def split: list.splits)

lemma components_absolute: "is_absolute p \<Longrightarrow> \<exists>cs. components p = RootDir # cs"
  by (auto simp: components_def)

lemma path_parent_absolute:
  assumes "is_absolute p" "path_parent p = Some q"
  shows "is_absolute q"
proof -
  obtain cs where cs: "components p = RootDir # cs"
    using components_absolute [OF assms(1)] by blast
  have "cs \<noteq> []" using assms(2) cs by (auto simp: path_parent_def)
  then have "components q = RootDir # butlast cs"
    using path_parent_components [OF assms(2)] cs by simp
  then show ?thesis using RootDir_in_components [of q] by simp
qed

lemma existing_ancestor_prefix:
  "existing_ancestor fs p = Some a \<Longrightarrow>
   path_starts_with p a \<and> (is_absolute p \<longrightarrow> is_absolute a) \<and> path_exists fs a"
proof (induction fs p rule: existing_ancestor.induct)
  case (1 fs p)
  show ?case
  proof (cases "path_exists fs p")
    case True
    with "1.prems" show ?thesis by (simp add: existing_ancestor.simps [of fs p])
  next
    case False
    with "1.prems" obtain q where q: "path_parent p = Some q" "existing_ancestor fs q = Some a"
      by (auto simp: existing_ancestor.simps [of fs p] split: option.splits)
    have "path_starts_with p q"
      using path_parent_components [OF q(1)] by (simp add: path_starts_with_def prefixeq_butlast)
    with "1.IH" [OF False q(1,2)] path_parent_absolute [OF _ q(1)] show ?thesis
      by (auto intro: path_starts_with_trans)
  qed
qed

text \<open>
  The path a candidate stands for, and the file systems without symbolic links: resolving
  an absolute path that has no \<open>..\<close> component keeps its components.
\<close>

definition target_path :: "string \<Rightarrow> string \<Rightarrow> string" where
  "target_path root candidate = (if is_absolute candidate then candidate else path_join root candidate)"

definition no_symlinks :: "file_system \<Rightarrow> bool" where
  "no_symlinks fs \<longleftrightarrow>
     (\<forall>p q. is_absolute p \<and> ParentDir \<notin> set (components p) \<and> canonicalize fs p = Some q
        \<longrightarrow> components q = components p)"

lemma no_symlinksD:
  "no_symlinks fs \<Longrightarrow> canonicalize fs p = Some q \<Longrightarrow> is_absolute p \<Longrightarrow> ParentDir \<notin> set (components p)
   \<Longrightarrow> path_starts_with q r = path_starts_with p r"
  by (auto simp: no_symlinks_def path_starts_with_def)

section \<open>Facts about decisions\<close>

definition web_kinds :: "ActionKind set" where
  "web_kinds = {WebSearch, WebFetch, WebDownload, WebBrowser, WebSubmit, WebUpload}"

text \<open>The actions no configuration may admit.\<close>

definition must_deny :: "file_system \<Rightarrow> 'u url_api \<Rightarrow> SandboxScope \<Rightarrow> Action \<Rightarrow> bool" where
  "must_deny fs U scope a \<longleftrightarrow>
     (action_kind a = ReadFile \<and> \<not> is_some_and (action_target a) (scope_contains fs scope))
     \<or> (action_kind a = WriteFile \<and> \<not> is_some_and (action_target a) (contains_write_target fs scope))
     \<or> (action_kind a \<in> {NetworkConnect, SshConnect, SftpTransfer} \<union> web_kinds \<and> \<not> allow_network scope)
     \<or> (action_kind a \<in> web_kinds \<and> is_some_and (action_target a) (target_requires_private_read U)
          \<and> \<not> allow_private_network scope)"

lemma evaluate_web_hard_deny_None_iff:
  "action_kind a \<in> web_kinds \<Longrightarrow>
   evaluate_web_hard_deny U e a = None \<longleftrightarrow> \<not> must_deny fs U (engine_scope e) a"
  by (auto simp: web_kinds_def evaluate_web_hard_deny_def must_deny_def)

lemma evaluate_must_deny:
  "must_deny fs U (engine_scope e) a \<Longrightarrow> \<exists>reason. evaluate fs U h e a = PolicyDecision.Deny reason"
  by (cases "action_kind a")
    (auto simp: must_deny_def web_kinds_def evaluate_def scope_deny_def network_deny_def
       target_is_in_scope_def evaluate_web_hard_deny_def)

lemma evaluate_must_deny_heap:
  assumes "must_deny fs U (engine_scope e) a"
  shows "evaluate fs U h e a = evaluate fs U h' e a"
proof -
  have "scope_deny fs e a \<noteq> None \<or> network_deny U e a \<noteq> None"
    using assms by (cases "action_kind a") (auto simp: must_deny_def web_kinds_def scope_deny_def
        network_deny_def target_is_in_scope_def evaluate_web_hard_deny_def)
  then show ?thesis by (auto simp: evaluate_def split: option.splits)
qed

lemma evaluate_not_must_deny:
  "\<not> must_deny fs U (engine_scope e) a \<Longrightarrow>
   evaluate fs U h e a =
     (case (h ! engine_overrides e) (action_kind a) of
        Some d \<Rightarrow> to_decision d | None \<Rightarrow> default_decision U e a)"
  by (cases "action_kind a")
    (auto simp: must_deny_def web_kinds_def evaluate_def scope_deny_def network_deny_def
       target_is_in_scope_def evaluate_web_hard_deny_def)

lemma default_allow_iff:
  "\<not> must_deny fs U (engine_scope e) a \<Longrightarrow>
   default_decision U e a = PolicyDecision.Allow \<longleftrightarrow>
     action_kind a \<in> {ReadFile, WebSearch, WebFetch}
     \<or> (action_kind a = SpawnProcess \<and> action_origin a = ActionOrigin.User)
     \<or> (action_kind a \<in> web_kinds \<and> allow_web_outbound (engine_scope e))"
  by (cases "action_kind a")
    (auto simp: default_decision_def evaluate_web_action_def Let_def web_kinds_def
       capability_is_read_only_def must_deny_def evaluate_web_hard_deny_def)

section \<open>Properties\<close>


text \<open>
  Without an override for its kind, an action is allowed at once only if it is a read
  inside the workspace, a read-only web request, a process that the user (not the agent)
  starts, or an outbound web request under the session's outbound grant. Every other
  action needs approval or is denied.
\<close>

theorem allow_without_override:
  assumes "(h ! engine_overrides e) (action_kind a) = None"
  shows "evaluate fs U h e a = PolicyDecision.Allow \<longleftrightarrow>
    \<not> must_deny fs U (engine_scope e) a \<and>
    (action_kind a \<in> {ReadFile, WebSearch, WebFetch}
     \<or> (action_kind a = SpawnProcess \<and> action_origin a = ActionOrigin.User)
     \<or> (action_kind a \<in> web_kinds \<and> allow_web_outbound (engine_scope e)))"
proof (cases "must_deny fs U (engine_scope e) a")
  case True
  then show ?thesis using evaluate_must_deny [of fs U e a h] by auto
next
  case False
  then show ?thesis
    using assms default_allow_iff [OF False] by (simp add: evaluate_not_must_deny)
qed

definition shell_action :: "ActionOrigin \<Rightarrow> Action" where
  "shell_action origin =
     \<lparr>action_origin = origin, action_kind = SpawnProcess, action_summary = ''ls'', action_target = Some ''ls''\<rparr>"

definition empty_fs :: file_system where
  "empty_fs = \<lparr>canonicalize = (\<lambda>_. None), path_exists = (\<lambda>_. False)\<rparr>"

theorem allow_without_override_witness:
  "evaluate empty_fs plain_host_api [Map.empty] \<lparr>engine_scope = local_workspace ''/w'', engine_overrides = 0\<rparr>
     (shell_action ActionOrigin.Agent) \<noteq> PolicyDecision.Allow"
  using allow_without_override [of "[Map.empty]" "\<lparr>engine_scope = local_workspace ''/w'', engine_overrides = 0\<rparr>"
      "shell_action ActionOrigin.Agent" empty_fs plain_host_api]
  by (simp add: shell_action_def web_kinds_def)

text \<open>
  A reload reaches every clone and nothing else: after \<open>reload_config\<close> on one engine,
  every engine that shares its overrides decides by the new ones (after the fail-closed
  denials, which the reload cannot touch), and every engine with another cell decides as
  before. A reload from a file that cannot be read, parsed or has an unsupported version
  changes nothing.
\<close>

theorem reload_reaches_clones:
  assumes "engine_overrides e < length h"
  shows "(engine_overrides clone = engine_overrides e \<longrightarrow>
      evaluate fs U (reload_config e config h) clone a =
        (if must_deny fs U (engine_scope clone) a then evaluate fs U h clone a
         else case config_overrides config (action_kind a) of
           Some d \<Rightarrow> to_decision d | None \<Rightarrow> default_decision U clone a))
    \<and> (engine_overrides clone \<noteq> engine_overrides e \<longrightarrow>
      evaluate fs U (reload_config e config h) clone a = evaluate fs U h clone a)
    \<and> (fst (reload_config_from_path from_str read e path h) \<noteq> Inr () \<longrightarrow>
      snd (reload_config_from_path from_str read e path h) = h)"
proof (intro conjI impI)
  assume same: "engine_overrides clone = engine_overrides e"
  show "evaluate fs U (reload_config e config h) clone a =
        (if must_deny fs U (engine_scope clone) a then evaluate fs U h clone a
         else case config_overrides config (action_kind a) of
           Some d \<Rightarrow> to_decision d | None \<Rightarrow> default_decision U clone a)"
  proof (cases "must_deny fs U (engine_scope clone) a")
    case True
    then show ?thesis using evaluate_must_deny_heap [OF True, of "reload_config e config h" h] by simp
  next
    case False
    with assms same show ?thesis by (simp add: evaluate_not_must_deny reload_config_def)
  qed
next
  assume "engine_overrides clone \<noteq> engine_overrides e"
  then have same: "reload_config e config h ! engine_overrides clone = h ! engine_overrides clone"
    by (simp add: reload_config_def)
  show "evaluate fs U (reload_config e config h) clone a = evaluate fs U h clone a"
    unfolding evaluate_def same ..
qed (auto simp: reload_config_from_path_def split: sum.splits)

definition shell_engine :: PolicyEngine where
  "shell_engine = \<lparr>engine_scope = local_workspace ''/w'', engine_overrides = 0\<rparr>"

theorem reload_reaches_clones_witness:
  "evaluate empty_fs plain_host_api
     (reload_config shell_engine
        \<lparr>config_version = 1, config_overrides = [SpawnProcess \<mapsto> PolicyConfigDecision.Deny]\<rparr> [Map.empty])
     shell_engine (shell_action ActionOrigin.User) = PolicyDecision.Deny ''denied by user policy config''"
  using reload_reaches_clones [of shell_engine "[Map.empty]" shell_engine empty_fs plain_host_api
      "\<lparr>config_version = 1, config_overrides = [SpawnProcess \<mapsto> PolicyConfigDecision.Deny]\<rparr>"
      "shell_action ActionOrigin.User"]
  by (simp add: shell_engine_def shell_action_def must_deny_def web_kinds_def)

text \<open>
  Replay forgets the overrides. The documentation of \<open>replay\<close> promises the decision that
  would have been made at snapshot time, but a snapshot holds the scope only: replay gives
  the decision of the defaults. An engine whose overrides deny a process of the user
  denies it, and the replay of a snapshot taken at that moment allows it.
\<close>

theorem replay_forgets_overrides:
  "replay fs U h (snapshot_capture now e) a = evaluate fs U (h @ [Map.empty]) (e\<lparr>engine_overrides := length h\<rparr>) a
   \<and> (\<exists>h e a. evaluate fs U h e a = PolicyDecision.Deny ''denied by user policy config''
        \<and> replay fs U h (snapshot_capture now e) a = PolicyDecision.Allow)"
proof
  show "replay fs U h (snapshot_capture now e) a
      = evaluate fs U (h @ [Map.empty]) (e\<lparr>engine_overrides := length h\<rparr>) a"
    by (cases e) (simp add: replay_def snapshot_capture_def policy_new_def)
  let ?h = "[[SpawnProcess \<mapsto> PolicyConfigDecision.Deny]]"
  let ?e = "\<lparr>engine_scope = local_workspace ''/w'', engine_overrides = 0\<rparr>"
  let ?a = "shell_action ActionOrigin.User"
  have "evaluate fs U ?h ?e ?a = PolicyDecision.Deny ''denied by user policy config''"
    "replay fs U ?h (snapshot_capture now ?e) ?a = PolicyDecision.Allow"
    by (simp_all add: evaluate_def scope_deny_def network_deny_def shell_action_def replay_def
        snapshot_capture_def policy_new_def default_decision_def)
  then show "\<exists>h e a. evaluate fs U h e a = PolicyDecision.Deny ''denied by user policy config''
      \<and> replay fs U h (snapshot_capture now e) a = PolicyDecision.Allow"
    by blast
qed

text \<open>
  On a file system without symbolic links, a write target without \<open>..\<close> that the scope
  admits lies in the workspace, whether the file exists already or its missing part is
  cut off down to the nearest existing ancestor.
\<close>

theorem write_target_under_root:
  assumes "no_symlinks fs" "canonicalize fs (workspace_root scope) = Some root" "is_absolute root"
    and "ParentDir \<notin> set (components (target_path root candidate))"
    and "contains_write_target fs scope candidate"
  shows "path_starts_with (target_path root candidate) root"
proof -
  let ?t = "target_path root candidate"
  have abs: "is_absolute ?t"
    using assms(3) by (auto simp: target_path_def path_join_def is_absolute_def starts_with_def
        prefix_def)
  show ?thesis
  proof (cases "canonicalize fs ?t")
    case (Some q)
    then have "path_starts_with q root"
      using assms(2,5) by (simp add: contains_write_target_def contains_target_def target_path_def)
    then show ?thesis using no_symlinksD [OF assms(1) Some abs assms(4)] by simp
  next
    case None
    then obtain anc q where a: "existing_ancestor fs ?t = Some anc" "canonicalize fs anc = Some q"
      "path_starts_with q root"
      using assms(2,5) by (auto simp: contains_write_target_def contains_target_def target_path_def
          is_some_and_iff Let_def split: option.splits if_splits)
    have anc: "path_starts_with ?t anc" "is_absolute anc"
      using existing_ancestor_prefix [OF a(1)] abs by simp_all
    then have "ParentDir \<notin> set (components anc)"
      using assms(4) by (auto simp: path_starts_with_def dest: set_mono_prefix)
    then have "path_starts_with anc root"
      using no_symlinksD [OF assms(1) a(2) anc(2)] a(3) by simp
    with anc(1) show ?thesis by (rule path_starts_with_trans)
  qed
qed

text \<open>A file system whose only directories are the root and one below it.\<close>

definition one_dir_fs :: "string \<Rightarrow> file_system" where
  "one_dir_fs name =
     \<lparr>canonicalize = (\<lambda>p. if components p = [RootDir] then Some [slash]
                          else if components p = [RootDir, Normal name] then Some (slash # name) else None),
      path_exists = (\<lambda>p. components p = [RootDir] \<or> components p = [RootDir, Normal name])\<rparr>"

lemma no_symlinks_one_dir: "no_symlinks (one_dir_fs ''w'')"
proof -
  have "components [slash] = [RootDir]" "components (slash # ''w'') = [RootDir, Normal ''w'']"
    by code_simp+
  then show ?thesis by (auto simp: no_symlinks_def one_dir_fs_def split: if_splits)
qed

theorem write_target_under_root_witness:
  "path_starts_with (target_path ''/w'' ''a/b.txt'') ''/w''"
proof (rule write_target_under_root)
  show "no_symlinks (one_dir_fs ''w'')" by (rule no_symlinks_one_dir)
  show "canonicalize (one_dir_fs ''w'') (workspace_root (local_workspace ''/w'')) = Some ''/w''"
    "is_absolute ''/w''" "ParentDir \<notin> set (components (target_path ''/w'' ''a/b.txt''))"
    "contains_write_target (one_dir_fs ''w'') (local_workspace ''/w'') ''a/b.txt''"
    by code_simp+
qed

text \<open>The path a list of components denotes when every directory on the way exists.\<close>

fun lexical_path :: "string list \<Rightarrow> Component list \<Rightarrow> string list" where
  "lexical_path acc [] = acc"
| "lexical_path acc (RootDir # cs) = lexical_path [] cs"
| "lexical_path acc (CurDir # cs) = lexical_path acc cs"
| "lexical_path acc (ParentDir # cs) = lexical_path (butlast acc) cs"
| "lexical_path acc (Normal w # cs) = lexical_path (acc @ [w]) cs"

text \<open>
  The scope check can be passed by a path that leaves the workspace. A missing
  directory followed by \<open>..\<close> components is cut off by the search for an existing ancestor,
  so \<open>/w/new/../../etc/passwd\<close> is accepted as a write target of the workspace \<open>/w\<close>, while
  the path it denotes once \<open>/w/new\<close> exists is \<open>/etc/passwd\<close>.
\<close>

theorem write_scope_escape:
  "contains_write_target (one_dir_fs ''w'') (local_workspace ''/w'') ''/w/new/../../etc/passwd''
   \<and> lexical_path [] (components ''/w/new/../../etc/passwd'') = [''etc'', ''passwd'']"
  by code_simp

text \<open>
  An extension package passes the activation check of its permissions exactly when it
  does not declare the network permission or the scope grants the network; the permission
  tokens parse back to the permissions they print.
\<close>

theorem extension_activation:
  "(permission_eval ps scope = Inr () \<longleftrightarrow> \<not> (Network \<in> set ps \<and> \<not> allow_network scope))
   \<and> (validate_permissions ps = Inr () \<longleftrightarrow> distinct ps)
   \<and> permission_from_str (permission_str p) = Inr p"
proof (intro conjI)
  show "permission_eval ps scope = Inr () \<longleftrightarrow> \<not> (Network \<in> set ps \<and> \<not> allow_network scope)"
  proof (induction ps)
    case (Cons p ps)
    then show ?case by (cases p) auto
  qed simp
  have "validate_permissions_from seen ps = Inr () \<longleftrightarrow> distinct ps \<and> set ps \<inter> seen = {}" for seen
    by (induction seen ps rule: validate_permissions_from.induct) auto
  then show "validate_permissions ps = Inr () \<longleftrightarrow> distinct ps"
    by (simp add: validate_permissions_def)
  show "permission_from_str (permission_str p) = Inr p"
    by (cases p) (simp_all add: permission_from_str_def)
qed

end
