(* ===== verification/Write_Sets.thy ===== *)
theory Write_Sets
  imports Policy "HOL-Library.AList" "HOL-Library.Multiset"
begin

text \<open>
  Declared write sets and writer leases, \<open>crates/impetus-core/src/declared_write_set.rs\<close>: the
  normal form of declared paths, the overlap test, and the table of active leases.

  The table is an association list with distinct keys; the order in which \<open>admit\<close> visits it is an
  argument, a function that permutes the list. It decides only which holder a conflict names.
\<close>

section \<open>Write sets\<close>

datatype WriteSetError =
    EmptyChildId
  | EmptyPath
  | PathEscape string
  | AbsolutePath string
  | Conflict string
  | Stale string u64 u64
  | UnknownChild string
  | AlreadyAdmitted string

record DeclaredWriteSet =
  ws_paths :: "string list"
  ws_globs :: "string list"

definition write_set_new :: DeclaredWriteSet where
  "write_set_new = \<lparr>ws_paths = [], ws_globs = []\<rparr>"

definition write_set_unknown :: DeclaredWriteSet where
  "write_set_unknown = \<lparr>ws_paths = [], ws_globs = []\<rparr>"

definition is_unknown :: "DeclaredWriteSet \<Rightarrow> bool" where
  "is_unknown ws \<longleftrightarrow> ws_paths ws = [] \<and> ws_globs ws = []"

text \<open>The loop of \<open>normalize_rel\<close>; \<open>parts\<close> is the stack of segments.\<close>

fun normalize_parts :: "string \<Rightarrow> string list \<Rightarrow> Component list \<Rightarrow> WriteSetError + string list" where
  "normalize_parts trimmed parts [] = Inr parts"
| "normalize_parts trimmed parts (CurDir # cs) = normalize_parts trimmed parts cs"
| "normalize_parts trimmed parts (Normal w # cs) = normalize_parts trimmed (parts @ [w]) cs"
| "normalize_parts trimmed parts (ParentDir # cs) =
     (if parts = [] then Inl (PathEscape trimmed) else normalize_parts trimmed (butlast parts) cs)"
| "normalize_parts trimmed parts (RootDir # cs) = Inl (AbsolutePath trimmed)"

definition normalize_rel :: "string \<Rightarrow> WriteSetError + string" where
  "normalize_rel raw =
     (let trimmed = trim raw in
      if trimmed = [] then Inl EmptyPath
      else if is_absolute trimmed then Inl (AbsolutePath trimmed)
      else rbind (normalize_parts trimmed [] (components trimmed)) (\<lambda>parts.
        if parts = [] then Inl EmptyPath else Inr (str_join [slash] parts)))"

definition add_path :: "string \<Rightarrow> DeclaredWriteSet \<Rightarrow> WriteSetError + DeclaredWriteSet" where
  "add_path path ws =
     rbind (normalize_rel path) (\<lambda>n.
       Inr (if n \<in> set (ws_paths ws) then ws else ws\<lparr>ws_paths := ws_paths ws @ [n]\<rparr>))"

definition add_glob :: "string \<Rightarrow> DeclaredWriteSet \<Rightarrow> WriteSetError + DeclaredWriteSet" where
  "add_glob glob ws =
     rbind (normalize_rel glob) (\<lambda>n.
       Inr (if n \<in> set (ws_globs ws) then ws else ws\<lparr>ws_globs := ws_globs ws @ [n]\<rparr>))"

fun add_paths :: "string list \<Rightarrow> DeclaredWriteSet \<Rightarrow> WriteSetError + DeclaredWriteSet" where
  "add_paths [] ws = Inr ws"
| "add_paths (p # ps) ws = rbind (add_path p ws) (add_paths ps)"

fun add_globs :: "string list \<Rightarrow> DeclaredWriteSet \<Rightarrow> WriteSetError + DeclaredWriteSet" where
  "add_globs [] ws = Inr ws"
| "add_globs (g # gs) ws = rbind (add_glob g ws) (add_globs gs)"

definition from_paths :: "string list \<Rightarrow> WriteSetError + DeclaredWriteSet" where
  "from_paths paths = add_paths paths write_set_new"

definition from_globs :: "string list \<Rightarrow> WriteSetError + DeclaredWriteSet" where
  "from_globs globs = add_globs globs write_set_new"

section \<open>Overlap\<close>

definition path_covers :: "string \<Rightarrow> string \<Rightarrow> bool" where
  "path_covers owner candidate \<longleftrightarrow>
     owner = candidate
     \<or> starts_with candidate owner \<and> length owner < length candidate \<and> candidate ! length owner = slash"

function match_glob :: "string list \<Rightarrow> string list \<Rightarrow> bool" where
  "match_glob [] [] = True"
| "match_glob [] (s # segs) = False"
| "match_glob (p # pat) segs =
     (if p = ''**''
      then pat = [] \<or> match_glob pat segs
           \<or> (case segs of [] \<Rightarrow> False | s # rest \<Rightarrow> match_glob (p # pat) rest)
      else case segs of
        [] \<Rightarrow> False
      | s # rest \<Rightarrow> (p = ''*'' \<or> p = s) \<and> match_glob pat rest)"
  by pat_completeness auto
termination
  by (relation "measure (\<lambda>(pat, segs). length pat + length segs)") auto

definition glob_matches :: "string \<Rightarrow> string \<Rightarrow> bool" where
  "glob_matches pattern path \<longleftrightarrow> match_glob (split_on slash pattern) (split_on slash path)"

definition globs_may_overlap :: "string \<Rightarrow> string \<Rightarrow> bool" where
  "globs_may_overlap a b \<longleftrightarrow>
     a = b \<or> glob_matches a b \<or> glob_matches b a
     \<or> path_covers (trim_end_matches ''/**'' a) (trim_end_matches ''/**'' b)
     \<or> path_covers (trim_end_matches ''/**'' b) (trim_end_matches ''/**'' a)"

definition covers :: "DeclaredWriteSet \<Rightarrow> string \<Rightarrow> bool" where
  "covers ws candidate \<longleftrightarrow>
     list_ex (\<lambda>p. path_covers p candidate \<or> path_covers candidate p) (ws_paths ws)
     \<or> list_ex (\<lambda>g. glob_matches g candidate) (ws_globs ws)"

definition overlaps :: "DeclaredWriteSet \<Rightarrow> DeclaredWriteSet \<Rightarrow> bool" where
  "overlaps ws other \<longleftrightarrow>
     is_unknown ws \<or> is_unknown other
     \<or> list_ex (covers other) (ws_paths ws)
     \<or> list_ex (covers ws) (ws_paths other)
     \<or> list_ex (\<lambda>ag. list_ex (globs_may_overlap ag) (ws_globs other)
                     \<or> list_ex (glob_matches ag) (ws_paths other)) (ws_globs ws)
     \<or> list_ex (\<lambda>bg. list_ex (glob_matches bg) (ws_paths ws)) (ws_globs other)"

section \<open>Leases\<close>

record WriterHandoffFence =
  writer_child_id :: string
  writer_generation :: u64
  writer_write_set :: DeclaredWriteSet

definition writer_fence_new ::
    "string \<Rightarrow> u64 \<Rightarrow> DeclaredWriteSet \<Rightarrow> WriteSetError + WriterHandoffFence" where
  "writer_fence_new child_id generation ws =
     (if trim child_id = [] then Inl EmptyChildId
      else Inr \<lparr>writer_child_id = child_id, writer_generation = generation, writer_write_set = ws\<rparr>)"

type_synonym WriterLeaseTable = "(string \<times> WriterHandoffFence) list"

type_synonym lease_order = "(string \<times> WriterHandoffFence) list \<Rightarrow> (string \<times> WriterHandoffFence) list"

definition lease_table_new :: WriterLeaseTable where
  "lease_table_new = []"

definition lease_admit ::
    "lease_order \<Rightarrow> WriterHandoffFence \<Rightarrow> WriterLeaseTable \<Rightarrow> (WriteSetError + unit) \<times> WriterLeaseTable" where
  "lease_admit order fence active =
     (let child = writer_child_id fence;
          conflicts = (\<lambda>(i, peer). overlaps (writer_write_set fence) (writer_write_set peer)) in
      if trim child = [] then (Inl EmptyChildId, active)
      else case map_of active child of
        Some existing \<Rightarrow>
          if writer_generation fence < writer_generation existing
          then (Inl (Stale child (writer_generation fence) (writer_generation existing)), active)
          else if writer_generation fence = writer_generation existing
          then (Inl (WriteSetError.AlreadyAdmitted child), active)
          else (case List.find (\<lambda>e. fst e \<noteq> child \<and> conflicts e) (order active) of
            Some (i, _) \<Rightarrow> (Inl (Conflict i), active)
          | None \<Rightarrow> (Inr (), AList.update child fence active))
      | None \<Rightarrow>
          (case List.find conflicts (order active) of
             Some (i, _) \<Rightarrow> (Inl (Conflict i), active)
           | None \<Rightarrow> (Inr (), AList.update child fence active)))"

definition assert_live :: "WriterLeaseTable \<Rightarrow> string \<Rightarrow> u64 \<Rightarrow> WriteSetError + unit" where
  "assert_live active child generation =
     (case map_of active child of
        None \<Rightarrow> Inl (UnknownChild child)
      | Some live \<Rightarrow>
          if generation \<noteq> writer_generation live
          then Inl (Stale child generation (writer_generation live)) else Inr ())"

definition lease_bump ::
    "string \<Rightarrow> WriterLeaseTable \<Rightarrow> (WriteSetError + WriterHandoffFence) \<times> WriterLeaseTable" where
  "lease_bump child active =
     (case map_of active child of
        None \<Rightarrow> (Inl (UnknownChild child), active)
      | Some entry \<Rightarrow>
          (let entry' = entry\<lparr>writer_generation := saturating_add (writer_generation entry) 1\<rparr>
           in (Inr entry', AList.update child entry' active)))"

definition lease_release ::
    "string \<Rightarrow> WriterLeaseTable \<Rightarrow> (WriteSetError + WriterHandoffFence) \<times> WriterLeaseTable" where
  "lease_release child active =
     (case map_of active child of
        None \<Rightarrow> (Inl (UnknownChild child), active)
      | Some fence \<Rightarrow> (Inr fence, AList.delete child active))"

section \<open>Role roots\<close>

definition relativize_under_cwd :: "file_system \<Rightarrow> string \<Rightarrow> string \<Rightarrow> WriteSetError + string" where
  "relativize_under_cwd fs cwd dir =
     (if \<not> is_absolute dir then normalize_rel dir
      else let cwd_canon = unwrap_or (canonicalize fs cwd) cwd;
               dir_canon = unwrap_or (canonicalize fs dir) dir in
           if \<not> path_starts_with dir_canon cwd_canon then Inl (PathEscape dir)
           else normalize_rel (str_join [slash]
                  (map (\<lambda>c. case c of Normal w \<Rightarrow> w | ParentDir \<Rightarrow> ''..'' | CurDir \<Rightarrow> ''.'' | RootDir \<Rightarrow> [])
                     (drop (length (components cwd_canon)) (components dir_canon)))))"

fun roots_loop :: "file_system \<Rightarrow> string \<Rightarrow> string list \<Rightarrow> DeclaredWriteSet \<Rightarrow> WriteSetError + DeclaredWriteSet" where
  "roots_loop fs cwd [] ws = Inr ws"
| "roots_loop fs cwd (d # ds) ws =
     rbind (relativize_under_cwd fs cwd d) (\<lambda>rel. rbind (add_path rel ws) (roots_loop fs cwd ds))"

definition write_set_from_roots :: "file_system \<Rightarrow> string \<Rightarrow> string list \<Rightarrow> WriteSetError + DeclaredWriteSet" where
  "write_set_from_roots fs cwd write_roots =
     (if write_roots = [] then Inr write_set_unknown else roots_loop fs cwd write_roots write_set_new)"

definition explore_readonly_write_set :: "string \<Rightarrow> WriteSetError + DeclaredWriteSet" where
  "explore_readonly_write_set child =
     (let i = trim child in
      if i = [] then Inl EmptyChildId else from_paths [''.impetus/explore-lease/'' @ i])"

section \<open>Facts about overlap\<close>

lemma path_covers_iff: "path_covers p x \<longleftrightarrow> x = p \<or> (\<exists>r. x = p @ slash # r)"
proof
  assume "path_covers p x"
  then show "x = p \<or> (\<exists>r. x = p @ slash # r)"
    by (auto simp: path_covers_def starts_with_def prefix_def nth_append)
      (metis list.exhaust length_greater_0_conv nth_Cons_0)
next
  assume "x = p \<or> (\<exists>r. x = p @ slash # r)"
  then show "path_covers p x" by (auto simp: path_covers_def starts_with_def)
qed

lemma path_covers_common:
  assumes "path_covers p x" "path_covers q x"
  shows "path_covers p q \<or> path_covers q p"
  using assms unfolding path_covers_iff by (auto simp: append_eq_append_conv2 Cons_eq_append_conv append_eq_Cons_conv)

lemma overlaps_sym: "overlaps a b \<longleftrightarrow> overlaps b a"
  by (auto simp: overlaps_def globs_may_overlap_def list_ex_iff)

definition path_only :: "DeclaredWriteSet \<Rightarrow> bool" where
  "path_only ws \<longleftrightarrow> ws_globs ws = []"

text \<open>The paths a write set declares: under one of its paths, or matching one of its globs.\<close>

definition declares :: "DeclaredWriteSet \<Rightarrow> string \<Rightarrow> bool" where
  "declares ws x \<longleftrightarrow> list_ex (\<lambda>p. path_covers p x) (ws_paths ws) \<or> list_ex (\<lambda>g. glob_matches g x) (ws_globs ws)"

lemma overlaps_paths:
  assumes "path_only a" "path_only b" "declares a x" "declares b x"
  shows "overlaps a b"
  using assms path_covers_common
  by (fastforce simp: overlaps_def covers_def declares_def path_only_def list_ex_iff)

section \<open>The table of leases\<close>

definition lease_inv :: "WriterLeaseTable \<Rightarrow> bool" where
  "lease_inv active \<longleftrightarrow>
     distinct (map fst active)
     \<and> (\<forall>c f. map_of active c = Some f \<longrightarrow> writer_child_id f = c)
     \<and> (\<forall>c c' f f'. map_of active c = Some f \<longrightarrow> map_of active c' = Some f' \<longrightarrow> c \<noteq> c' \<longrightarrow>
          \<not> overlaps (writer_write_set f) (writer_write_set f'))"

definition permutes_leases :: "lease_order \<Rightarrow> bool" where
  "permutes_leases order \<longleftrightarrow> (\<forall>xs. mset (order xs) = mset xs)"

lemma permutes_leases_set: "permutes_leases order \<Longrightarrow> set (order xs) = set xs"
  by (metis permutes_leases_def set_mset_mset)

lemma lease_admit_Inr:
  assumes "permutes_leases order" "lease_admit order fence active = (Inr u, active')"
  shows "active' = AList.update (writer_child_id fence) fence active"
    and "\<And>c f. map_of active c = Some f \<Longrightarrow> c \<noteq> writer_child_id fence \<Longrightarrow>
      \<not> overlaps (writer_write_set fence) (writer_write_set f)"
proof -
  show "active' = AList.update (writer_child_id fence) fence active"
    using assms(2) by (auto simp: lease_admit_def Let_def split: if_splits option.splits)
  fix c f
  assume f: "map_of active c = Some f" "c \<noteq> writer_child_id fence"
  have "(c, f) \<in> set (order active)"
    using map_of_SomeD [OF f(1)] permutes_leases_set [OF assms(1)] by simp
  then show "\<not> overlaps (writer_write_set fence) (writer_write_set f)"
    using assms(2) f(2) by (auto simp: lease_admit_def Let_def find_None_iff split: if_splits option.splits)
qed

lemma lease_admit_Inl: "lease_admit order fence active = (Inl e, active') \<Longrightarrow> active' = active"
  by (auto simp: lease_admit_def Let_def split: if_splits option.splits)

lemma lease_admit_inv:
  assumes "lease_inv active" "permutes_leases order" "lease_admit order fence active = (r, active')"
  shows "lease_inv active'"
proof (cases r)
  case (Inl e)
  then show ?thesis using assms lease_admit_Inl by blast
next
  case (Inr u)
  note facts = lease_admit_Inr [OF assms(2) assms(3) [unfolded Inr]]
  have m: "map_of active' = (map_of active)(writer_child_id fence \<mapsto> fence)"
    by (simp add: facts(1) update_conv')
  show ?thesis
    unfolding lease_inv_def m
  proof (intro conjI allI impI)
    show "distinct (map fst active')" using assms(1) by (simp add: facts(1) lease_inv_def distinct_update)
  qed (use assms(1) facts(2) overlaps_sym in \<open>auto simp: lease_inv_def split: if_splits\<close>)
qed

lemma lease_bump_inv:
  assumes "lease_inv active" "lease_bump child active = (r, active')"
  shows "lease_inv active'"
proof (cases "map_of active child")
  case None
  then show ?thesis using assms by (simp add: lease_bump_def)
next
  case (Some f)
  let ?f = "f\<lparr>writer_generation := saturating_add (writer_generation f) 1\<rparr>"
  have a: "active' = AList.update child ?f active" using assms(2) Some by (simp add: lease_bump_def Let_def)
  have m: "map_of active' = (map_of active)(child \<mapsto> ?f)" by (simp add: a update_conv')
  show ?thesis
    unfolding lease_inv_def m
  proof (intro conjI allI impI)
    show "distinct (map fst active')" using assms(1) by (simp add: a lease_inv_def distinct_update)
  qed (use assms(1) Some in \<open>auto simp: lease_inv_def split: if_splits\<close>)
qed

lemma lease_release_inv:
  assumes "lease_inv active" "lease_release child active = (r, active')"
  shows "lease_inv active'"
proof (cases "map_of active child")
  case None
  then show ?thesis using assms by (simp add: lease_release_def)
next
  case (Some f)
  have a: "active' = AList.delete child active" using assms(2) Some by (simp add: lease_release_def)
  have m: "map_of active' = (map_of active)(child := None)" by (simp add: a delete_conv')
  show ?thesis
    unfolding lease_inv_def m
  proof (intro conjI allI impI)
    show "distinct (map fst active')" using assms(1) by (simp add: a lease_inv_def distinct_delete)
  qed (use assms(1) in \<open>auto simp: lease_inv_def split: if_splits\<close>)
qed

inductive lease_step :: "WriterLeaseTable \<Rightarrow> WriterLeaseTable \<Rightarrow> bool" where
  ls_admit: "lease_step active active'" if "lease_admit order fence active = (r, active')" "permutes_leases order"
| ls_bump: "lease_step active active'" if "lease_bump child active = (r, active')"
| ls_release: "lease_step active active'" if "lease_release child active = (r, active')"

inductive lease_run :: "WriterLeaseTable \<Rightarrow> WriterLeaseTable \<Rightarrow> bool" where
  lr_refl: "lease_run active active"
| lr_step: "lease_run active active''" if "lease_run active active'" "lease_step active' active''"

lemma lease_run_inv: "lease_run active active' \<Longrightarrow> lease_inv active \<Longrightarrow> lease_inv active'"
proof (induction rule: lease_run.induct)
  case (lr_step active active' active'')
  from lr_step.hyps(2) lr_step.IH [OF lr_step.prems] show ?case
    by (cases rule: lease_step.cases) (auto intro: lease_admit_inv lease_bump_inv lease_release_inv)
qed simp

section \<open>Properties\<close>

text \<open>
  C15. Two children that hold leases at the same time never declare a common path, when they declare
  paths: in every table that admissions, bumps and releases reach, in whatever order the hash map is
  visited, no path lies under a declared path of both.
\<close>

theorem leases_disjoint_on_paths:
  assumes "lease_run lease_table_new active"
    and "map_of active c = Some f" "map_of active c' = Some f'" "c \<noteq> c'"
    and "path_only (writer_write_set f)" "path_only (writer_write_set f')"
  shows "\<not> (declares (writer_write_set f) x \<and> declares (writer_write_set f') x)"
proof -
  have "lease_inv active"
    using lease_run_inv [OF assms(1)] by (simp add: lease_inv_def lease_table_new_def)
  then have "\<not> overlaps (writer_write_set f) (writer_write_set f')"
    using assms(2-4) by (auto simp: lease_inv_def)
  then show ?thesis using overlaps_paths [OF assms(5,6)] by blast
qed

text \<open>
  The overlap test misses overlaps of globs: a writer of \<open>src/*/a\<close> and a writer of \<open>src/b/*\<close> are
  both admitted, and both declare \<open>src/b/a\<close>. So are a writer of the directory \<open>src\<close> and a writer of
  the glob \<open>src/*\<close>, which both declare \<open>src/b\<close>.
\<close>

theorem glob_overlap_missed:
  "\<exists>f g active d h active'.
     lease_run lease_table_new active \<and> map_of active ''c1'' = Some f \<and> map_of active ''c2'' = Some g
     \<and> from_globs [''src/*/a''] = Inr (writer_write_set f) \<and> from_globs [''src/b/*''] = Inr (writer_write_set g)
     \<and> declares (writer_write_set f) ''src/b/a'' \<and> declares (writer_write_set g) ''src/b/a''
     \<and> lease_run lease_table_new active' \<and> map_of active' ''c1'' = Some d \<and> map_of active' ''c2'' = Some h
     \<and> from_paths [''src''] = Inr (writer_write_set d) \<and> from_globs [''src/*''] = Inr (writer_write_set h)
     \<and> declares (writer_write_set d) ''src/b'' \<and> declares (writer_write_set h) ''src/b''"
proof -
  have two: "lease_run lease_table_new [(''c1'', f), (''c2'', g)]"
    if "writer_child_id f = ''c1''" "writer_child_id g = ''c2''"
      "\<not> overlaps (writer_write_set g) (writer_write_set f)" for f g
  proof -
    have id: "permutes_leases id" by (simp add: permutes_leases_def)
    have t: "trim ''c1'' \<noteq> []" "trim ''c2'' \<noteq> []" by code_simp+
    have "lease_admit id f lease_table_new = (Inr (), [(''c1'', f)])"
      "lease_admit id g [(''c1'', f)] = (Inr (), [(''c1'', f), (''c2'', g)])"
      using that t by (simp_all add: lease_admit_def lease_table_new_def)
    then show ?thesis using id by (blast intro: lease_run.intros lease_step.ls_admit)
  qed
  let ?w = "\<lambda>c ps gs. \<lparr>writer_child_id = c, writer_generation = 1,
    writer_write_set = \<lparr>ws_paths = ps, ws_globs = gs\<rparr>\<rparr>"
  have o1: "\<not> overlaps \<lparr>ws_paths = [], ws_globs = [''src/b/*'']\<rparr> \<lparr>ws_paths = [], ws_globs = [''src/*/a'']\<rparr>"
    by code_simp
  have o2: "\<not> overlaps \<lparr>ws_paths = [], ws_globs = [''src/*'']\<rparr> \<lparr>ws_paths = [''src''], ws_globs = []\<rparr>"
    by code_simp
  have d: "declares \<lparr>ws_paths = [], ws_globs = [''src/*/a'']\<rparr> ''src/b/a''"
    "declares \<lparr>ws_paths = [], ws_globs = [''src/b/*'']\<rparr> ''src/b/a''"
    "declares \<lparr>ws_paths = [''src''], ws_globs = []\<rparr> ''src/b''"
    "declares \<lparr>ws_paths = [], ws_globs = [''src/*'']\<rparr> ''src/b''"
    by code_simp+
  have n: "from_globs [''src/*/a''] = Inr \<lparr>ws_paths = [], ws_globs = [''src/*/a'']\<rparr>"
    "from_globs [''src/b/*''] = Inr \<lparr>ws_paths = [], ws_globs = [''src/b/*'']\<rparr>"
    "from_paths [''src''] = Inr \<lparr>ws_paths = [''src''], ws_globs = []\<rparr>"
    "from_globs [''src/*''] = Inr \<lparr>ws_paths = [], ws_globs = [''src/*'']\<rparr>"
    by code_simp+
  show ?thesis
    using two [of "?w ''c1'' [] [''src/*/a'']" "?w ''c2'' [] [''src/b/*'']"]
      two [of "?w ''c1'' [''src''] []" "?w ''c2'' [] [''src/*'']"] o1 o2 d n
    by (intro exI [of _ "?w ''c1'' [] [''src/*/a'']"] exI [of _ "?w ''c2'' [] [''src/b/*'']"]
        exI [of _ "[(''c1'', ?w ''c1'' [] [''src/*/a'']), (''c2'', ?w ''c2'' [] [''src/b/*''])]"]
        exI [of _ "?w ''c1'' [''src''] []"] exI [of _ "?w ''c2'' [] [''src/*'']"]
        exI [of _ "[(''c1'', ?w ''c1'' [''src''] []), (''c2'', ?w ''c2'' [] [''src/*''])]"]) simp
qed

text \<open>Two writers of disjoint directories, for the witness.\<close>

definition demo_writer :: "string \<Rightarrow> string \<Rightarrow> WriterHandoffFence" where
  "demo_writer c d = \<lparr>writer_child_id = c, writer_generation = 1,
     writer_write_set = \<lparr>ws_paths = [d], ws_globs = []\<rparr>\<rparr>"

theorem leases_disjoint_on_paths_witness:
  "\<exists>active. lease_run lease_table_new active
     \<and> map_of active ''a'' = Some (demo_writer ''a'' ''src'') \<and> map_of active ''b'' = Some (demo_writer ''b'' ''srcs'')
     \<and> \<not> (declares (writer_write_set (demo_writer ''a'' ''src'')) ''srcs/x''
          \<and> declares (writer_write_set (demo_writer ''b'' ''srcs'')) ''srcs/x'')"
proof -
  let ?a = "demo_writer ''a'' ''src''" and ?b = "demo_writer ''b'' ''srcs''"
  have id: "permutes_leases id" by (simp add: permutes_leases_def)
  have t: "trim ''a'' \<noteq> []" "trim ''b'' \<noteq> []" by code_simp+
  have "\<not> overlaps (writer_write_set ?b) (writer_write_set ?a)" by code_simp
  then have "lease_admit id ?a lease_table_new = (Inr (), [(''a'', ?a)])"
    "lease_admit id ?b [(''a'', ?a)] = (Inr (), [(''a'', ?a), (''b'', ?b)])"
    using t by (simp_all add: lease_admit_def lease_table_new_def demo_writer_def Let_def)
  then have run: "lease_run lease_table_new [(''a'', ?a), (''b'', ?b)]"
    using id by (blast intro: lease_run.intros lease_step.ls_admit)
  have "\<not> (declares (writer_write_set ?a) ''srcs/x'' \<and> declares (writer_write_set ?b) ''srcs/x'')"
    using leases_disjoint_on_paths [OF run, of "''a''" ?a "''b''" ?b "''srcs/x''"]
    by (simp add: demo_writer_def path_only_def)
  then show ?thesis using run by (intro exI [of _ "[(''a'', ?a), (''b'', ?b)]"]) simp
qed

end
