(* ===== verification/Agent_Scheduler.thy ===== *)
theory Agent_Scheduler
  imports Write_Sets
begin

text \<open>
  The bookkeeping around child agents: roles and metadata
  (\<open>crates/impetus-core/src/subagent_metadata.rs\<close>), the in-memory scheduler
  (\<open>agent_scheduler.rs\<close>) with admission under a writer lease, and the global and per-parent
  concurrency caps (\<open>child_concurrency.rs\<close>).

  The \<open>HashMap\<close>s are maps or association lists with distinct keys, the \<open>HashSet\<close> of active runs is
  a list without duplicates; nothing here depends on their order. A \<open>usize\<close> is a natural number.
\<close>

section \<open>Roles and metadata\<close>

datatype SubagentRole = Explore | Research | Build | Review

datatype SubagentCapabilityIntent =
    ReadOnly | ReadPlusApprovedWeb | IsolatedWorktreeWrites | ReadOnlyDiffAndTests

fun role_str :: "SubagentRole \<Rightarrow> string" where
  "role_str Explore = ''Explore''"
| "role_str Research = ''Research''"
| "role_str Build = ''Build''"
| "role_str Review = ''Review''"

definition parse_label :: "string \<Rightarrow> SubagentRole option" where
  "parse_label label =
     (if label = ''Explore'' then Some Explore
      else if label = ''Research'' then Some Research
      else if label = ''Build'' then Some Build
      else if label = ''Review'' then Some Review
      else None)"

fun capability_intent :: "SubagentRole \<Rightarrow> SubagentCapabilityIntent" where
  "capability_intent Explore = SubagentCapabilityIntent.ReadOnly"
| "capability_intent Research = ReadPlusApprovedWeb"
| "capability_intent Build = IsolatedWorktreeWrites"
| "capability_intent Review = ReadOnlyDiffAndTests"

definition may_claim_write_roots :: "SubagentRole \<Rightarrow> bool" where
  "may_claim_write_roots role \<longleftrightarrow> role \<notin> {Explore, Review}"

definition requires_worktree :: "SubagentRole \<Rightarrow> bool" where
  "requires_worktree role \<longleftrightarrow> role = Build"

record ChildRunMetadata =
  meta_parent_id :: string
  meta_cwd :: string
  meta_worktree :: "string option"
  meta_allowed_tools :: "string list"
  meta_write_roots :: "string list"
  meta_max_tokens :: u64
  meta_max_time :: u64
  meta_max_depth :: u32
  meta_role :: SubagentRole

datatype ChildRunMetadataError =
    EmptyParentId
  | NonPositiveMaxTokens
  | NonPositiveMaxTime
  | NonPositiveMaxDepth
  | BuildMissingWorktree
  | WriteRootsNotAllowed SubagentRole

definition metadata_validate :: "ChildRunMetadata \<Rightarrow> ChildRunMetadataError + unit" where
  "metadata_validate md =
     (if trim (meta_parent_id md) = [] then Inl ChildRunMetadataError.EmptyParentId
      else if meta_max_tokens md = 0 then Inl NonPositiveMaxTokens
      else if meta_max_time md = 0 then Inl NonPositiveMaxTime
      else if meta_max_depth md = 0 then Inl NonPositiveMaxDepth
      else if requires_worktree (meta_role md)
              \<and> unwrap_or (map_option (\<lambda>i. trim i = []) (meta_worktree md)) True
      then Inl BuildMissingWorktree
      else if \<not> may_claim_write_roots (meta_role md) \<and> meta_write_roots md \<noteq> []
      then Inl (WriteRootsNotAllowed (meta_role md))
      else Inr ())"

definition try_validated :: "ChildRunMetadata \<Rightarrow> ChildRunMetadataError + ChildRunMetadata" where
  "try_validated md = rbind (metadata_validate md) (\<lambda>_. Inr md)"

section \<open>The scheduler\<close>

record RoleScheduleTask =
  task_workflow_id :: string
  task_step_id :: string
  task_role :: "SubagentRole option"

record ScheduleAdmission =
  admission_schedule_id :: string
  admission_result_slot :: string

datatype ScheduleStatus = Admitted | Completed | Cancelled

record ScheduleRecord =
  schedule_task :: RoleScheduleTask
  schedule_schedule_id :: string
  schedule_result_slot :: string
  schedule_status :: ScheduleStatus
  schedule_result :: "string option"

datatype AgentSchedulerError =
    Rejected string
  | UnknownSchedule string
  | NotAdmitted string ScheduleStatus
  | UnknownRole string
  | WriteLease WriteSetError

record InMemoryAgentScheduler =
  sched_next_seq :: u64
  sched_admit :: bool
  sched_records :: "(string \<times> ScheduleRecord) list"

definition scheduler_new :: InMemoryAgentScheduler where
  "scheduler_new = \<lparr>sched_next_seq = 0, sched_admit = True, sched_records = []\<rparr>"

definition set_admit :: "bool \<Rightarrow> InMemoryAgentScheduler \<Rightarrow> InMemoryAgentScheduler" where
  "set_admit admit sch = sch\<lparr>sched_admit := admit\<rparr>"

definition sched_active_count :: "InMemoryAgentScheduler \<Rightarrow> nat" where
  "sched_active_count sch =
     length (filter (\<lambda>(_, r). schedule_status r = Admitted) (sched_records sch))"

definition sched_record :: "InMemoryAgentScheduler \<Rightarrow> string \<Rightarrow> ScheduleRecord option" where
  "sched_record sch i = map_of (sched_records sch) i"

definition schedule ::
    "RoleScheduleTask \<Rightarrow> InMemoryAgentScheduler
     \<Rightarrow> (AgentSchedulerError + ScheduleAdmission) \<times> InMemoryAgentScheduler" where
  "schedule task sch =
     (if \<not> sched_admit sch then (Inl (AgentSchedulerError.Rejected (task_step_id task)), sch)
      else let seq1 = saturating_add (sched_next_seq sch) 1;
               schedule_id = ''sched-'' @ pad_zero 4 (nat_to_string (unat seq1));
               result_slot = ''slot-'' @ task_workflow_id task @ ''-'' @ task_step_id task
           in (Inr \<lparr>admission_schedule_id = schedule_id, admission_result_slot = result_slot\<rparr>,
               sch\<lparr>sched_next_seq := seq1,
                   sched_records := AList.update schedule_id
                     \<lparr>schedule_task = task, schedule_schedule_id = schedule_id,
                      schedule_result_slot = result_slot, schedule_status = Admitted,
                      schedule_result = None\<rparr> (sched_records sch)\<rparr>))"

definition schedule_with_write_lease ::
    "RoleScheduleTask \<Rightarrow> lease_order \<Rightarrow> WriterHandoffFence \<Rightarrow> InMemoryAgentScheduler \<times> WriterLeaseTable
     \<Rightarrow> (AgentSchedulerError + ScheduleAdmission) \<times> InMemoryAgentScheduler \<times> WriterLeaseTable" where
  "schedule_with_write_lease task order fence c =
     (case c of (sch, leases) \<Rightarrow>
        (case lease_admit order fence leases of
           (Inl e, leases') \<Rightarrow> (Inl (WriteLease e), sch, leases')
         | (Inr _, leases') \<Rightarrow>
             (case schedule task sch of
                (Inr admission, sch') \<Rightarrow> (Inr admission, sch', leases')
              | (Inl err, sch') \<Rightarrow>
                  (Inl err, sch', snd (lease_release (writer_child_id fence) leases')))))"

definition schedule_complete ::
    "string \<Rightarrow> string \<Rightarrow> InMemoryAgentScheduler \<Rightarrow> (AgentSchedulerError + unit) \<times> InMemoryAgentScheduler" where
  "schedule_complete i result sch =
     (case map_of (sched_records sch) i of
        None \<Rightarrow> (Inl (UnknownSchedule i), sch)
      | Some r \<Rightarrow>
          if schedule_status r \<noteq> Admitted then (Inl (NotAdmitted i (schedule_status r)), sch)
          else (Inr (), sch\<lparr>sched_records := AList.update i
                  (r\<lparr>schedule_status := ScheduleStatus.Completed, schedule_result := Some result\<rparr>)
                  (sched_records sch)\<rparr>))"

definition schedule_cancel ::
    "string \<Rightarrow> InMemoryAgentScheduler \<Rightarrow> (AgentSchedulerError + unit) \<times> InMemoryAgentScheduler" where
  "schedule_cancel i sch =
     (case map_of (sched_records sch) i of
        None \<Rightarrow> (Inl (UnknownSchedule i), sch)
      | Some r \<Rightarrow>
          if schedule_status r \<noteq> Admitted then (Inl (NotAdmitted i (schedule_status r)), sch)
          else (Inr (), sch\<lparr>sched_records := AList.update i
                  (r\<lparr>schedule_status := ScheduleStatus.Cancelled\<rparr>) (sched_records sch)\<rparr>))"

definition parse_step_role :: "string \<Rightarrow> AgentSchedulerError + SubagentRole" where
  "parse_step_role label = ok_or (parse_label label) (AgentSchedulerError.UnknownRole label)"

section \<open>Concurrency caps\<close>

definition DEFAULT_CHILD_CONCURRENCY_CAP :: nat where
  "DEFAULT_CHILD_CONCURRENCY_CAP = 4"

record ChildConcurrencyConfig =
  global_cap :: nat
  config_per_parent_cap :: "nat option"

definition concurrency_default :: ChildConcurrencyConfig where
  "concurrency_default = \<lparr>global_cap = DEFAULT_CHILD_CONCURRENCY_CAP, config_per_parent_cap = None\<rparr>"

datatype ChildConcurrencyError =
    ZeroCap
  | EmptyRunId
  | EmptyParentId
  | CapReached nat nat
  | ParentCapReached string nat nat
  | AlreadyAdmitted string
  | UnknownRun string

definition with_caps :: "nat \<Rightarrow> nat option \<Rightarrow> ChildConcurrencyError + ChildConcurrencyConfig" where
  "with_caps g p =
     (if g = 0 then Inl ZeroCap else if p = Some 0 then Inl ZeroCap
      else Inr \<lparr>global_cap = g, config_per_parent_cap = p\<rparr>)"

definition config_new :: "nat \<Rightarrow> ChildConcurrencyError + ChildConcurrencyConfig" where
  "config_new g = with_caps g None"

definition config_fair :: "nat \<Rightarrow> nat \<Rightarrow> ChildConcurrencyError + ChildConcurrencyConfig" where
  "config_fair g p = with_caps g (Some p)"

record ChildConcurrencyGate =
  gate_cap :: nat
  gate_per_parent_cap :: "nat option"
  gate_active :: "string list"
  gate_parent_of :: "string \<rightharpoonup> string"
  gate_active_by_parent :: "string \<rightharpoonup> nat"

definition gate_from_config :: "ChildConcurrencyConfig \<Rightarrow> ChildConcurrencyError + ChildConcurrencyGate" where
  "gate_from_config config =
     (if global_cap config = 0 \<or> config_per_parent_cap config = Some 0 then Inl ZeroCap
      else Inr \<lparr>gate_cap = global_cap config, gate_per_parent_cap = config_per_parent_cap config,
                gate_active = [], gate_parent_of = Map.empty, gate_active_by_parent = Map.empty\<rparr>)"

definition active_count_for_parent :: "ChildConcurrencyGate \<Rightarrow> string \<Rightarrow> nat" where
  "active_count_for_parent g parent = unwrap_or (gate_active_by_parent g parent) 0"

definition admit_for_parent ::
    "string \<Rightarrow> string option \<Rightarrow> ChildConcurrencyGate \<Rightarrow> (ChildConcurrencyError + unit) \<times> ChildConcurrencyGate" where
  "admit_for_parent run parent g =
     (if run = [] then (Inl EmptyRunId, g)
      else if run \<in> set (gate_active g) then (Inl (ChildConcurrencyError.AlreadyAdmitted run), g)
      else if gate_cap g \<le> length (gate_active g)
      then (Inl (CapReached (length (gate_active g)) (gate_cap g)), g)
      else if is_some_and parent (\<lambda>i. trim i = []) then (Inl ChildConcurrencyError.EmptyParentId, g)
      else let parent_key = map_option trim parent;
               refusal = (case (parent_key, gate_per_parent_cap g) of
                   (Some p, Some parent_cap) \<Rightarrow>
                     if parent_cap \<le> active_count_for_parent g p
                     then Some (ParentCapReached p (active_count_for_parent g p) parent_cap)
                     else None
                 | _ \<Rightarrow> None)
           in case refusal of
                Some e \<Rightarrow> (Inl e, g)
              | None \<Rightarrow>
                  (let g1 = (case parent_key of
                               None \<Rightarrow> g
                             | Some p \<Rightarrow>
                                 g\<lparr>gate_active_by_parent := (gate_active_by_parent g)
                                     (p \<mapsto> unwrap_or (gate_active_by_parent g p) 0 + 1),
                                   gate_parent_of := (gate_parent_of g)(run \<mapsto> p)\<rparr>)
                   in (Inr (), g1\<lparr>gate_active := gate_active g1 @ [run]\<rparr>)))"

definition gate_admit :: "string \<Rightarrow> ChildConcurrencyGate \<Rightarrow> (ChildConcurrencyError + unit) \<times> ChildConcurrencyGate" where
  "gate_admit run g = admit_for_parent run None g"

definition admit_child ::
    "string \<Rightarrow> string \<Rightarrow> ChildConcurrencyGate \<Rightarrow> (ChildConcurrencyError + unit) \<times> ChildConcurrencyGate" where
  "admit_child run parent g = admit_for_parent run (Some parent) g"

definition gate_release :: "string \<Rightarrow> ChildConcurrencyGate \<Rightarrow> (ChildConcurrencyError + unit) \<times> ChildConcurrencyGate" where
  "gate_release run g =
     (if run = [] then (Inl EmptyRunId, g)
      else if run \<notin> set (gate_active g) then (Inl (UnknownRun run), g)
      else let g1 = g\<lparr>gate_active := filter (\<lambda>r. r \<noteq> run) (gate_active g)\<rparr> in
           case gate_parent_of g run of
             None \<Rightarrow> (Inr (), g1)
           | Some p \<Rightarrow>
               (let g2 = g1\<lparr>gate_parent_of := (gate_parent_of g)(run := None)\<rparr> in
                case gate_active_by_parent g p of
                  None \<Rightarrow> (Inr (), g2)
                | Some n \<Rightarrow>
                    (Inr (), g2\<lparr>gate_active_by_parent := (gate_active_by_parent g)
                       (p := (if n - 1 = 0 then None else Some (n - 1)))\<rparr>)))"

definition gate_is_active :: "ChildConcurrencyGate \<Rightarrow> string \<Rightarrow> bool" where
  "gate_is_active g run \<longleftrightarrow> run \<in> set (gate_active g)"

section \<open>Roles\<close>

lemma parse_label_role_str [simp]: "parse_label (role_str r) = Some r"
  by (cases r) (simp_all add: parse_label_def)

lemma parse_label_Some_iff: "parse_label l = Some r \<longleftrightarrow> l = role_str r"
  by (cases r) (auto simp: parse_label_def)

lemma try_validated_iff:
  "try_validated md = Inr md' \<longleftrightarrow>
     md' = md \<and> trim (meta_parent_id md) \<noteq> [] \<and> 0 < meta_max_tokens md \<and> 0 < meta_max_time md
     \<and> 0 < meta_max_depth md
     \<and> (meta_role md = Build \<longrightarrow> (\<exists>w. meta_worktree md = Some w \<and> trim w \<noteq> []))
     \<and> (meta_write_roots md \<noteq> [] \<longrightarrow> meta_role md = Research \<or> meta_role md = Build)"
  by (cases "meta_role md"; cases "meta_worktree md")
     (auto simp: try_validated_def metadata_validate_def requires_worktree_def
       may_claim_write_roots_def word_gt_0)

section \<open>Schedule identifiers\<close>

definition decimal_value :: "string \<Rightarrow> nat" where
  "decimal_value s = foldl (\<lambda>a c. a * 10 + (of_char c - 48)) 0 s"

lemma decimal_value_nat_to_string [simp]: "decimal_value (nat_to_string n) = n"
proof (induction n rule: nat_to_string.induct)
  case (1 n)
  then show ?case
    by (subst nat_to_string.simps) (auto simp: decimal_value_def)
qed

lemma decimal_value_pad_zero [simp]: "decimal_value (pad_zero w s) = decimal_value s"
proof -
  have "foldl (\<lambda>a c. a * 10 + (of_char c - 48)) 0 (replicate k (CHR ''0'')) = (0 :: nat)" for k
    by (induction k) simp_all
  then show ?thesis by (simp add: decimal_value_def pad_zero_def)
qed

definition sched_id :: "nat \<Rightarrow> string" where
  "sched_id n = ''sched-'' @ pad_zero 4 (nat_to_string n)"

lemma sched_id_inj [simp]: "sched_id m = sched_id n \<longleftrightarrow> m = n"
proof
  assume "sched_id m = sched_id n"
  then have "decimal_value (pad_zero 4 (nat_to_string m)) = decimal_value (pad_zero 4 (nat_to_string n))"
    by (simp add: sched_id_def)
  then show "m = n" by simp
qed simp

section \<open>The life of a schedule\<close>

text \<open>
  The invariant: the identifiers handed out are exactly numbered up to the sequence counter, every
  record carries its own identifier, and a result is stored exactly in completed records.
\<close>

definition record_ok :: "nat \<Rightarrow> string \<Rightarrow> ScheduleRecord \<Rightarrow> bool" where
  "record_ok bound i r \<longleftrightarrow>
     (\<exists>n \<le> bound. i = sched_id n) \<and> schedule_schedule_id r = i
     \<and> (schedule_result r = None \<longleftrightarrow> schedule_status r \<noteq> ScheduleStatus.Completed)"

definition sched_inv :: "InMemoryAgentScheduler \<Rightarrow> bool" where
  "sched_inv sch \<longleftrightarrow>
     distinct (map fst (sched_records sch))
     \<and> (\<forall>i r. map_of (sched_records sch) i = Some r \<longrightarrow> record_ok (unat (sched_next_seq sch)) i r)"

inductive sched_run :: "InMemoryAgentScheduler \<Rightarrow> InMemoryAgentScheduler \<Rightarrow> bool" where
  sr_refl: "sched_run s s"
| sr_admit: "sched_run s t \<Longrightarrow> sched_run s (set_admit b t)"
| sr_schedule: "sched_run s t \<Longrightarrow> sched_run s (snd (schedule task t))"
| sr_complete: "sched_run s t \<Longrightarrow> sched_run s (snd (schedule_complete i result t))"
| sr_cancel: "sched_run s t \<Longrightarrow> sched_run s (snd (schedule_cancel i t))"

lemma sched_inv_new: "sched_inv scheduler_new"
  by (simp add: sched_inv_def scheduler_new_def)

lemma record_ok_mono: "record_ok m i r \<Longrightarrow> m \<le> n \<Longrightarrow> record_ok n i r"
  by (auto simp: record_ok_def)

lemma sched_inv_record:
  "sched_inv sch \<Longrightarrow> map_of (sched_records sch) i = Some r \<Longrightarrow> record_ok (unat (sched_next_seq sch)) i r"
  by (simp add: sched_inv_def)

lemma sched_inv_update:
  assumes inv: "sched_inv sch" and seq: "sched_next_seq sch \<le> sched_next_seq sch'"
    and recs: "sched_records sch' = AList.update i r (sched_records sch)"
    and r: "record_ok (unat (sched_next_seq sch')) i r"
  shows "sched_inv sch'"
proof -
  have "record_ok (unat (sched_next_seq sch')) j q" if "map_of (sched_records sch) j = Some q" for j q
    using sched_inv_record [OF inv that] seq by (auto simp: word_le_nat_alt intro: record_ok_mono)
  then show ?thesis
    using inv r by (simp add: sched_inv_def recs distinct_update update_conv')
qed

lemma sched_inv_set_admit: "sched_inv sch \<Longrightarrow> sched_inv (set_admit b sch)"
  by (simp add: sched_inv_def set_admit_def)

lemma schedule_eq:
  "schedule task sch =
     (if \<not> sched_admit sch then (Inl (AgentSchedulerError.Rejected (task_step_id task)), sch)
      else let i = sched_id (unat (saturating_add (sched_next_seq sch) 1));
               slot = ''slot-'' @ task_workflow_id task @ ''-'' @ task_step_id task
           in (Inr \<lparr>admission_schedule_id = i, admission_result_slot = slot\<rparr>,
               sch\<lparr>sched_next_seq := saturating_add (sched_next_seq sch) 1,
                   sched_records := AList.update i
                     \<lparr>schedule_task = task, schedule_schedule_id = i, schedule_result_slot = slot,
                      schedule_status = Admitted, schedule_result = None\<rparr> (sched_records sch)\<rparr>))"
  by (simp add: schedule_def sched_id_def Let_def)

lemma sched_inv_schedule: "sched_inv sch \<Longrightarrow> sched_inv (snd (schedule task sch))"
  by (auto simp: schedule_eq Let_def saturating_add_ge record_ok_def
      intro!: sched_inv_update [where sch = sch])

lemma sched_inv_complete: "sched_inv sch \<Longrightarrow> sched_inv (snd (schedule_complete i result sch))"
  by (auto simp: schedule_complete_def record_ok_def split: option.splits dest: sched_inv_record
      intro!: sched_inv_update [where sch = sch])

lemma sched_inv_cancel: "sched_inv sch \<Longrightarrow> sched_inv (snd (schedule_cancel i sch))"
  by (auto simp: schedule_cancel_def record_ok_def split: option.splits dest: sched_inv_record
      intro!: sched_inv_update [where sch = sch])

lemma sched_run_inv: "sched_run s t \<Longrightarrow> sched_inv s \<Longrightarrow> sched_inv t"
  by (induction rule: sched_run.induct)
     (auto intro: sched_inv_set_admit sched_inv_schedule sched_inv_complete sched_inv_cancel)

text \<open>As long as the counter has not saturated, a new schedule gets an identifier no record has.\<close>

lemma schedule_fresh:
  assumes inv: "sched_inv sch" and room: "unat (sched_next_seq sch) < 2 ^ 64 - 1"
    and ok: "schedule task sch = (Inr adm, sch')"
  shows "admission_schedule_id adm = sched_id (unat (sched_next_seq sch) + 1)
         \<and> sched_record sch (admission_schedule_id adm) = None
         \<and> sched_next_seq sch' = sched_next_seq sch + 1
         \<and> (\<forall>j. j \<noteq> admission_schedule_id adm \<longrightarrow> sched_record sch' j = sched_record sch j)"
proof -
  have "unat (saturating_add (sched_next_seq sch) 1) = unat (sched_next_seq sch) + 1"
    using room by (simp add: unat_saturating_add)
  moreover have "saturating_add (sched_next_seq sch) 1 = sched_next_seq sch + 1"
    using room by (simp add: saturating_add_def)
  moreover have "map_of (sched_records sch) (sched_id (unat (sched_next_seq sch) + 1)) = None"
  proof (cases "map_of (sched_records sch) (sched_id (unat (sched_next_seq sch) + 1))")
    case (Some r)
    then show ?thesis using sched_inv_record [OF inv Some] by (simp add: record_ok_def)
  qed
  ultimately show ?thesis
    using ok by (auto simp: schedule_eq Let_def sched_record_def
        update_conv' split: if_splits)
qed

lemma schedule_seq_mono: "sched_next_seq sch \<le> sched_next_seq (snd (schedule task sch))"
  by (simp add: schedule_eq Let_def saturating_add_ge)

lemma schedule_complete_kept:
  "sched_record (snd (schedule_complete i result sch)) j =
     (case sched_record sch j of
        Some r \<Rightarrow> Some (if j = i \<and> schedule_status r = Admitted
                       then r\<lparr>schedule_status := ScheduleStatus.Completed, schedule_result := Some result\<rparr>
                       else r)
      | None \<Rightarrow> None)"
  by (auto simp: schedule_complete_def sched_record_def update_conv' split: option.splits)

lemma schedule_cancel_kept:
  "sched_record (snd (schedule_cancel i sch)) j =
     (case sched_record sch j of
        Some r \<Rightarrow> Some (if j = i \<and> schedule_status r = Admitted
                       then r\<lparr>schedule_status := ScheduleStatus.Cancelled\<rparr> else r)
      | None \<Rightarrow> None)"
  by (auto simp: schedule_cancel_def sched_record_def update_conv' split: option.splits)

lemma seq_of_settling [simp]:
  "sched_next_seq (snd (schedule_complete i result sch)) = sched_next_seq sch"
  "sched_next_seq (snd (schedule_cancel i sch)) = sched_next_seq sch"
  "sched_next_seq (set_admit b sch) = sched_next_seq sch"
  by (auto simp: schedule_complete_def schedule_cancel_def set_admit_def split: option.splits)

lemma schedule_keeps:
  assumes "sched_inv sch" and "unat (sched_next_seq (snd (schedule task sch))) < 2 ^ 64 - 1"
    and "sched_record sch j = Some r"
  shows "sched_record (snd (schedule task sch)) j = Some r"
proof (cases "schedule task sch")
  case (Pair res sch')
  show ?thesis
  proof (cases res)
    case (Inl e)
    then show ?thesis using Pair assms(3) by (simp add: schedule_eq Let_def split: if_splits)
  next
    case (Inr adm)
    have "unat (sched_next_seq sch) < 2 ^ 64 - 1"
      using assms(2) schedule_seq_mono [of sch task] by (simp add: word_le_nat_alt)
    from schedule_fresh [OF assms(1) this, of task adm sch'] show ?thesis
      using Pair Inr assms(3) by (cases "j = admission_schedule_id adm") auto
  qed
qed

text \<open>
  Once a schedule is completed or cancelled, nothing the scheduler does changes its
  record again (as long as the 64-bit sequence counter has not saturated, after which identifiers
  repeat): its task, result slot and result are final. In any reachable scheduler a record has a
  result exactly when it is completed.
\<close>

theorem settled_schedule_final:
  assumes run0: "sched_run scheduler_new sch" and run: "sched_run sch sch'"
    and room: "unat (sched_next_seq sch') < 2 ^ 64 - 1"
    and rec: "sched_record sch i = Some r" and settled: "schedule_status r \<noteq> Admitted"
  shows "sched_record sch' i = Some r
         \<and> (schedule_result r \<noteq> None \<longleftrightarrow> schedule_status r = ScheduleStatus.Completed)"
proof
  have inv: "sched_inv sch" using run0 sched_inv_new by (rule sched_run_inv)
  show "sched_record sch' i = Some r"
    using run room rec inv
  proof (induction rule: sched_run.induct)
    case (sr_schedule s t task)
    have "unat (sched_next_seq t) < 2 ^ 64 - 1"
      using sr_schedule.prems(1) schedule_seq_mono [of t task] by (simp add: word_le_nat_alt)
    with sr_schedule show ?case
      by (intro schedule_keeps) (auto intro: sched_run_inv)
  next
    case (sr_admit s t b)
    then show ?case by (simp add: sched_record_def set_admit_def)
  qed (use settled in \<open>simp_all add: schedule_complete_kept schedule_cancel_kept\<close>)
  show "schedule_result r \<noteq> None \<longleftrightarrow> schedule_status r = ScheduleStatus.Completed"
    using sched_inv_record [OF inv] rec by (fastforce simp: sched_record_def record_ok_def)
qed

definition demo_task :: RoleScheduleTask where
  "demo_task = \<lparr>task_workflow_id = ''wf'', task_step_id = ''build'', task_role = Some Build\<rparr>"

definition demo_settled :: InMemoryAgentScheduler where
  "demo_settled = snd (schedule_complete ''sched-0001'' ''done'' (snd (schedule demo_task scheduler_new)))"

theorem settled_schedule_final_witness:
  "sched_record (snd (schedule_cancel ''sched-0001'' demo_settled)) ''sched-0001'' =
     Some \<lparr>schedule_task = demo_task, schedule_schedule_id = ''sched-0001'',
           schedule_result_slot = ''slot-wf-build'', schedule_status = ScheduleStatus.Completed,
           schedule_result = Some ''done''\<rparr>"
proof -
  let ?r = "\<lparr>schedule_task = demo_task, schedule_schedule_id = ''sched-0001'',
      schedule_result_slot = ''slot-wf-build'', schedule_status = ScheduleStatus.Completed,
      schedule_result = Some ''done''\<rparr>"
  have one: "pad_zero 4 (nat_to_string (Suc 0)) = ''0001''" by code_simp
  have rec: "sched_record demo_settled ''sched-0001'' = Some ?r"
    by (simp add: demo_settled_def scheduler_new_def schedule_def schedule_complete_def Let_def
        saturating_add_def one demo_task_def sched_record_def)
  have seq: "unat (sched_next_seq (snd (schedule_cancel ''sched-0001'' demo_settled))) < 2 ^ 64 - 1"
    by (simp add: demo_settled_def scheduler_new_def schedule_def Let_def saturating_add_def)
  show ?thesis
    using settled_schedule_final [OF _ _ seq rec]
    by (simp add: demo_settled_def sched_run.intros)
qed

section \<open>Concurrency caps\<close>

definition children_of :: "ChildConcurrencyGate \<Rightarrow> string \<Rightarrow> string list" where
  "children_of g p = filter (\<lambda>r. gate_parent_of g r = Some p) (gate_active g)"

definition gate_inv :: "ChildConcurrencyGate \<Rightarrow> bool" where
  "gate_inv g \<longleftrightarrow>
     distinct (gate_active g) \<and> [] \<notin> set (gate_active g) \<and> length (gate_active g) \<le> gate_cap g
     \<and> dom (gate_parent_of g) \<subseteq> set (gate_active g)
     \<and> (\<forall>p. active_count_for_parent g p = length (children_of g p))
     \<and> (\<forall>p. gate_active_by_parent g p \<noteq> Some 0)
     \<and> (\<forall>c p. gate_per_parent_cap g = Some c \<longrightarrow> length (children_of g p) \<le> c)"

inductive gate_run :: "ChildConcurrencyGate \<Rightarrow> ChildConcurrencyGate \<Rightarrow> bool" where
  gr_refl: "gate_run g g"
| gr_admit: "gate_run g h \<Longrightarrow> gate_run g (snd (admit_for_parent run parent h))"
| gr_release: "gate_run g h \<Longrightarrow> gate_run g (snd (gate_release run h))"

lemma gate_inv_from_config: "gate_from_config config = Inr g \<Longrightarrow> gate_inv g"
  by (auto simp: gate_from_config_def gate_inv_def active_count_for_parent_def children_of_def
      split: if_splits)

lemma admit_for_parent_caps [simp]:
  "gate_cap (snd (admit_for_parent run parent g)) = gate_cap g"
  "gate_per_parent_cap (snd (admit_for_parent run parent g)) = gate_per_parent_cap g"
  by (auto simp: admit_for_parent_def Let_def split: option.splits)

lemma gate_release_caps [simp]:
  "gate_cap (snd (gate_release run g)) = gate_cap g"
  "gate_per_parent_cap (snd (gate_release run g)) = gate_per_parent_cap g"
  by (auto simp: gate_release_def Let_def split: option.splits)

text \<open>What a successful admission does, in terms of the children of each parent.\<close>

lemma admit_for_parent_ok:
  assumes "gate_inv g" and "admit_for_parent run parent g = (Inr u, g')"
  shows "run \<noteq> [] \<and> run \<notin> set (gate_active g) \<and> length (gate_active g) < gate_cap g
         \<and> gate_active g' = gate_active g @ [run]
         \<and> gate_parent_of g' = (gate_parent_of g)(run := map_option trim parent)
         \<and> (\<forall>p. active_count_for_parent g' p =
                 active_count_for_parent g p + (if map_option trim parent = Some p then 1 else 0))
         \<and> (\<forall>p c. map_option trim parent = Some p \<longrightarrow> gate_per_parent_cap g = Some c \<longrightarrow>
                   active_count_for_parent g p < c)
         \<and> (\<forall>p. gate_active_by_parent g' p \<noteq> Some 0)"
proof -
  have "gate_parent_of g run = None" if "run \<notin> set (gate_active g)"
    using assms(1) that by (auto simp: gate_inv_def)
  then show ?thesis
    using assms
    by (auto simp: admit_for_parent_def Let_def active_count_for_parent_def gate_inv_def
        fun_upd_idem_iff split: if_splits option.splits)
qed

lemma gate_inv_admit:
  assumes "gate_inv g"
  shows "gate_inv (snd (admit_for_parent run parent g))"
proof (cases "admit_for_parent run parent g")
  case (Pair res g')
  show ?thesis
  proof (cases res)
    case (Inl e)
    then have "g' = g"
      using Pair by (auto simp: admit_for_parent_def Let_def split: if_splits option.splits)
    then show ?thesis using Pair assms by simp
  next
    case (Inr u)
    note ok = admit_for_parent_ok [OF assms Pair [unfolded Inr]]
    have caps: "gate_cap g' = gate_cap g" "gate_per_parent_cap g' = gate_per_parent_cap g"
      using admit_for_parent_caps [of run parent g] Pair by simp_all
    have children: "children_of g' p = children_of g p @ (if map_option trim parent = Some p then [run] else [])"
      for p
      using ok by (auto simp: children_of_def intro!: filter_cong)
    show ?thesis
      using assms ok caps children Pair by (auto simp: gate_inv_def less_eq_Suc_le)
  qed
qed

lemma gate_release_ok:
  assumes "gate_inv g" and "gate_release run g = (Inr u, g')"
  shows "run \<in> set (gate_active g) \<and> gate_active g' = filter (\<lambda>r. r \<noteq> run) (gate_active g)
         \<and> gate_parent_of g' = (gate_parent_of g)(run := None)
         \<and> (\<forall>p. active_count_for_parent g' p =
                 active_count_for_parent g p - (if gate_parent_of g run = Some p then 1 else 0))
         \<and> (\<forall>p. gate_active_by_parent g' p \<noteq> Some 0)"
proof -
  have "gate_active_by_parent g p \<noteq> Some 0" for p using assms(1) by (simp add: gate_inv_def)
  then show ?thesis
    using assms(2)
    by (auto simp: gate_release_def Let_def active_count_for_parent_def fun_upd_idem_iff
        split: if_splits option.splits)
qed

lemma length_filter_remove1_member:
  "distinct xs \<Longrightarrow> x \<in> set xs \<Longrightarrow> P x \<Longrightarrow>
   length (filter (\<lambda>y. y \<noteq> x \<and> P y) xs) = length (filter P xs) - 1"
proof (induction xs)
  case (Cons y ys)
  show ?case
  proof (cases "x = y")
    case True
    then have "filter (\<lambda>z. z \<noteq> x \<and> P z) ys = filter P ys"
      using Cons.prems by (intro filter_cong) auto
    then show ?thesis using True Cons.prems by simp
  next
    case False
    then have "length (filter P ys) \<noteq> 0" using Cons.prems by (auto simp: filter_empty_conv)
    then show ?thesis using False Cons by auto
  qed
qed simp

lemma gate_inv_release:
  assumes inv: "gate_inv g"
  shows "gate_inv (snd (gate_release run g))"
proof (cases "gate_release run g")
  case (Pair res g')
  show ?thesis
  proof (cases res)
    case (Inl e)
    then have "g' = g"
      using Pair by (auto simp: gate_release_def Let_def split: if_splits option.splits)
    then show ?thesis using Pair inv by simp
  next
    case (Inr u)
    note ok = gate_release_ok [OF inv Pair [unfolded Inr]]
    have caps: "gate_cap g' = gate_cap g" "gate_per_parent_cap g' = gate_per_parent_cap g"
      using gate_release_caps [of run g] Pair by simp_all
    have children: "children_of g' p = filter (\<lambda>r. r \<noteq> run \<and> gate_parent_of g r = Some p) (gate_active g)" for p
      using ok by (auto simp: children_of_def intro!: filter_cong)
    have count: "length (children_of g' p) =
        length (children_of g p) - (if gate_parent_of g run = Some p then 1 else 0)" for p
    proof (cases "gate_parent_of g run = Some p")
      case True
      then show ?thesis
        using ok inv children [of p] length_filter_remove1_member [of "gate_active g" run "\<lambda>r. gate_parent_of g r = Some p"]
        by (simp add: children_of_def gate_inv_def)
    next
      case False
      then have "children_of g' p = children_of g p"
        unfolding children by (auto simp: children_of_def intro!: filter_cong)
      then show ?thesis using False by simp
    qed
    have le: "length (filter (\<lambda>r. r \<noteq> run) (gate_active g)) \<le> gate_cap g"
      using inv by (auto simp: gate_inv_def intro: order_trans [OF length_filter_le])
    show ?thesis
      using inv ok caps count le Pair by (auto simp: gate_inv_def intro: diff_le_self [THEN order_trans])
  qed
qed

lemma gate_run_inv: "gate_run g h \<Longrightarrow> gate_inv g \<Longrightarrow> gate_inv h"
  by (induction rule: gate_run.induct) (auto intro: gate_inv_admit gate_inv_release)

lemma gate_run_caps:
  "gate_run g h \<Longrightarrow> gate_cap h = gate_cap g \<and> gate_per_parent_cap h = gate_per_parent_cap g"
  by (induction rule: gate_run.induct) simp_all

text \<open>
  C16. Whatever sequence of admissions and releases a concurrency gate goes through, the
  number of active child runs stays within the global cap, the number of runs of each parent stays
  within the per-parent cap, and the counter the gate keeps for a parent is exactly the number of
  its active runs. A further run of a parent is admitted exactly when its name is new and not
  empty, the parent's name is not blank and neither cap is reached.
\<close>

theorem concurrency_caps_respected:
  assumes init: "gate_from_config config = Inr g0" and run: "gate_run g0 g"
  shows "length (gate_active g) \<le> global_cap config
         \<and> (\<forall>p. active_count_for_parent g p = length (children_of g p))
         \<and> (\<forall>c p. config_per_parent_cap config = Some c \<longrightarrow> length (children_of g p) \<le> c)
         \<and> (is_ok (fst (admit_child child parent g)) \<longleftrightarrow>
              child \<noteq> [] \<and> child \<notin> set (gate_active g) \<and> trim parent \<noteq> []
              \<and> length (gate_active g) < global_cap config
              \<and> (\<forall>c. config_per_parent_cap config = Some c \<longrightarrow>
                     length (children_of g (trim parent)) < c))"
proof -
  have inv: "gate_inv g" using run gate_inv_from_config [OF init] by (rule gate_run_inv)
  have caps: "gate_cap g = global_cap config" "gate_per_parent_cap g = config_per_parent_cap config"
    using gate_run_caps [OF run] init by (auto simp: gate_from_config_def split: if_splits)
  have "is_ok (fst (admit_child child parent g)) \<longleftrightarrow>
      child \<noteq> [] \<and> child \<notin> set (gate_active g) \<and> trim parent \<noteq> []
      \<and> length (gate_active g) < gate_cap g
      \<and> (\<forall>c. gate_per_parent_cap g = Some c \<longrightarrow> active_count_for_parent g (trim parent) < c)"
    by (auto simp: admit_child_def admit_for_parent_def Let_def split: option.splits)
  then show ?thesis using inv by (simp add: gate_inv_def caps)
qed

definition demo_gate :: ChildConcurrencyGate where
  "demo_gate = \<lparr>gate_cap = 3, gate_per_parent_cap = Some 1, gate_active = [],
                gate_parent_of = Map.empty, gate_active_by_parent = Map.empty\<rparr>"

theorem concurrency_caps_respected_witness:
  "\<not> is_ok (fst (admit_child ''c2'' ''p1'' (snd (admit_child ''c1'' ''p1'' demo_gate))))
   \<and> is_ok (fst (admit_child ''c2'' ''p2'' (snd (admit_child ''c1'' ''p1'' demo_gate))))"
proof -
  let ?g = "snd (admit_child ''c1'' ''p1'' demo_gate)"
  have init: "gate_from_config \<lparr>global_cap = 3, config_per_parent_cap = Some 1\<rparr> = Inr demo_gate"
    by (simp add: gate_from_config_def demo_gate_def)
  have run: "gate_run demo_gate ?g" by (simp add: admit_child_def gate_run.intros)
  have trims: "trim ''p1'' = ''p1''" "trim ''p2'' = ''p2''" by code_simp+
  have g: "gate_active ?g = [''c1'']" "gate_parent_of ?g = [''c1'' \<mapsto> ''p1'']"
    by (simp_all add: admit_child_def admit_for_parent_def demo_gate_def trims Let_def
        active_count_for_parent_def)
  show ?thesis
    using concurrency_caps_respected [OF init run, of "''c2''" "''p1''"]
      concurrency_caps_respected [OF init run, of "''c2''" "''p2''"]
    by (simp add: g trims children_of_def)
qed

end
