(* ===== verification/Workflow_Recipe.thy ===== *)
theory Workflow_Recipe
  imports Agent_Scheduler
begin

text \<open>
  The data of the workflow engine (\<open>crates/impetus-core/src/workflow_engine.rs\<close>) and the
  validation of its recipes, with the topological sort that rejects dependency cycles. The state
  machine over a validated recipe is in \<open>Workflow_Engine\<close>.

  The first queue of the sort is built by iterating over a \<open>HashMap\<close>: its order is a parameter. The
  \<open>expect\<close>s and the unsigned subtraction of the loop, which panic, are the result \<open>None\<close>.
\<close>

section \<open>Recipes\<close>

record WorkflowStep =
  step_id :: string
  step_name :: string
  step_role_hint :: "string option"
  depends_on :: "string list"
  step_max_retries :: "u32 option"

record WorkflowRecipe =
  recipe_id :: string
  recipe_name :: string
  recipe_steps :: "WorkflowStep list"

record WorkflowBudget =
  wb_max_tokens :: "u64 option"
  wb_max_wall_ms :: "u64 option"
  wb_max_retries :: u32

datatype StepStatus = Pending | Running | Completed | Failed | Cancelled

record StepCheckpoint =
  cp_step_id :: string
  cp_status :: StepStatus
  cp_result :: "string option"
  cp_attempts :: u32
  cp_schedule_id :: "string option"
  cp_result_slot :: "string option"

datatype WorkflowStatus = Idle | Running | Completed | Cancelled | BudgetExhausted | Failed

datatype WorkflowError =
    AlreadyFinished WorkflowStatus
  | UnknownStep string
  | BlockedByDependency string "string list"
  | NotRunnable string StepStatus
  | BudgetExhausted string
  | RetriesExhausted string
  | Cancelled
  | InvalidRecipe string
  | SchedulerRejected string
  | UnknownRole string string
  | MissingSchedule string
  | Scheduler string

definition workflow_step :: "string \<Rightarrow> string \<Rightarrow> string option \<Rightarrow> string list \<Rightarrow> WorkflowStep" where
  "workflow_step i name role deps =
     \<lparr>step_id = i, step_name = name, step_role_hint = role, depends_on = deps,
      step_max_retries = None\<rparr>"

definition feature_skeleton_recipe :: WorkflowRecipe where
  "feature_skeleton_recipe =
     \<lparr>recipe_id = ''feature'', recipe_name = ''Feature'', recipe_steps =
        [workflow_step ''research'' ''Research'' (Some ''Research'') [],
         workflow_step ''plan'' ''Plan'' (Some ''Explore'') [''research''],
         workflow_step ''tests'' ''Tests'' (Some ''Build'') [''plan''],
         workflow_step ''implement'' ''Implement'' (Some ''Build'') [''tests''],
         workflow_step ''review'' ''Review'' (Some ''Review'') [''implement''],
         workflow_step ''approval'' ''Approval'' None [''review'']]\<rparr>"

definition bug_skeleton_recipe :: WorkflowRecipe where
  "bug_skeleton_recipe =
     \<lparr>recipe_id = ''bug'', recipe_name = ''Bug'', recipe_steps =
        [workflow_step ''reproduce'' ''Reproduce'' (Some ''Explore'') [],
         workflow_step ''failing_regression'' ''Failing regression'' (Some ''Build'') [''reproduce''],
         workflow_step ''fix'' ''Fix'' (Some ''Build'') [''failing_regression''],
         workflow_step ''review'' ''Review'' (Some ''Review'') [''fix'']]\<rparr>"

definition refactor_skeleton_recipe :: WorkflowRecipe where
  "refactor_skeleton_recipe =
     \<lparr>recipe_id = ''refactor'', recipe_name = ''Refactor'', recipe_steps =
        [workflow_step ''baseline_tests'' ''Baseline tests'' (Some ''Build'') [],
         workflow_step ''characterization'' ''Characterization if needed'' (Some ''Explore'')
           [''baseline_tests''],
         workflow_step ''refactor'' ''Refactor'' (Some ''Build'') [''characterization''],
         workflow_step ''validation'' ''Validation'' (Some ''Build'') [''refactor''],
         workflow_step ''review'' ''Review'' (Some ''Review'') [''validation'']]\<rparr>"

section \<open>Validation\<close>

type_synonym indegrees = "(string \<times> nat) list"
type_synonym id_order = "string list \<Rightarrow> string list"

definition raise_indegree :: "string \<Rightarrow> indegrees \<Rightarrow> indegrees option" where
  "raise_indegree i ind = map_option (\<lambda>d. AList.update i (d + 1) ind) (map_of ind i)"

text \<open>The nested loop that fills \<open>indegree\<close> and \<open>successors\<close>.\<close>

fun count_deps ::
    "string \<Rightarrow> string list \<Rightarrow> indegrees \<Rightarrow> (string \<Rightarrow> string list) \<Rightarrow> (indegrees \<times> (string \<Rightarrow> string list)) option" where
  "count_deps i [] ind succ = Some (ind, succ)"
| "count_deps i (dep # deps) ind succ =
     (case raise_indegree i ind of
        None \<Rightarrow> None
      | Some ind' \<Rightarrow> count_deps i deps ind' (succ(dep := succ dep @ [i])))"

fun count_edges ::
    "WorkflowStep list \<Rightarrow> indegrees \<Rightarrow> (string \<Rightarrow> string list) \<Rightarrow> (indegrees \<times> (string \<Rightarrow> string list)) option" where
  "count_edges [] ind succ = Some (ind, succ)"
| "count_edges (s # ss) ind succ =
     (case count_deps (step_id s) (depends_on s) ind succ of
        None \<Rightarrow> None
      | Some (ind', succ') \<Rightarrow> count_edges ss ind' succ')"

text \<open>The inner loop over the successors of a visited step; the queue is a stack, its top last.\<close>

fun relax :: "string list \<Rightarrow> indegrees \<Rightarrow> string list \<Rightarrow> (indegrees \<times> string list) option" where
  "relax [] ind queue = Some (ind, queue)"
| "relax (n # nexts) ind queue =
     (case map_of ind n of
        None \<Rightarrow> None
      | Some e \<Rightarrow>
          if e = 0 then None
          else relax nexts (AList.update n (e - 1) ind) (if e - 1 = 0 then queue @ [n] else queue))"

lemma sum_update_less:
  "map_of ind n = Some e \<Longrightarrow> e \<noteq> 0 \<Longrightarrow>
   Suc (sum_list (map snd (AList.update n (e - 1) ind))) = sum_list (map snd ind)"
  by (induction ind) auto

lemma relax_measure:
  "relax nexts ind queue = Some (ind', queue') \<Longrightarrow>
   sum_list (map snd ind') + length queue' \<le> sum_list (map snd ind) + length queue"
proof (induction nexts ind queue arbitrary: ind' queue' rule: relax.induct)
  case (2 n nexts ind queue)
  then obtain e where e: "map_of ind n = Some e" "e \<noteq> 0"
    by (auto split: option.splits if_splits)
  with 2 sum_update_less [OF e] show ?case by (fastforce split: if_splits)
qed simp

function kahn :: "(string \<Rightarrow> string list) \<Rightarrow> indegrees \<Rightarrow> string list \<Rightarrow> nat \<Rightarrow> nat option" where
  "kahn succ ind queue visited =
     (if queue = [] then Some visited
      else case relax (succ (last queue)) ind (butlast queue) of
             None \<Rightarrow> None
           | Some (ind', queue') \<Rightarrow> kahn succ ind' queue' (visited + 1))"
  by pat_completeness auto
termination
  by (relation "measure (\<lambda>(_, ind, queue, _). sum_list (map snd ind) + length queue)")
     (auto dest!: relax_measure simp: Suc_le_eq intro: le_less_trans)

declare kahn.simps [simp del]

definition reject_dependency_cycles :: "id_order \<Rightarrow> WorkflowRecipe \<Rightarrow> (WorkflowError + unit) option" where
  "reject_dependency_cycles order recipe =
     (case count_edges (recipe_steps recipe) (map (\<lambda>s. (step_id s, 0)) (recipe_steps recipe)) (\<lambda>_. []) of
        None \<Rightarrow> None
      | Some (ind, succ) \<Rightarrow>
          (let queue = order (map fst (filter (\<lambda>(_, d). d = 0) ind)) in
           case kahn succ ind queue 0 of
             None \<Rightarrow> None
           | Some visited \<Rightarrow>
               Some (if visited \<noteq> length (recipe_steps recipe)
                     then Inl (InvalidRecipe ''dependency cycle detected'') else Inr ())))"

fun check_ids :: "nat \<Rightarrow> string list \<Rightarrow> WorkflowStep list \<Rightarrow> WorkflowError + string list" where
  "check_ids i seen [] = Inr seen"
| "check_ids i seen (s # ss) =
     (if step_id s = [] then Inl (InvalidRecipe (''empty id at '' @ nat_to_string i))
      else if step_id s \<in> set seen then Inl (InvalidRecipe (''duplicate step id '' @ step_id s))
      else check_ids (i + 1) (seen @ [step_id s]) ss)"

fun check_deps :: "string list \<Rightarrow> WorkflowStep \<Rightarrow> string list \<Rightarrow> WorkflowError + unit" where
  "check_deps seen s [] = Inr ()"
| "check_deps seen s (dep # deps) =
     (if dep \<notin> set seen
      then Inl (InvalidRecipe (''step '' @ step_id s @ '' depends on unknown '' @ dep))
      else if dep = step_id s
      then Inl (InvalidRecipe (''step '' @ step_id s @ '' depends on itself''))
      else check_deps seen s deps)"

fun check_steps :: "string list \<Rightarrow> WorkflowStep list \<Rightarrow> WorkflowError + unit" where
  "check_steps seen [] = Inr ()"
| "check_steps seen (s # ss) = rbind (check_deps seen s (depends_on s)) (\<lambda>_. check_steps seen ss)"

definition validate_recipe :: "id_order \<Rightarrow> WorkflowRecipe \<Rightarrow> (WorkflowError + unit) option" where
  "validate_recipe order recipe =
     (if recipe_steps recipe = [] then Some (Inl (InvalidRecipe ''empty steps''))
      else case rbind (check_ids 0 [] (recipe_steps recipe)) (\<lambda>seen. check_steps seen (recipe_steps recipe)) of
             Inl e \<Rightarrow> Some (Inl e)
           | Inr _ \<Rightarrow> reject_dependency_cycles order recipe)"

section \<open>The topological sort\<close>

definition deps_of :: "WorkflowStep list \<Rightarrow> string \<Rightarrow> string list" where
  "deps_of ss n = (case List.find (\<lambda>s. step_id s = n) ss of Some s \<Rightarrow> depends_on s | None \<Rightarrow> [])"

abbreviation ids_of :: "WorkflowStep list \<Rightarrow> string list" where
  "ids_of ss \<equiv> map step_id ss"

text \<open>The dependency relation of a recipe: a step is related to the steps that wait for it.\<close>

definition dep_rel :: "WorkflowStep list \<Rightarrow> (string \<times> string) set" where
  "dep_rel ss = {(d, n). n \<in> set (ids_of ss) \<and> d \<in> set (deps_of ss n)}"

lemma deps_of_Nil [simp]: "deps_of [] n = []"
  by (simp add: deps_of_def)

lemma deps_of_Cons: "deps_of (s # ss) n = (if step_id s = n then depends_on s else deps_of ss n)"
  by (simp add: deps_of_def)

lemma deps_of_notin: "n \<notin> set (ids_of ss) \<Longrightarrow> deps_of ss n = []"
  by (induction ss) (auto simp: deps_of_Cons)

lemma deps_of_member: "distinct (ids_of ss) \<Longrightarrow> s \<in> set ss \<Longrightarrow> deps_of ss (step_id s) = depends_on s"
  by (induction ss) (auto simp: deps_of_Cons)

lemma count_deps_result:
  "map_of ind i = Some k \<Longrightarrow>
   \<exists>ind' succ'. count_deps i deps ind succ = Some (ind', succ')
     \<and> map fst ind' = map fst ind
     \<and> map_of ind' = (map_of ind)(i \<mapsto> k + length deps)
     \<and> (\<forall>d n. count_list (succ' d) n = count_list (succ d) n + (if n = i then count_list deps d else 0))"
proof (induction deps arbitrary: ind k succ)
  case (Cons dep deps)
  let ?ind = "AList.update i (k + 1) ind"
  have "map_of ?ind i = Some (k + 1)" by (simp add: update_conv')
  from Cons.IH [OF this, of "succ(dep := succ dep @ [i])"] obtain ind' succ' where
    rest: "count_deps i deps ?ind (succ(dep := succ dep @ [i])) = Some (ind', succ')"
      "map fst ind' = map fst ?ind" "map_of ind' = (map_of ?ind)(i \<mapsto> k + 1 + length deps)"
      "\<forall>d n. count_list (succ' d) n =
         count_list ((succ(dep := succ dep @ [i])) d) n + (if n = i then count_list deps d else 0)"
    by blast
  have "map fst ?ind = map fst ind"
    using Cons.prems map_of_SomeD [of ind i k] by (auto simp: update_keys image_iff Bex_def)
  moreover have "map_of ind' = (map_of ind)(i \<mapsto> k + length (dep # deps))"
    using rest(3) by (simp add: update_conv')
  moreover have "count_list (succ' d) n =
      count_list (succ d) n + (if n = i then count_list (dep # deps) d else 0)" for d n
    using rest(4) by auto
  ultimately show ?case
    using rest(1,2) Cons.prems by (auto simp: raise_indegree_def)
qed auto

lemma count_edges_result:
  "distinct (ids_of ss) \<Longrightarrow> set (ids_of ss) \<subseteq> dom (map_of ind) \<Longrightarrow>
   \<exists>ind' succ'. count_edges ss ind succ = Some (ind', succ')
     \<and> map fst ind' = map fst ind
     \<and> (\<forall>n k. map_of ind n = Some k \<longrightarrow> map_of ind' n = Some (k + length (deps_of ss n)))
     \<and> (\<forall>d n. count_list (succ' d) n = count_list (succ d) n + count_list (deps_of ss n) d)"
proof (induction ss arbitrary: ind succ)
  case (Cons s ss)
  then obtain k where k: "map_of ind (step_id s) = Some k" by auto
  from count_deps_result [OF k, of "depends_on s" succ] obtain ind1 succ1 where
    one: "count_deps (step_id s) (depends_on s) ind succ = Some (ind1, succ1)"
      "map fst ind1 = map fst ind"
      "map_of ind1 = (map_of ind)(step_id s \<mapsto> k + length (depends_on s))"
      "\<forall>d n. count_list (succ1 d) n =
         count_list (succ d) n + (if n = step_id s then count_list (depends_on s) d else 0)"
    by blast
  have "set (ids_of ss) \<subseteq> dom (map_of ind1)" using Cons.prems one(3) by auto
  with Cons obtain ind2 succ2 where
    two: "count_edges ss ind1 succ1 = Some (ind2, succ2)" "map fst ind2 = map fst ind1"
      "\<forall>n k. map_of ind1 n = Some k \<longrightarrow> map_of ind2 n = Some (k + length (deps_of ss n))"
      "\<forall>d n. count_list (succ2 d) n = count_list (succ1 d) n + count_list (deps_of ss n) d"
    by (metis distinct.simps(2) list.simps(9))
  have none: "deps_of ss (step_id s) = []" using Cons.prems by (intro deps_of_notin) simp
  have "map_of ind2 n = Some (m + length (deps_of (s # ss) n))" if "map_of ind n = Some m" for n m
    using two(3) one(3) that k none by (cases "n = step_id s") (auto simp: deps_of_Cons)
  moreover have "count_list (succ2 d) n = count_list (succ d) n + count_list (deps_of (s # ss) n) d" for d n
    using two(4) one(4) none by (auto simp: deps_of_Cons)
  ultimately show ?case using one two by simp
qed simp

text \<open>
  The invariant of the sort. \<open>V\<close> lists the visited steps, the latest first, and \<open>rest\<close> the
  successors of the latest one that are still to be processed.
\<close>

definition unvisited :: "WorkflowStep list \<Rightarrow> string list \<Rightarrow> string \<Rightarrow> nat" where
  "unvisited ss V n = length (filter (\<lambda>d. d \<notin> set V) (deps_of ss n))"

definition kahn_inv ::
    "WorkflowStep list \<Rightarrow> string list \<Rightarrow> string list \<Rightarrow> indegrees \<Rightarrow> string list \<Rightarrow> bool" where
  "kahn_inv ss V rest ind queue \<longleftrightarrow>
     distinct (V @ queue) \<and> set (V @ queue) \<subseteq> set (ids_of ss)
     \<and> (\<forall>n \<in> set (ids_of ss). map_of ind n = Some (unvisited ss V n + count_list rest n)
          \<and> (n \<in> set (V @ queue) \<longleftrightarrow> unvisited ss V n + count_list rest n = 0))"

fun topo :: "WorkflowStep list \<Rightarrow> string list \<Rightarrow> bool" where
  "topo ss [] = True"
| "topo ss (x # V) = (set (deps_of ss x) \<subseteq> set V \<and> topo ss V)"

lemma unvisited_eq_0: "unvisited ss V n = 0 \<longleftrightarrow> set (deps_of ss n) \<subseteq> set V"
  by (auto simp: unvisited_def filter_empty_conv)

lemma unvisited_Cons:
  assumes "x \<notin> set V"
  shows "unvisited ss V n = unvisited ss (x # V) n + count_list (deps_of ss n) x"
proof -
  have "length (filter (\<lambda>d. d \<notin> set V) ds) = length (filter (\<lambda>d. d \<notin> set (x # V)) ds) + count_list ds x" for ds
    using assms by (induction ds) auto
  then show ?thesis by (simp add: unvisited_def)
qed

lemma kahn_inv_step:
  assumes inv: "kahn_inv ss V (m # rest) ind queue" and m: "m \<in> set (ids_of ss)"
    and e: "map_of ind m = Some e"
  shows "e \<noteq> 0 \<and> kahn_inv ss V rest (AList.update m (e - 1) ind) (if e - 1 = 0 then queue @ [m] else queue)"
proof -
  have e': "e = unvisited ss V m + count_list rest m + 1"
    using inv m e by (auto simp: kahn_inv_def)
  moreover have "m \<notin> set (V @ queue)"
    using inv m e e' by (auto simp: kahn_inv_def)
  ultimately show ?thesis
    using inv m by (auto simp: kahn_inv_def update_conv' split: if_splits)
qed

lemma relax_result:
  "kahn_inv ss V rest ind queue \<Longrightarrow> set rest \<subseteq> set (ids_of ss) \<Longrightarrow>
   \<exists>ind' queue'. relax rest ind queue = Some (ind', queue') \<and> kahn_inv ss V [] ind' queue'"
proof (induction rest arbitrary: ind queue)
  case (Cons m rest)
  then obtain e where e: "map_of ind m = Some e" by (auto simp: kahn_inv_def)
  from kahn_inv_step [OF Cons.prems(1) _ e] Cons e show ?case by simp
qed simp

lemma kahn_inv_pop:
  assumes inv: "kahn_inv ss V [] ind queue" and q: "queue \<noteq> []"
    and succ: "\<And>n. count_list (succ (last queue)) n = count_list (deps_of ss n) (last queue)"
  shows "kahn_inv ss (last queue # V) (succ (last queue)) ind (butlast queue)
         \<and> set (deps_of ss (last queue)) \<subseteq> set V"
proof
  let ?x = "last queue"
  have split: "queue = butlast queue @ [?x]" using q by simp
  have x: "?x \<notin> set V" "?x \<in> set (ids_of ss)"
    using inv q by (auto simp: kahn_inv_def dest: last_in_set)
  have sets: "set (V @ queue) = set ((?x # V) @ butlast queue)"
    by (subst split) auto
  have "distinct ((?x # V) @ butlast queue)"
    using inv distinct_append [of "butlast queue" "[?x]"] split x(1)
    by (auto simp: kahn_inv_def dest: in_set_butlastD)
  then show "kahn_inv ss (?x # V) (succ ?x) ind (butlast queue)"
    using inv unvisited_Cons [OF x(1), of ss] unfolding kahn_inv_def sets by (simp add: succ)
  have "?x \<in> set (V @ queue)" using q by simp
  then have "unvisited ss V ?x + count_list [] ?x = 0"
    using inv x(2) unfolding kahn_inv_def by blast
  then show "set (deps_of ss ?x) \<subseteq> set V" by (simp add: unvisited_eq_0)
qed

lemma kahn_result:
  "kahn_inv ss V [] ind queue \<Longrightarrow> topo ss V \<Longrightarrow>
   (\<And>d n. count_list (succ d) n = count_list (deps_of ss n) d) \<Longrightarrow>
   \<exists>W. kahn succ ind queue (length V) = Some (length W) \<and> topo ss W \<and> distinct W
       \<and> set W \<subseteq> set (ids_of ss)
       \<and> (\<forall>n \<in> set (ids_of ss). set (deps_of ss n) \<subseteq> set W \<longrightarrow> n \<in> set W)"
proof (induction succ ind queue "length V" arbitrary: V rule: kahn.induct)
  case (1 succ ind queue)
  show ?case
  proof (cases "queue = []")
    case True
    with 1 show ?thesis
      by (intro exI [of _ V]) (auto simp: kahn.simps kahn_inv_def unvisited_eq_0)
  next
    case False
    let ?x = "last queue"
    have pop: "kahn_inv ss (?x # V) (succ ?x) ind (butlast queue)" "topo ss (?x # V)"
      using kahn_inv_pop [OF "1.prems"(1) False, of succ] "1.prems" by auto
    have "set (succ ?x) \<subseteq> set (ids_of ss)"
    proof
      fix n assume "n \<in> set (succ ?x)"
      then have "count_list (deps_of ss n) ?x \<noteq> 0" by (simp flip: "1.prems"(3) add: count_list_0_iff)
      then show "n \<in> set (ids_of ss)" using deps_of_notin [of n ss] by force
    qed
    from relax_result [OF pop(1) this] obtain ind' queue' where
      rel: "relax (succ ?x) ind (butlast queue) = Some (ind', queue')" "kahn_inv ss (?x # V) [] ind' queue'"
      by blast
    from "1.hyps" [OF False rel(1) HOL.refl, of "?x # V"] rel(2) pop(2) "1.prems"(3)
    show ?thesis by (subst kahn.simps) (simp add: False rel(1))
  qed
qed

text \<open>An order in which every step comes after what it waits for shows that there is no cycle.\<close>

lemma topo_deps: "topo ss V \<Longrightarrow> n \<in> set V \<Longrightarrow> set (deps_of ss n) \<subseteq> set V"
  by (induction V) auto

lemma topo_rank:
  "topo ss V \<Longrightarrow> distinct V \<Longrightarrow> n \<in> set V \<Longrightarrow> d \<in> set (deps_of ss n) \<Longrightarrow>
   length (dropWhile (\<lambda>x. x \<noteq> d) V) < length (dropWhile (\<lambda>x. x \<noteq> n) V)"
proof (induction V)
  case (Cons x V)
  then have "d \<in> set V" using topo_deps [of ss V n] by auto
  then have "d \<noteq> x" using Cons.prems by auto
  with Cons show ?case
    by (auto simp: le_imp_less_Suc length_dropWhile_le)
qed simp

lemma topo_acyclic:
  assumes "topo ss V" "distinct V" "set V = set (ids_of ss)"
  shows "acyclic (dep_rel ss)"
proof (rule acyclic_subset [OF wf_acyclic [OF wf_measure]])
  show "dep_rel ss \<subseteq> measure (\<lambda>n. length (dropWhile (\<lambda>x. x \<noteq> n) V))"
    using assms topo_rank [OF assms(1,2)] by (auto simp: dep_rel_def)
qed

lemma finite_dep_rel: "finite (dep_rel ss)"
proof (rule finite_subset)
  show "dep_rel ss \<subseteq> (\<Union>n \<in> set (ids_of ss). set (deps_of ss n) \<times> {n})"
    by (auto simp: dep_rel_def)
qed simp

lemma acyclic_closed:
  assumes "acyclic (dep_rel ss)"
    and closed: "\<And>n. n \<in> set (ids_of ss) \<Longrightarrow> set (deps_of ss n) \<subseteq> W \<Longrightarrow> n \<in> W"
    and known: "\<And>n. n \<in> set (ids_of ss) \<Longrightarrow> set (deps_of ss n) \<subseteq> set (ids_of ss)"
  shows "set (ids_of ss) \<subseteq> W"
proof
  have wf: "wf (dep_rel ss)" using finite_dep_rel assms(1) by (rule finite_acyclic_wf)
  fix n assume "n \<in> set (ids_of ss)"
  then show "n \<in> W"
  proof (induction n rule: wf_induct_rule [OF wf])
    case (1 n)
    have "d \<in> W" if "d \<in> set (deps_of ss n)" for d
      using 1 that known [OF "1.prems"] by (auto simp: dep_rel_def)
    then show ?case using closed "1.prems" by blast
  qed
qed

lemma map_of_zeros: "n \<in> set (map f xs) \<Longrightarrow> map_of (map (\<lambda>s. (f s, 0 :: nat)) xs) n = Some 0"
  by (induction xs) auto

lemma reject_dependency_cycles_iff:
  assumes dist: "distinct (ids_of (recipe_steps recipe))"
    and known: "\<And>n. n \<in> set (ids_of (recipe_steps recipe)) \<Longrightarrow>
                 set (deps_of (recipe_steps recipe) n) \<subseteq> set (ids_of (recipe_steps recipe))"
    and order: "\<And>xs. mset (order xs) = mset xs"
  shows "reject_dependency_cycles order recipe =
           Some (if acyclic (dep_rel (recipe_steps recipe)) then Inr ()
                 else Inl (InvalidRecipe ''dependency cycle detected''))"
proof -
  let ?ss = "recipe_steps recipe"
  let ?ind0 = "map (\<lambda>s. (step_id s, 0 :: nat)) ?ss"
  have zero: "map_of ?ind0 n = Some 0" if "n \<in> set (ids_of ?ss)" for n
    using that by (rule map_of_zeros)
  then have "set (ids_of ?ss) \<subseteq> dom (map_of ?ind0)" by blast
  from count_edges_result [OF dist this, of "\<lambda>_. []"] obtain ind succ where
    ce: "count_edges ?ss ?ind0 (\<lambda>_. []) = Some (ind, succ)" "map fst ind = map fst ?ind0"
      "\<And>n k. map_of ?ind0 n = Some k \<Longrightarrow> map_of ind n = Some (k + length (deps_of ?ss n))"
      "\<And>d n. count_list (succ d) n = count_list (deps_of ?ss n) d"
    by auto
  have keys: "map fst ind = ids_of ?ss" using ce(2) by (simp add: comp_def)
  let ?queue = "order (map fst (filter (\<lambda>(_, d). d = 0) ind))"
  have ind: "map_of ind n = Some (length (deps_of ?ss n))" if "n \<in> set (ids_of ?ss)" for n
    using ce(3) [OF zero [OF that]] by simp
  have queue: "set ?queue = {n \<in> set (ids_of ?ss). deps_of ?ss n = []}"
  proof -
    have "set ?queue = {n. (n, 0) \<in> set ind}"
      using arg_cong [OF order, of set_mset] by (force simp: image_iff)
    also have "\<dots> = {n. map_of ind n = Some 0}"
      using dist keys by (simp add: map_of_eq_Some_iff)
    also have "\<dots> = {n \<in> set (ids_of ?ss). deps_of ?ss n = []}"
    proof (rule Collect_cong)
      fix n
      show "map_of ind n = Some 0 \<longleftrightarrow> n \<in> set (ids_of ?ss) \<and> deps_of ?ss n = []"
        using ind [of n] map_of_eq_None_iff [of ind n] unfolding keys [symmetric]
        by (cases "n \<in> set (map fst ind)") simp_all
    qed
    finally show ?thesis .
  qed
  have "distinct (map fst (filter (\<lambda>(_, d). d = 0) ind))"
    using dist keys by (simp add: distinct_map_filter)
  then have "distinct ?queue"
    using order mset_eq_imp_distinct_iff by blast
  then have "kahn_inv ?ss [] [] ind ?queue"
    using queue ind by (auto simp: kahn_inv_def unvisited_def)
  from kahn_result [OF this _ ce(4)] obtain W where
    W: "kahn succ ind ?queue 0 = Some (length W)" "topo ?ss W" "distinct W" "set W \<subseteq> set (ids_of ?ss)"
      "\<And>n. n \<in> set (ids_of ?ss) \<Longrightarrow> set (deps_of ?ss n) \<subseteq> set W \<Longrightarrow> n \<in> set W"
    by auto
  have "length W = length ?ss \<longleftrightarrow> set W = set (ids_of ?ss)"
    using W(3,4) dist
    by (metis card_subset_eq distinct_card length_map List.finite_set)
  also have "\<dots> \<longleftrightarrow> acyclic (dep_rel ?ss)"
    using W topo_acyclic [of ?ss W] acyclic_closed [of ?ss "set W"] known by blast
  finally show ?thesis
    by (simp add: reject_dependency_cycles_def ce(1) W(1) Let_def)
qed

section \<open>What validation accepts\<close>

lemma check_ids_iff:
  "check_ids i seen ss = Inr out \<longleftrightarrow>
     out = seen @ ids_of ss \<and> distinct (ids_of ss) \<and> [] \<notin> set (ids_of ss)
     \<and> set seen \<inter> set (ids_of ss) = {}"
  by (induction ss arbitrary: i seen) auto

lemma check_deps_iff:
  "check_deps seen s deps = Inr u \<longleftrightarrow> set deps \<subseteq> set seen \<and> step_id s \<notin> set deps"
  by (induction deps) auto

lemma check_steps_iff:
  "check_steps seen ss = Inr u \<longleftrightarrow>
     (\<forall>s \<in> set ss. set (depends_on s) \<subseteq> set seen \<and> step_id s \<notin> set (depends_on s))"
  by (induction ss) (auto simp: rbind_eq_Inr_iff check_deps_iff)

definition recipe_ok :: "WorkflowStep list \<Rightarrow> bool" where
  "recipe_ok ss \<longleftrightarrow>
     ss \<noteq> [] \<and> distinct (ids_of ss) \<and> [] \<notin> set (ids_of ss)
     \<and> (\<forall>s \<in> set ss. set (depends_on s) \<subseteq> set (ids_of ss)) \<and> acyclic (dep_rel ss)"

lemma deps_of_known:
  assumes "distinct (ids_of ss)" "\<forall>s \<in> set ss. set (depends_on s) \<subseteq> set (ids_of ss)" "n \<in> set (ids_of ss)"
  shows "set (deps_of ss n) \<subseteq> set (ids_of ss)"
proof -
  obtain s where "s \<in> set ss" "n = step_id s" using assms(3) by auto
  then show ?thesis using assms deps_of_member [of ss s] by auto
qed

lemma acyclic_no_self:
  assumes "acyclic (dep_rel ss)" "distinct (ids_of ss)" "s \<in> set ss"
  shows "step_id s \<notin> set (depends_on s)"
proof
  assume "step_id s \<in> set (depends_on s)"
  then have "(step_id s, step_id s) \<in> dep_rel ss"
    using assms(2,3) by (simp add: dep_rel_def deps_of_member)
  then show False using assms(1) by (auto simp: acyclic_def)
qed

lemma validate_recipe_total:
  assumes order: "\<forall>xs. mset (order xs) = mset xs"
  shows "\<exists>r. validate_recipe order recipe = Some r
             \<and> (r = Inr () \<longleftrightarrow> recipe_ok (recipe_steps recipe))"
proof -
  let ?ss = "recipe_steps recipe"
  let ?checks = "rbind (check_ids 0 [] ?ss) (\<lambda>seen. check_steps seen ?ss)"
  have checks: "?checks = Inr u \<longleftrightarrow> distinct (ids_of ?ss) \<and> [] \<notin> set (ids_of ?ss)
      \<and> (\<forall>s \<in> set ?ss. set (depends_on s) \<subseteq> set (ids_of ?ss) \<and> step_id s \<notin> set (depends_on s))" for u
    by (auto simp: rbind_eq_Inr_iff check_ids_iff check_steps_iff)
  show ?thesis
  proof (cases "?ss = []")
    case True
    then show ?thesis by (simp add: validate_recipe_def recipe_ok_def)
  next
    case ne: False
    show ?thesis
    proof (cases ?checks)
      case (Inl e)
      then have "\<not> recipe_ok ?ss" using checks [of "()"] acyclic_no_self [of ?ss] by (auto simp: recipe_ok_def)
      then show ?thesis using Inl ne by (simp add: validate_recipe_def)
    next
      case (Inr u)
      then have ok: "distinct (ids_of ?ss)" "[] \<notin> set (ids_of ?ss)"
        "\<forall>s \<in> set ?ss. set (depends_on s) \<subseteq> set (ids_of ?ss)"
        using checks [of u] by auto
      have "reject_dependency_cycles order recipe =
          Some (if acyclic (dep_rel ?ss) then Inr () else Inl (InvalidRecipe ''dependency cycle detected''))"
        using ok order by (intro reject_dependency_cycles_iff deps_of_known) auto
      then show ?thesis using Inr ne ok by (simp add: validate_recipe_def recipe_ok_def)
    qed
  qed
qed

lemma validate_recipe_sound:
  "\<forall>xs. mset (order xs) = mset xs \<Longrightarrow> validate_recipe order recipe = Some (Inr ()) \<Longrightarrow>
   recipe_ok (recipe_steps recipe)"
  using validate_recipe_total [of order recipe] by auto

text \<open>
  C9. The validation of a recipe never panics, whatever the iteration order of the hash
  map, and accepts exactly the recipes that have a step, whose step names are distinct and not
  empty, whose dependencies name steps of the recipe, and whose dependency relation has no cycle:
  the topological sort decides acyclicity.
\<close>

theorem validate_recipe_iff:
  assumes "\<forall>xs. mset (order xs) = mset xs"
  shows "\<exists>r. validate_recipe order recipe = Some r
             \<and> (r = Inr () \<longleftrightarrow> recipe_ok (recipe_steps recipe))"
  using assms by (rule validate_recipe_total)

theorem validate_recipe_iff_witness:
  "recipe_ok (recipe_steps bug_skeleton_recipe) \<and> recipe_ok (recipe_steps feature_skeleton_recipe)
   \<and> recipe_ok (recipe_steps refactor_skeleton_recipe)
   \<and> \<not> recipe_ok [workflow_step ''a'' ''A'' None [''b''], workflow_step ''b'' ''B'' None [''a'']]"
proof -
  let ?cycle = "\<lparr>recipe_id = ''r'', recipe_name = ''R'', recipe_steps =
      [workflow_step ''a'' ''A'' None [''b''], workflow_step ''b'' ''B'' None [''a'']]\<rparr>"
  have "validate_recipe rev bug_skeleton_recipe = Some (Inr ())"
    "validate_recipe rev feature_skeleton_recipe = Some (Inr ())"
    "validate_recipe rev refactor_skeleton_recipe = Some (Inr ())"
    by code_simp+
  moreover have "validate_recipe rev ?cycle = Some (Inl (InvalidRecipe ''dependency cycle detected''))"
    by code_simp
  ultimately show ?thesis
    using validate_recipe_iff [of rev bug_skeleton_recipe] validate_recipe_iff [of rev feature_skeleton_recipe]
      validate_recipe_iff [of rev refactor_skeleton_recipe] validate_recipe_iff [of rev ?cycle] by simp
qed

end
