(* ===== verification/Workflow_Engine.thy ===== *)
theory Workflow_Engine
  imports Workflow_Recipe
begin

text \<open>
  The state machine of the workflow engine (\<open>crates/impetus-core/src/workflow_engine.rs\<close>): it
  begins, completes, fails and cancels the steps of a validated recipe, alone or through the
  scheduler of \<open>Agent_Scheduler\<close>.

  The checkpoint table is an association list in recipe order. Its iteration order could only be
  seen by the cancellation of the steps' schedules, whose result does not depend on it
  (\<open>cancel_schedules_order\<close>).
\<close>

section \<open>The engine\<close>

record WorkflowEngine =
  eng_recipe :: WorkflowRecipe
  eng_budget :: WorkflowBudget
  eng_checkpoints :: "(string \<times> StepCheckpoint) list"
  eng_tokens_used :: u64
  eng_wall_ms_used :: u64
  eng_status :: WorkflowStatus

definition engine_new :: "id_order \<Rightarrow> WorkflowRecipe \<Rightarrow> WorkflowBudget \<Rightarrow> (WorkflowError + WorkflowEngine) option" where
  "engine_new order recipe budget =
     map_option (\<lambda>v. rbind v (\<lambda>_. Inr
       \<lparr>eng_recipe = recipe, eng_budget = budget,
        eng_checkpoints = map (\<lambda>s. (step_id s,
          \<lparr>cp_step_id = step_id s, cp_status = StepStatus.Pending, cp_result = None, cp_attempts = 0,
           cp_schedule_id = None, cp_result_slot = None\<rparr>)) (recipe_steps recipe),
        eng_tokens_used = 0, eng_wall_ms_used = 0, eng_status = WorkflowStatus.Idle\<rparr>))
       (validate_recipe order recipe)"

definition checkpoint :: "WorkflowEngine \<Rightarrow> string \<Rightarrow> StepCheckpoint option" where
  "checkpoint e i = map_of (eng_checkpoints e) i"

definition find_step :: "WorkflowEngine \<Rightarrow> string \<Rightarrow> WorkflowStep option" where
  "find_step e i = List.find (\<lambda>s. step_id s = i) (recipe_steps (eng_recipe e))"

definition checkpoints_list :: "WorkflowEngine \<Rightarrow> StepCheckpoint list" where
  "checkpoints_list e =
     List.map_filter (\<lambda>s. checkpoint e (step_id s)) (recipe_steps (eng_recipe e))"

definition effective_max_retries :: "WorkflowEngine \<Rightarrow> string \<Rightarrow> u32 option" where
  "effective_max_retries e i =
     map_option (\<lambda>s. unwrap_or (step_max_retries s) (wb_max_retries (eng_budget e))) (find_step e i)"

definition workflow_start :: "WorkflowEngine \<Rightarrow> (WorkflowError + unit) \<times> WorkflowEngine" where
  "workflow_start e =
     (case eng_status e of
        WorkflowStatus.Idle \<Rightarrow> (Inr (), e\<lparr>eng_status := WorkflowStatus.Running\<rparr>)
      | WorkflowStatus.Running \<Rightarrow> (Inr (), e)
      | other \<Rightarrow> (Inl (AlreadyFinished other), e))"

definition step_completed :: "WorkflowEngine \<Rightarrow> string \<Rightarrow> bool" where
  "step_completed e dep = is_some_and (checkpoint e dep) (\<lambda>d. cp_status d = StepStatus.Completed)"

definition is_ready :: "WorkflowEngine \<Rightarrow> string \<Rightarrow> bool" where
  "is_ready e i =
     (case find_step e i of
        None \<Rightarrow> False
      | Some s \<Rightarrow>
          (case checkpoint e i of
             None \<Rightarrow> False
           | Some cp \<Rightarrow>
               if cp_status cp \<noteq> StepStatus.Pending then False
               else list_all (step_completed e) (depends_on s)))"

definition next_ready_step :: "WorkflowEngine \<Rightarrow> WorkflowStep option" where
  "next_ready_step e =
     (if eng_status e \<notin> {WorkflowStatus.Running, WorkflowStatus.Idle} then None
      else List.find (\<lambda>s. is_ready e (step_id s)) (recipe_steps (eng_recipe e)))"

definition blocking_deps :: "WorkflowEngine \<Rightarrow> string \<Rightarrow> string list" where
  "blocking_deps e i =
     (case find_step e i of
        None \<Rightarrow> []
      | Some s \<Rightarrow> filter (\<lambda>dep. \<not> step_completed e dep) (depends_on s))"

definition ensure_runnable :: "WorkflowEngine \<Rightarrow> WorkflowError + unit" where
  "ensure_runnable e =
     (case eng_status e of
        WorkflowStatus.Idle \<Rightarrow> Inr ()
      | WorkflowStatus.Running \<Rightarrow> Inr ()
      | WorkflowStatus.Cancelled \<Rightarrow> Inl WorkflowError.Cancelled
      | WorkflowStatus.BudgetExhausted \<Rightarrow> Inl (WorkflowError.BudgetExhausted ''exhausted'')
      | WorkflowStatus.Failed \<Rightarrow> Inl (AlreadyFinished WorkflowStatus.Failed)
      | other \<Rightarrow> Inl (AlreadyFinished other))"

definition workflow_budget_exceeded :: "WorkflowEngine \<Rightarrow> string option" where
  "workflow_budget_exceeded e =
     (if is_some_and (wb_max_tokens (eng_budget e)) (\<lambda>m. m \<le> eng_tokens_used e) then Some ''tokens''
      else if is_some_and (wb_max_wall_ms (eng_budget e)) (\<lambda>m. m \<le> eng_wall_ms_used e) then Some ''wall_ms''
      else None)"

definition all_completed :: "WorkflowEngine \<Rightarrow> bool" where
  "all_completed e = list_all (\<lambda>(_, c). cp_status c = StepStatus.Completed) (eng_checkpoints e)"

text \<open>Writing through \<open>checkpoints.get_mut\<close>.\<close>

definition put_checkpoint :: "string \<Rightarrow> StepCheckpoint \<Rightarrow> WorkflowEngine \<Rightarrow> WorkflowEngine" where
  "put_checkpoint i cp e = e\<lparr>eng_checkpoints := AList.update i cp (eng_checkpoints e)\<rparr>"

text \<open>
  The checks that open \<open>begin_step\<close> and, with the same text, \<open>begin_step_with_scheduler\<close>: the step's
  checkpoint when it may begin.
\<close>

definition begin_checks :: "string \<Rightarrow> WorkflowEngine \<Rightarrow> (WorkflowError + StepCheckpoint) \<times> WorkflowEngine" where
  "begin_checks i e =
     (case ensure_runnable e of
        Inl err \<Rightarrow> (Inl err, e)
      | Inr _ \<Rightarrow>
          (case workflow_budget_exceeded e of
             Some kind \<Rightarrow>
               (Inl (WorkflowError.BudgetExhausted kind), e\<lparr>eng_status := WorkflowStatus.BudgetExhausted\<rparr>)
           | None \<Rightarrow>
               (let blocking = blocking_deps e i in
                if blocking \<noteq> [] then (Inl (BlockedByDependency i blocking), e)
                else case checkpoint e i of
                       None \<Rightarrow> (Inl (UnknownStep i), e)
                     | Some cp \<Rightarrow>
                         if cp_status cp \<noteq> StepStatus.Pending then (Inl (NotRunnable i (cp_status cp)), e)
                         else (Inr cp, e))))"

definition begin_step :: "string \<Rightarrow> WorkflowEngine \<Rightarrow> (WorkflowError + unit) \<times> WorkflowEngine" where
  "begin_step i e =
     (case begin_checks i e of
        (Inl err, e') \<Rightarrow> (Inl err, e')
      | (Inr cp, e') \<Rightarrow> (Inr (), put_checkpoint i (cp\<lparr>cp_status := StepStatus.Running\<rparr>) e'))"

definition step_role :: "WorkflowEngine \<Rightarrow> string \<Rightarrow> WorkflowError + SubagentRole option" where
  "step_role e i =
     (case find_step e i of
        None \<Rightarrow> Inl (UnknownStep i)
      | Some s \<Rightarrow>
          (case step_role_hint s of
             None \<Rightarrow> Inr None
           | Some label \<Rightarrow>
               (case parse_step_role label of
                  Inl _ \<Rightarrow> Inl (WorkflowError.UnknownRole i label)
                | Inr r \<Rightarrow> Inr (Some r))))"

fun schedule_status_debug :: "ScheduleStatus \<Rightarrow> string" where
  "schedule_status_debug Admitted = ''Admitted''"
| "schedule_status_debug ScheduleStatus.Completed = ''Completed''"
| "schedule_status_debug ScheduleStatus.Cancelled = ''Cancelled''"

fun write_set_error_text :: "WriteSetError \<Rightarrow> string" where
  "write_set_error_text EmptyChildId = ''child_id must be non-empty''"
| "write_set_error_text EmptyPath = ''write path must be non-empty''"
| "write_set_error_text (PathEscape p) = ''write path escapes workspace: '' @ p"
| "write_set_error_text (AbsolutePath p) = ''absolute write path forbidden: '' @ p"
| "write_set_error_text (Conflict holder) =
     ''overlapping DeclaredWriteSet with active writer '' @ holder"
| "write_set_error_text (Stale child offered live) =
     ''stale writer fence for '' @ child @ '': offered gen '' @ nat_to_string (unat offered)
       @ '', live gen '' @ nat_to_string (unat live)"
| "write_set_error_text (UnknownChild c) = ''unknown writer lease '' @ c"
| "write_set_error_text (WriteSetError.AlreadyAdmitted c) = ''writer '' @ c @ '' already holds a lease''"

fun scheduler_error_text :: "AgentSchedulerError \<Rightarrow> string" where
  "scheduler_error_text (AgentSchedulerError.Rejected i) = ''scheduler rejected task for step '' @ i"
| "scheduler_error_text (UnknownSchedule i) = ''unknown schedule id: '' @ i"
| "scheduler_error_text (NotAdmitted i st) =
     ''schedule '' @ i @ '' is not admitted (status '' @ schedule_status_debug st @ '')''"
| "scheduler_error_text (AgentSchedulerError.UnknownRole label) = ''unknown role label: '' @ label"
| "scheduler_error_text (WriteLease err) = write_set_error_text err"

fun map_scheduler_err :: "AgentSchedulerError \<Rightarrow> WorkflowError" where
  "map_scheduler_err (AgentSchedulerError.Rejected i) = SchedulerRejected i"
| "map_scheduler_err (AgentSchedulerError.UnknownRole label) = WorkflowError.UnknownRole [] label"
| "map_scheduler_err other = Scheduler (scheduler_error_text other)"

definition begin_step_with_scheduler ::
    "string \<Rightarrow> WorkflowEngine \<times> InMemoryAgentScheduler
     \<Rightarrow> (WorkflowError + ScheduleAdmission) \<times> WorkflowEngine \<times> InMemoryAgentScheduler" where
  "begin_step_with_scheduler i c =
     (case c of (e, sch) \<Rightarrow>
        (case begin_checks i e of
           (Inl err, e') \<Rightarrow> (Inl err, e', sch)
         | (Inr _, e') \<Rightarrow>
             (case step_role e' i of
                Inl err \<Rightarrow> (Inl err, e', sch)
              | Inr role \<Rightarrow>
                  (case schedule \<lparr>task_workflow_id = recipe_id (eng_recipe e'), task_step_id = i,
                                  task_role = role\<rparr> sch of
                     (Inl err, sch') \<Rightarrow> (Inl (map_scheduler_err err), e', sch')
                   | (Inr admission, sch') \<Rightarrow>
                       (case checkpoint e' i of
                          None \<Rightarrow> (Inl (UnknownStep i), e', sch')
                        | Some cp \<Rightarrow>
                            (Inr admission, put_checkpoint i
                               (cp\<lparr>cp_status := StepStatus.Running,
                                   cp_schedule_id := Some (admission_schedule_id admission),
                                   cp_result_slot := Some (admission_result_slot admission)\<rparr>) e',
                             sch'))))))"

definition complete_step ::
    "string \<Rightarrow> string \<Rightarrow> u64 \<Rightarrow> u64 \<Rightarrow> WorkflowEngine \<Rightarrow> (WorkflowError + unit) \<times> WorkflowEngine" where
  "complete_step i result tokens wall_ms e =
     (case ensure_runnable e of
        Inl err \<Rightarrow> (Inl err, e)
      | Inr _ \<Rightarrow>
          (case checkpoint e i of
             None \<Rightarrow> (Inl (UnknownStep i), e)
           | Some cp \<Rightarrow>
               if cp_status cp \<noteq> StepStatus.Running then (Inl (NotRunnable i (cp_status cp)), e)
               else
                 (let e1 = (put_checkpoint i
                        (cp\<lparr>cp_status := StepStatus.Completed, cp_result := Some result\<rparr>) e)
                        \<lparr>eng_tokens_used := saturating_add (eng_tokens_used e) tokens,
                         eng_wall_ms_used := saturating_add (eng_wall_ms_used e) wall_ms\<rparr>
                  in case workflow_budget_exceeded e1 of
                       Some kind \<Rightarrow>
                         (Inl (WorkflowError.BudgetExhausted kind),
                          e1\<lparr>eng_status := WorkflowStatus.BudgetExhausted\<rparr>)
                     | None \<Rightarrow>
                         (Inr (), if all_completed e1 then e1\<lparr>eng_status := WorkflowStatus.Completed\<rparr>
                                  else e1))))"

definition complete_step_with_scheduler ::
    "string \<Rightarrow> string \<Rightarrow> u64 \<Rightarrow> u64 \<Rightarrow> WorkflowEngine \<times> InMemoryAgentScheduler
     \<Rightarrow> (WorkflowError + unit) \<times> WorkflowEngine \<times> InMemoryAgentScheduler" where
  "complete_step_with_scheduler i result tokens wall_ms c =
     (case c of (e, sch) \<Rightarrow>
        (case rbind (ok_or (checkpoint e i) (UnknownStep i))
                (\<lambda>cp. ok_or (cp_schedule_id cp) (MissingSchedule i)) of
           Inl err \<Rightarrow> (Inl err, e, sch)
         | Inr sid \<Rightarrow>
             (case complete_step i result tokens wall_ms e of
                (outcome, e') \<Rightarrow>
                  if (case outcome of
                        Inr _ \<Rightarrow> True
                      | Inl (WorkflowError.BudgetExhausted _) \<Rightarrow> True
                      | _ \<Rightarrow> False)
                  then (case schedule_complete sid result sch of
                          (Inl err, sch') \<Rightarrow> (Inl (map_scheduler_err err), e', sch')
                        | (Inr _, sch') \<Rightarrow> (outcome, e', sch'))
                  else (outcome, e', sch))))"

definition fail_step ::
    "string \<Rightarrow> string \<Rightarrow> u64 \<Rightarrow> u64 \<Rightarrow> WorkflowEngine \<Rightarrow> (WorkflowError + unit) \<times> WorkflowEngine" where
  "fail_step i reason tokens wall_ms e =
     (case rbind (ensure_runnable e) (\<lambda>_. ok_or (effective_max_retries e i) (UnknownStep i)) of
        Inl err \<Rightarrow> (Inl err, e)
      | Inr max_retries \<Rightarrow>
          (case checkpoint e i of
             None \<Rightarrow> (Inl (UnknownStep i), e)
           | Some cp \<Rightarrow>
               if cp_status cp \<noteq> StepStatus.Running then (Inl (NotRunnable i (cp_status cp)), e)
               else
                 (let attempts = saturating_add (cp_attempts cp) 1;
                      cp' = cp\<lparr>cp_attempts := attempts, cp_result := Some reason,
                               cp_status := if attempts \<le> max_retries then StepStatus.Pending
                                            else StepStatus.Failed\<rparr>;
                      e1 = (put_checkpoint i cp' e)
                        \<lparr>eng_tokens_used := saturating_add (eng_tokens_used e) tokens,
                         eng_wall_ms_used := saturating_add (eng_wall_ms_used e) wall_ms\<rparr>
                  in case workflow_budget_exceeded e1 of
                       Some kind \<Rightarrow>
                         (Inl (WorkflowError.BudgetExhausted kind),
                          e1\<lparr>eng_status := WorkflowStatus.BudgetExhausted\<rparr>)
                     | None \<Rightarrow>
                         (case checkpoint e1 i of
                            None \<Rightarrow> (Inl (UnknownStep i), e1)
                          | Some c1 \<Rightarrow>
                              if cp_status c1 = StepStatus.Failed
                              then (Inl (RetriesExhausted i), e1\<lparr>eng_status := WorkflowStatus.Failed\<rparr>)
                              else (Inr (), e1)))))"

definition cancel_checkpoint :: "StepCheckpoint \<Rightarrow> StepCheckpoint" where
  "cancel_checkpoint cp =
     (if cp_status cp \<in> {StepStatus.Pending, StepStatus.Running}
      then cp\<lparr>cp_status := StepStatus.Cancelled\<rparr> else cp)"

definition workflow_cancel :: "WorkflowEngine \<Rightarrow> WorkflowEngine" where
  "workflow_cancel e =
     (if eng_status e \<in> {WorkflowStatus.Completed, WorkflowStatus.Cancelled,
                         WorkflowStatus.BudgetExhausted, WorkflowStatus.Failed} then e
      else e\<lparr>eng_checkpoints := map (\<lambda>(i, cp). (i, cancel_checkpoint cp)) (eng_checkpoints e),
             eng_status := WorkflowStatus.Cancelled\<rparr>)"

definition cancel_schedules :: "StepCheckpoint list \<Rightarrow> InMemoryAgentScheduler \<Rightarrow> InMemoryAgentScheduler" where
  "cancel_schedules cps sch =
     fold (\<lambda>cp s. case cp_schedule_id cp of None \<Rightarrow> s | Some sid \<Rightarrow> snd (schedule_cancel sid s)) cps sch"

definition cancel_with_scheduler ::
    "WorkflowEngine \<times> InMemoryAgentScheduler \<Rightarrow> WorkflowEngine \<times> InMemoryAgentScheduler" where
  "cancel_with_scheduler c =
     (case c of (e, sch) \<Rightarrow>
        (workflow_cancel e, cancel_schedules (map snd (eng_checkpoints e)) sch))"

section \<open>The invariant\<close>

abbreviation steps_of :: "WorkflowEngine \<Rightarrow> WorkflowStep list" where
  "steps_of e \<equiv> recipe_steps (eng_recipe e)"

abbreviation unfinished :: "WorkflowEngine \<Rightarrow> bool" where
  "unfinished e \<equiv> eng_status e \<in> {WorkflowStatus.Idle, WorkflowStatus.Running}"

definition retries_of :: "WorkflowEngine \<Rightarrow> string \<Rightarrow> u32" where
  "retries_of e i = unwrap_or (effective_max_retries e i) 0"

text \<open>
  A step that has left \<open>Pending\<close>, other than by cancellation, has all its dependencies completed;
  it has failed for good exactly when its failures outnumber its retries, by one.
\<close>

definition cp_ok :: "WorkflowEngine \<Rightarrow> string \<Rightarrow> StepCheckpoint \<Rightarrow> bool" where
  "cp_ok e i cp \<longleftrightarrow>
     cp_step_id cp = i
     \<and> (cp_status cp \<in> {StepStatus.Running, StepStatus.Completed, StepStatus.Failed} \<longrightarrow>
          (\<forall>d \<in> set (deps_of (steps_of e) i). step_completed e d))
     \<and> (cp_status cp = StepStatus.Failed \<longleftrightarrow> retries_of e i < cp_attempts cp)
     \<and> unat (cp_attempts cp) \<le> unat (retries_of e i) + 1"

definition status_ok :: "WorkflowEngine \<Rightarrow> bool" where
  "status_ok e \<longleftrightarrow>
     (eng_status e = WorkflowStatus.Completed \<longrightarrow> (\<forall>cp \<in> ran (checkpoint e). cp_status cp = StepStatus.Completed))
     \<and> (unfinished e \<longrightarrow>
          (\<forall>cp \<in> ran (checkpoint e). cp_status cp \<notin> {StepStatus.Failed, StepStatus.Cancelled})
          \<and> (\<exists>cp \<in> ran (checkpoint e). cp_status cp \<noteq> StepStatus.Completed))
     \<and> (eng_status e = WorkflowStatus.Cancelled \<longrightarrow>
          (\<forall>cp \<in> ran (checkpoint e). cp_status cp \<notin> {StepStatus.Pending, StepStatus.Running}))
     \<and> (eng_status e = WorkflowStatus.Failed \<longrightarrow>
          (\<exists>cp \<in> ran (checkpoint e). cp_status cp = StepStatus.Failed))"

definition engine_inv :: "WorkflowEngine \<Rightarrow> bool" where
  "engine_inv e \<longleftrightarrow>
     recipe_ok (steps_of e) \<and> map fst (eng_checkpoints e) = ids_of (steps_of e)
     \<and> (\<forall>i cp. checkpoint e i = Some cp \<longrightarrow> cp_ok e i cp) \<and> status_ok e"

inductive engine_step ::
    "WorkflowEngine \<times> InMemoryAgentScheduler \<Rightarrow> WorkflowEngine \<times> InMemoryAgentScheduler \<Rightarrow> bool" where
  es_start: "engine_step (e, sch) (snd (workflow_start e), sch)"
| es_begin: "engine_step (e, sch) (snd (begin_step i e), sch)"
| es_begin_sched: "engine_step c (snd (begin_step_with_scheduler i c))"
| es_complete: "engine_step (e, sch) (snd (complete_step i result tokens wall_ms e), sch)"
| es_complete_sched: "engine_step c (snd (complete_step_with_scheduler i result tokens wall_ms c))"
| es_fail: "engine_step (e, sch) (snd (fail_step i reason tokens wall_ms e), sch)"
| es_cancel: "engine_step (e, sch) (workflow_cancel e, sch)"
| es_cancel_sched: "engine_step c (cancel_with_scheduler c)"
| es_sched: "engine_step (e, sch) (e, sch')"

inductive engine_run ::
    "WorkflowEngine \<times> InMemoryAgentScheduler \<Rightarrow> WorkflowEngine \<times> InMemoryAgentScheduler \<Rightarrow> bool" where
  er_refl: "engine_run c c"
| er_step: "engine_run c c' \<Longrightarrow> engine_step c' c'' \<Longrightarrow> engine_run c c''"

lemma checkpoint_put [simp]: "checkpoint (put_checkpoint i cp e) j = (if j = i then Some cp else checkpoint e j)"
  by (simp add: checkpoint_def put_checkpoint_def update_conv')

lemma put_checkpoint_fields [simp]:
  "eng_recipe (put_checkpoint i cp e) = eng_recipe e" "eng_budget (put_checkpoint i cp e) = eng_budget e"
  "eng_status (put_checkpoint i cp e) = eng_status e"
  by (simp_all add: put_checkpoint_def)

lemma checkpoint_status [simp]:
  "checkpoint (e\<lparr>eng_status := st\<rparr>) = checkpoint e"
  "checkpoint (e\<lparr>eng_tokens_used := t\<rparr>) = checkpoint e"
  "checkpoint (e\<lparr>eng_wall_ms_used := t\<rparr>) = checkpoint e"
  by (simp_all add: checkpoint_def fun_eq_iff)

text \<open>\<open>cp_ok\<close> and \<open>status_ok\<close> read the recipe, the budget and the checkpoints.\<close>

lemma step_completed_cong:
  "checkpoint e' = checkpoint e \<Longrightarrow> step_completed e' = step_completed e"
  by (simp add: step_completed_def fun_eq_iff)

lemma retries_of_cong:
  "eng_recipe e' = eng_recipe e \<Longrightarrow> eng_budget e' = eng_budget e \<Longrightarrow> retries_of e' = retries_of e"
  by (simp add: retries_of_def effective_max_retries_def find_step_def fun_eq_iff)

lemma engine_inv_distinct: "engine_inv e \<Longrightarrow> distinct (map fst (eng_checkpoints e))"
  by (simp add: engine_inv_def recipe_ok_def)

lemma engine_inv_checkpoint:
  "engine_inv e \<Longrightarrow> i \<in> set (ids_of (steps_of e)) \<Longrightarrow> \<exists>cp. checkpoint e i = Some cp"
  by (metis checkpoint_def engine_inv_def map_of_eq_None_iff not_None_eq set_map)

lemma all_completed_iff:
  "distinct (map fst (eng_checkpoints e)) \<Longrightarrow>
   all_completed e \<longleftrightarrow> (\<forall>cp \<in> ran (checkpoint e). cp_status cp = StepStatus.Completed)"
  by (auto simp: all_completed_def list_all_iff ran_def checkpoint_def map_of_eq_Some_iff)

lemma deps_of_find:
  "deps_of (steps_of e) i = (case find_step e i of Some s \<Rightarrow> depends_on s | None \<Rightarrow> [])"
  by (simp add: deps_of_def find_step_def)

lemma engine_inv_exhausted: "engine_inv e \<Longrightarrow> engine_inv (e\<lparr>eng_status := WorkflowStatus.BudgetExhausted\<rparr>)"
proof -
  let ?e = "e\<lparr>eng_status := WorkflowStatus.BudgetExhausted\<rparr>"
  have "cp_ok ?e = cp_ok e"
    using step_completed_cong [of ?e e] retries_of_cong [of ?e e] by (simp add: cp_ok_def fun_eq_iff)
  then show "engine_inv e \<Longrightarrow> engine_inv ?e" by (simp add: engine_inv_def status_ok_def)
qed

text \<open>What every operation on a step does: replace the checkpoint of a step that was not completed.\<close>

lemma engine_inv_put:
  assumes inv: "engine_inv e" and cp: "checkpoint e i = Some cp" "cp_status cp \<noteq> StepStatus.Completed"
    and e': "eng_recipe e' = eng_recipe e" "eng_budget e' = eng_budget e"
      "eng_checkpoints e' = AList.update i cp' (eng_checkpoints e)"
    and deps: "cp_status cp' \<in> {StepStatus.Running, StepStatus.Completed, StepStatus.Failed} \<Longrightarrow>
                 \<forall>d \<in> set (deps_of (steps_of e) i). step_completed e d"
    and cp': "cp_step_id cp' = i"
      "cp_status cp' = StepStatus.Failed \<longleftrightarrow> retries_of e i < cp_attempts cp'"
      "unat (cp_attempts cp') \<le> unat (retries_of e i) + 1"
    and status: "status_ok e'"
  shows "engine_inv e'"
proof -
  have cps: "checkpoint e' j = (if j = i then Some cp' else checkpoint e j)" for j
    by (simp add: checkpoint_def e' update_conv')
  have keep: "step_completed e' d" if "step_completed e d" for d
    using that cp by (auto simp: step_completed_def cps)
  have ret: "retries_of e' = retries_of e" by (rule retries_of_cong [OF e'(1,2)])
  have "cp_ok e' i cp'" using deps cp' keep by (auto simp: cp_ok_def ret e'(1))
  moreover have "cp_ok e' j c" if "checkpoint e j = Some c" for j c
    using inv that keep by (auto simp: engine_inv_def cp_ok_def ret e'(1))
  moreover have "map fst (eng_checkpoints e') = map fst (eng_checkpoints e)"
    using cp(1) map_of_SomeD [of "eng_checkpoints e" i cp]
    by (auto simp: e' update_keys checkpoint_def image_iff Bex_def)
  ultimately show ?thesis
    using inv status by (auto simp: engine_inv_def cps e'(1) split: if_splits)
qed

lemma ensure_runnable_iff: "ensure_runnable e = Inr u \<longleftrightarrow> unfinished e"
  by (cases "eng_status e") (simp_all add: ensure_runnable_def)

lemma begin_checks_ok:
  "begin_checks i e = (Inr cp, e') \<Longrightarrow>
   e' = e \<and> unfinished e \<and> checkpoint e i = Some cp \<and> cp_status cp = StepStatus.Pending
   \<and> (\<forall>d \<in> set (deps_of (steps_of e) i). step_completed e d)"
  using ensure_runnable_iff [of e]
  by (auto simp: begin_checks_def blocking_deps_def deps_of_find Let_def filter_empty_conv
      split: sum.splits option.splits if_splits)

lemma begin_checks_err:
  "begin_checks i e = (Inl err, e') \<Longrightarrow> e' = e \<or> e' = e\<lparr>eng_status := WorkflowStatus.BudgetExhausted\<rparr>"
  by (auto simp: begin_checks_def Let_def split: sum.splits option.splits if_splits)

lemma ran_put_cases: "c \<in> ran (checkpoint (put_checkpoint i cp e)) \<Longrightarrow> c = cp \<or> c \<in> ran (checkpoint e)"
  by (auto simp: ran_def split: if_splits)

lemma ran_put_new [simp]: "cp \<in> ran (checkpoint (put_checkpoint i cp e))"
  by (auto simp: ran_def)

lemma status_ok_unfinished:
  "unfinished e \<Longrightarrow> status_ok e \<longleftrightarrow>
     (\<forall>cp \<in> ran (checkpoint e). cp_status cp \<notin> {StepStatus.Failed, StepStatus.Cancelled})
     \<and> (\<exists>cp \<in> ran (checkpoint e). cp_status cp \<noteq> StepStatus.Completed)"
  by (auto simp: status_ok_def)

lemma status_ok_put:
  assumes "status_ok e" "unfinished e" "cp_status cp \<in> {StepStatus.Pending, StepStatus.Running}"
  shows "status_ok (put_checkpoint i cp e)"
proof -
  have un: "unfinished (put_checkpoint i cp e)" using assms(2) by simp
  have "\<forall>c \<in> ran (checkpoint e). cp_status c \<notin> {StepStatus.Failed, StepStatus.Cancelled}"
    using assms(1) unfolding status_ok_unfinished [OF assms(2)] by blast
  then have "\<forall>c \<in> ran (checkpoint (put_checkpoint i cp e)).
      cp_status c \<notin> {StepStatus.Failed, StepStatus.Cancelled}"
    using assms(3) by (auto dest: ran_put_cases)
  moreover have "cp_status cp \<noteq> StepStatus.Completed" using assms(3) by auto
  ultimately show ?thesis
    unfolding status_ok_unfinished [OF un] using ran_put_new by blast
qed

lemma engine_inv_begin_put:
  assumes inv: "engine_inv e" and ok: "begin_checks i e = (Inr cp, e')"
    and cp': "cp_status cp' = StepStatus.Running" "cp_attempts cp' = cp_attempts cp" "cp_step_id cp' = cp_step_id cp"
  shows "engine_inv (put_checkpoint i cp' e)"
proof -
  note b = begin_checks_ok [OF ok]
  have cpi: "cp_ok e i cp" using inv b by (simp add: engine_inv_def)
  have ok: "status_ok (put_checkpoint i cp' e)"
    using inv b cp'(1) by (intro status_ok_put) (simp_all add: engine_inv_def)
  show ?thesis
  proof (rule engine_inv_put [OF inv])
    show "checkpoint e i = Some cp" "cp_status cp \<noteq> StepStatus.Completed" using b by simp_all
    show "eng_checkpoints (put_checkpoint i cp' e) = AList.update i cp' (eng_checkpoints e)"
      by (simp add: put_checkpoint_def)
  qed (use b cp' cpi ok in \<open>simp_all add: cp_ok_def\<close>)
qed

lemma engine_inv_new:
  assumes "\<forall>xs. mset (order xs) = mset xs" and "engine_new order recipe budget = Some (Inr e)"
  shows "engine_inv e"
proof -
  have valid: "validate_recipe order recipe = Some (Inr ())"
    using assms(2) by (auto simp: engine_new_def rbind_eq_Inr_iff)
  have ok: "recipe_ok (recipe_steps recipe)" by (rule validate_recipe_sound [OF assms(1) valid])
  let ?cp = "\<lambda>i. \<lparr>cp_step_id = i, cp_status = StepStatus.Pending, cp_result = None, cp_attempts = 0,
      cp_schedule_id = None, cp_result_slot = None\<rparr>"
  have e: "e = \<lparr>eng_recipe = recipe, eng_budget = budget,
      eng_checkpoints = map (\<lambda>s. (step_id s, ?cp (step_id s))) (recipe_steps recipe),
      eng_tokens_used = 0, eng_wall_ms_used = 0, eng_status = WorkflowStatus.Idle\<rparr>"
    using assms(2) valid by (simp add: engine_new_def)
  have cps: "checkpoint e i = (if i \<in> set (ids_of (recipe_steps recipe)) then Some (?cp i) else None)" for i
  proof -
    have "map_of (map (\<lambda>s. (step_id s, ?cp (step_id s))) ss) i =
        (if i \<in> set (ids_of ss) then Some (?cp i) else None)" for ss
      by (induction ss) auto
    then show ?thesis by (simp add: checkpoint_def e)
  qed
  obtain s where "s \<in> set (recipe_steps recipe)" using ok by (cases "recipe_steps recipe") (auto simp: recipe_ok_def)
  then have "?cp (step_id s) \<in> ran (checkpoint e)" by (auto simp: ran_def cps intro!: exI [of _ "step_id s"])
  moreover have "unfinished e" by (simp add: e)
  moreover have "cp_status c = StepStatus.Pending" if "c \<in> ran (checkpoint e)" for c
    using that by (auto simp: ran_def cps split: if_splits)
  ultimately have "status_ok e" by (subst status_ok_unfinished) (auto intro!: bexI [of _ "?cp (step_id s)"])
  moreover have "cp_ok e i cp" if "checkpoint e i = Some cp" for i cp
    using that by (auto simp: cp_ok_def cps split: if_splits)
  ultimately show ?thesis
    using ok by (simp add: engine_inv_def) (simp add: e comp_def)
qed

lemma engine_inv_start: "engine_inv e \<Longrightarrow> engine_inv (snd (workflow_start e))"
proof -
  assume inv: "engine_inv e"
  let ?e = "e\<lparr>eng_status := WorkflowStatus.Running\<rparr>"
  have "cp_ok ?e = cp_ok e"
    using step_completed_cong [of ?e e] retries_of_cong [of ?e e] by (simp add: cp_ok_def fun_eq_iff)
  then have "engine_inv ?e" if "eng_status e = WorkflowStatus.Idle"
    using inv that by (simp add: engine_inv_def status_ok_unfinished)
  then show ?thesis using inv by (simp add: workflow_start_def split: WorkflowStatus.split)
qed

lemma engine_inv_begin: "engine_inv e \<Longrightarrow> engine_inv (snd (begin_step i e))"
proof -
  assume inv: "engine_inv e"
  show ?thesis
  proof (cases "begin_checks i e")
    case (Pair res e')
    then show ?thesis
      using inv begin_checks_err [of i e _ e'] begin_checks_ok [of i e _ e']
        engine_inv_begin_put [OF inv, of i _ e'] engine_inv_exhausted [OF inv]
      by (cases res) (auto simp: begin_step_def)
  qed
qed

lemma engine_inv_begin_sched: "engine_inv e \<Longrightarrow> engine_inv (fst (snd (begin_step_with_scheduler i (e, sch))))"
proof -
  assume inv: "engine_inv e"
  show ?thesis
  proof (cases "begin_checks i e")
    case (Pair res e')
    then show ?thesis
      using inv begin_checks_err [of i e _ e'] begin_checks_ok [of i e _ e']
        engine_inv_begin_put [OF inv, of i _ e'] engine_inv_exhausted [OF inv]
      by (cases res) (auto simp: begin_step_with_scheduler_def split: sum.split option.split prod.split)
  qed
qed

text \<open>Completion: the counters do not matter to the invariant, the new status does.\<close>

lemma complete_step_cases:
  assumes "complete_step i result tokens wall_ms e = (r, e')"
  obtains (refused) "e' = e"
    | (finished) cp where "unfinished e" "checkpoint e i = Some cp" "cp_status cp = StepStatus.Running"
        "eng_recipe e' = eng_recipe e" "eng_budget e' = eng_budget e"
        "eng_checkpoints e' = AList.update i
           (cp\<lparr>cp_status := StepStatus.Completed, cp_result := Some result\<rparr>) (eng_checkpoints e)"
        "eng_status e' = WorkflowStatus.BudgetExhausted
         \<or> all_completed e' \<and> eng_status e' = WorkflowStatus.Completed
         \<or> \<not> all_completed e' \<and> eng_status e' = eng_status e"
  using assms ensure_runnable_iff [of e]
  by (auto simp: complete_step_def Let_def put_checkpoint_def all_completed_def
      split: sum.splits option.splits if_splits)

lemma engine_inv_complete:
  assumes inv: "engine_inv e"
  shows "engine_inv (snd (complete_step i result tokens wall_ms e))"
proof (cases "complete_step i result tokens wall_ms e")
  case (Pair r e')
  from Pair show ?thesis
  proof (cases rule: complete_step_cases)
    case refused
    then show ?thesis using inv Pair by simp
  next
    case (finished cp)
    let ?cp = "cp\<lparr>cp_status := StepStatus.Completed, cp_result := Some result\<rparr>"
    have cpi: "cp_ok e i cp" using inv finished by (simp add: engine_inv_def)
    have cps: "checkpoint e' = checkpoint (put_checkpoint i ?cp e)"
      by (simp add: fun_eq_iff checkpoint_def finished(6) put_checkpoint_def)
    have "distinct (map fst (eng_checkpoints e'))"
      using engine_inv_distinct [OF inv] by (simp add: finished(6) distinct_update)
    note all = all_completed_iff [OF this]
    have "status_ok e" using inv by (simp add: engine_inv_def)
    then have old: "\<forall>c \<in> ran (checkpoint e). cp_status c \<notin> {StepStatus.Failed, StepStatus.Cancelled}"
      unfolding status_ok_unfinished [OF finished(1)] by blast
    then have good: "\<forall>c \<in> ran (checkpoint e'). cp_status c \<notin> {StepStatus.Failed, StepStatus.Cancelled}"
      unfolding cps by (auto dest!: ran_put_cases)
    from finished(7) consider "eng_status e' = WorkflowStatus.BudgetExhausted"
      | "all_completed e'" "eng_status e' = WorkflowStatus.Completed"
      | "\<not> all_completed e'" "eng_status e' = eng_status e" by blast
    then have "status_ok e'"
    proof cases
      case 3
      then have "unfinished e'" using finished(1) by simp
      from status_ok_unfinished [OF this] show ?thesis using 3 good all by blast
    qed (use all in \<open>simp_all add: status_ok_def\<close>)
    then show ?thesis
      unfolding Pair snd_conv
      using finished cpi by (intro engine_inv_put [OF inv, of i cp e' ?cp]) (simp_all add: cp_ok_def)
  qed
qed

lemma fail_step_cases:
  assumes "fail_step i reason tokens wall_ms e = (r, e')"
  obtains (refused) "e' = e" "r \<noteq> Inr ()" "\<forall>j. r \<noteq> Inl (RetriesExhausted j)"
    | (failed) cp cp' where "unfinished e" "checkpoint e i = Some cp" "cp_status cp = StepStatus.Running"
        "eng_recipe e' = eng_recipe e" "eng_budget e' = eng_budget e"
        "eng_checkpoints e' = AList.update i cp' (eng_checkpoints e)"
        "cp_step_id cp' = cp_step_id cp" "cp_attempts cp' = saturating_add (cp_attempts cp) 1"
        "cp_status cp' = (if cp_attempts cp' \<le> retries_of e i then StepStatus.Pending else StepStatus.Failed)"
        "eng_status e' = WorkflowStatus.BudgetExhausted
         \<or> cp_status cp' = StepStatus.Failed \<and> eng_status e' = WorkflowStatus.Failed
         \<or> cp_status cp' \<noteq> StepStatus.Failed \<and> eng_status e' = eng_status e"
proof (cases "rbind (ensure_runnable e) (\<lambda>_. ok_or (effective_max_retries e i) (UnknownStep i))")
  case (Inl err)
  then have "\<forall>j. err \<noteq> RetriesExhausted j"
    by (auto simp: ensure_runnable_def ok_or_def split: WorkflowStatus.splits option.splits if_splits)
  then show ?thesis using assms refused Inl by (auto simp: fail_step_def)
next
  case (Inr m)
  then have m: "unfinished e" "effective_max_retries e i = Some m" "retries_of e i = m"
    using ensure_runnable_iff [of e] by (auto simp: rbind_eq_Inr_iff ok_or_eq_Inr_iff retries_of_def)
  show ?thesis
  proof (cases "\<exists>cp. checkpoint e i = Some cp \<and> cp_status cp = StepStatus.Running")
    case False
    then show ?thesis
      using assms refused Inr by (auto simp: fail_step_def split: option.splits if_splits)
  next
    case True
    then obtain cp where cp: "checkpoint e i = Some cp" "cp_status cp = StepStatus.Running" by blast
    let ?a = "saturating_add (cp_attempts cp) 1"
    let ?cp = "cp\<lparr>cp_attempts := ?a, cp_result := Some reason,
        cp_status := if ?a \<le> m then StepStatus.Pending else StepStatus.Failed\<rparr>"
    show ?thesis
      using assms Inr cp m
      by (intro failed [of cp ?cp])
         (auto simp: fail_step_def Let_def put_checkpoint_def checkpoint_def update_conv'
           split: option.splits if_splits)
  qed
qed

lemma engine_inv_fail:
  assumes inv: "engine_inv e"
  shows "engine_inv (snd (fail_step i reason tokens wall_ms e))"
proof (cases "fail_step i reason tokens wall_ms e")
  case (Pair r e')
  from Pair show ?thesis
  proof (cases rule: fail_step_cases)
    case refused
    then show ?thesis using inv Pair by simp
  next
    case (failed cp cp')
    have cpi: "cp_ok e i cp" using inv failed by (simp add: engine_inv_def)
    have cps: "checkpoint e' = checkpoint (put_checkpoint i cp' e)"
      by (simp add: fun_eq_iff checkpoint_def failed(6) put_checkpoint_def)
    from failed(10) consider "eng_status e' = WorkflowStatus.BudgetExhausted"
      | "cp_status cp' = StepStatus.Failed" "eng_status e' = WorkflowStatus.Failed"
      | "cp_status cp' = StepStatus.Pending" "eng_status e' = eng_status e"
      using failed(9) by (auto split: if_splits)
    then have "status_ok e'"
    proof cases
      case 2
      then show ?thesis using ran_put_new [of cp' i e] by (auto simp: status_ok_def cps)
    next
      case 3
      have "status_ok (put_checkpoint i cp' e)"
        using inv failed(1) 3 by (intro status_ok_put) (simp_all add: engine_inv_def)
      then show ?thesis using 3 by (simp add: status_ok_def cps)
    qed (simp add: status_ok_def)
    moreover have "unat (cp_attempts cp') \<le> unat (retries_of e i) + 1"
      using cpi failed(3,8) by (auto simp: cp_ok_def unat_saturating_add not_less word_le_nat_alt)
    ultimately show ?thesis
      unfolding Pair snd_conv
      using failed cpi by (intro engine_inv_put [OF inv, of i cp e' cp']) (auto simp: cp_ok_def not_le)
  qed
qed

lemma engine_inv_cancel:
  assumes inv: "engine_inv e"
  shows "engine_inv (workflow_cancel e)"
proof (cases "unfinished e")
  case False
  then have "workflow_cancel e = e" by (cases "eng_status e") (simp_all add: workflow_cancel_def)
  then show ?thesis using inv by simp
next
  case True
  define e' where "e' = e\<lparr>eng_checkpoints := map (\<lambda>(i, cp). (i, cancel_checkpoint cp)) (eng_checkpoints e),
      eng_status := WorkflowStatus.Cancelled\<rparr>"
  have e: "workflow_cancel e = e'" using True by (auto simp: workflow_cancel_def e'_def)
  have fields: "eng_recipe e' = eng_recipe e" "eng_budget e' = eng_budget e"
    "eng_status e' = WorkflowStatus.Cancelled" "map fst (eng_checkpoints e') = map fst (eng_checkpoints e)"
    by (simp_all add: e'_def comp_def split_def)
  have cps: "checkpoint e' i = map_option cancel_checkpoint (checkpoint e i)" for i
    by (simp add: checkpoint_def map_of_map e'_def)
  have compl: "step_completed e' = step_completed e"
  proof
    show "step_completed e' d = step_completed e d" for d
      by (cases "checkpoint e d") (simp_all add: step_completed_def cps cancel_checkpoint_def)
  qed
  have ret: "retries_of e' = retries_of e" by (rule retries_of_cong) (rule fields)+
  have "cp_ok e' i (cancel_checkpoint cp)" if "checkpoint e i = Some cp" for i cp
  proof -
    have "cp_ok e i cp" using inv that by (simp add: engine_inv_def)
    then show ?thesis by (auto simp: cp_ok_def compl ret fields cancel_checkpoint_def)
  qed
  moreover have "status_ok e'"
  proof -
    have "cp_status (cancel_checkpoint c) \<notin> {StepStatus.Pending, StepStatus.Running}" for c by (simp add: cancel_checkpoint_def)
    then have "\<forall>c \<in> ran (checkpoint e'). cp_status c \<notin> {StepStatus.Pending, StepStatus.Running}"
      unfolding ran_def cps by fast
    then show ?thesis by (simp add: status_ok_def fields)
  qed
  ultimately have "engine_inv e'"
    using inv by (auto simp: engine_inv_def cps fields)
  then show ?thesis unfolding e .
qed

lemma complete_with_scheduler_engine:
  "fst (snd (complete_step_with_scheduler i result tokens wall_ms (e, sch))) \<in>
     {e, snd (complete_step i result tokens wall_ms e)}"
  by (auto simp: complete_step_with_scheduler_def split: sum.splits prod.splits)

lemma engine_inv_step: "engine_step c c' \<Longrightarrow> engine_inv (fst c) \<Longrightarrow> engine_inv (fst c')"
proof (induction rule: engine_step.induct)
  case (es_begin_sched c i)
  then show ?case by (cases c) (simp add: engine_inv_begin_sched)
next
  case (es_complete_sched c i result tokens wall_ms)
  then show ?case
    using complete_with_scheduler_engine [of i result tokens wall_ms "fst c" "snd c"]
    by (auto simp: engine_inv_complete)
next
  case (es_cancel_sched c)
  then show ?case by (cases c) (simp add: cancel_with_scheduler_def engine_inv_cancel)
qed (simp_all add: engine_inv_start engine_inv_begin engine_inv_complete engine_inv_fail engine_inv_cancel)

lemma engine_run_inv: "engine_run c c' \<Longrightarrow> engine_inv (fst c) \<Longrightarrow> engine_inv (fst c')"
  by (induction rule: engine_run.induct) (auto intro: engine_inv_step)

section \<open>No deadlock\<close>

lemma is_ready_iff:
  assumes "engine_inv e"
  shows "is_ready e i \<longleftrightarrow> i \<in> set (ids_of (steps_of e))
           \<and> (\<exists>cp. checkpoint e i = Some cp \<and> cp_status cp = StepStatus.Pending)
           \<and> (\<forall>d \<in> set (deps_of (steps_of e) i). step_completed e d)"
proof -
  have "find_step e i = None \<longleftrightarrow> i \<notin> set (ids_of (steps_of e))"
    by (auto simp: find_step_def find_None_iff)
  then show ?thesis
    by (auto simp: is_ready_def deps_of_find list_all_iff split: option.splits)
qed

lemma some_step_ready:
  assumes inv: "engine_inv e" and un: "unfinished e"
    and idle: "\<forall>cp \<in> ran (checkpoint e). cp_status cp \<noteq> StepStatus.Running"
  shows "\<exists>s \<in> set (steps_of e). is_ready e (step_id s)"
proof (rule ccontr)
  assume none: "\<not> ?thesis"
  have ok: "recipe_ok (steps_of e)" and "status_ok e" using inv by (simp_all add: engine_inv_def)
  then have st: "\<forall>cp \<in> ran (checkpoint e). cp_status cp \<notin> {StepStatus.Failed, StepStatus.Cancelled}"
    "\<exists>cp \<in> ran (checkpoint e). cp_status cp \<noteq> StepStatus.Completed"
    using status_ok_unfinished [OF un] by simp_all
  have status: "cp_status cp = StepStatus.Pending \<or> cp_status cp = StepStatus.Completed"
    if "checkpoint e n = Some cp" for n cp
    using st(1) idle ranI [of "checkpoint e", OF that] by (cases "cp_status cp") auto
  have closed: "n \<in> Collect (step_completed e)"
    if n: "n \<in> set (ids_of (steps_of e))" "set (deps_of (steps_of e) n) \<subseteq> Collect (step_completed e)" for n
  proof -
    obtain cp where cp: "checkpoint e n = Some cp" using engine_inv_checkpoint [OF inv n(1)] by blast
    have "cp_status cp \<noteq> StepStatus.Pending"
      using none n cp is_ready_iff [OF inv, of n] by auto
    then show ?thesis using status [OF cp] cp by (simp add: step_completed_def)
  qed
  have "set (ids_of (steps_of e)) \<subseteq> Collect (step_completed e)"
    using ok closed deps_of_known [of "steps_of e"]
    by (intro acyclic_closed [of "steps_of e"]) (auto simp: recipe_ok_def)
  moreover obtain n cp where cp: "checkpoint e n = Some cp" "cp_status cp \<noteq> StepStatus.Completed"
    using st(2) by (auto simp: ran_def)
  moreover have "n \<in> set (ids_of (steps_of e))"
  proof -
    have "n \<in> set (map fst (eng_checkpoints e))"
      using map_of_SomeD [of "eng_checkpoints e" n cp] cp(1) by (force simp: checkpoint_def)
    then show ?thesis using inv unfolding engine_inv_def by metis
  qed
  ultimately show False by (auto simp: step_completed_def)
qed

lemma next_ready_Some:
  assumes "engine_inv e" "unfinished e" "\<exists>s \<in> set (steps_of e). is_ready e (step_id s)"
  shows "\<exists>s. next_ready_step e = Some s \<and> s \<in> set (steps_of e) \<and> is_ready e (step_id s)"
proof -
  obtain s where "List.find (\<lambda>s. is_ready e (step_id s)) (steps_of e) = Some s"
    using assms(3) by (fastforce simp: find_None_iff simp flip: not_None_eq)
  then show ?thesis using assms(2) find_Some_mem by (fastforce simp: next_ready_step_def)
qed

lemma ready_begins:
  assumes inv: "engine_inv e" and "unfinished e" "is_ready e i" "workflow_budget_exceeded e = None"
  shows "fst (begin_step i e) = Inr ()"
proof -
  obtain cp where "checkpoint e i = Some cp" "cp_status cp = StepStatus.Pending"
    "\<forall>d \<in> set (deps_of (steps_of e) i). step_completed e d"
    using assms(3) is_ready_iff [OF inv] by blast
  moreover have "ensure_runnable e = Inr ()" using assms(2) by (simp add: ensure_runnable_iff)
  moreover have "blocking_deps e i = filter (\<lambda>d. \<not> step_completed e d) (deps_of (steps_of e) i)"
    by (simp add: blocking_deps_def deps_of_find split: option.split)
  ultimately show ?thesis
    using assms(4) by (simp add: begin_step_def begin_checks_def Let_def filter_False)
qed

section \<open>Properties\<close>

text \<open>
  C23. In every state a workflow can reach, whatever operations were called in whatever
  order and whatever else used the scheduler: a step that is running, completed or failed has all
  its dependencies completed; a step has failed for good exactly when it has failed more often than
  its retries allow, and then exactly one time more; a workflow reports \<open>Completed\<close> only when every
  step is, and a cancelled workflow has no step left pending or running.
\<close>

theorem workflow_invariant:
  assumes order: "\<forall>xs. mset (order xs) = mset xs"
    and init: "engine_new order recipe budget = Some (Inr e0)"
    and run: "engine_run (e0, sch0) (e, sch)" and cp: "checkpoint e i = Some cp"
  shows "(cp_status cp \<in> {StepStatus.Running, StepStatus.Completed, StepStatus.Failed} \<longrightarrow>
            (\<forall>d \<in> set (deps_of (steps_of e) i). step_completed e d))
         \<and> (cp_status cp = StepStatus.Failed \<longleftrightarrow> unat (cp_attempts cp) = unat (retries_of e i) + 1)
         \<and> (eng_status e = WorkflowStatus.Completed \<longrightarrow> cp_status cp = StepStatus.Completed)
         \<and> (eng_status e = WorkflowStatus.Cancelled \<longrightarrow>
              cp_status cp \<notin> {StepStatus.Pending, StepStatus.Running})"
proof -
  have inv: "engine_inv e" using engine_run_inv [OF run] engine_inv_new [OF order init] by simp
  then have "cp_ok e i cp" "status_ok e" using cp by (simp_all add: engine_inv_def)
  then show ?thesis
    using ranI [of "checkpoint e", OF cp] by (auto simp: cp_ok_def status_ok_def word_less_nat_alt)
qed

definition demo_recipe :: WorkflowRecipe where
  "demo_recipe = \<lparr>recipe_id = ''w'', recipe_name = ''W'', recipe_steps =
     [workflow_step ''a'' ''A'' (Some ''Build'') [], workflow_step ''b'' ''B'' (Some ''Build'') []]\<rparr>"

definition demo_budget :: "u64 option \<Rightarrow> WorkflowBudget" where
  "demo_budget tokens = \<lparr>wb_max_tokens = tokens, wb_max_wall_ms = None, wb_max_retries = 1\<rparr>"

definition demo_engine :: "u64 option \<Rightarrow> WorkflowEngine" where
  "demo_engine tokens =
     \<lparr>eng_recipe = demo_recipe, eng_budget = demo_budget tokens,
      eng_checkpoints = map (\<lambda>i. (i,
        \<lparr>cp_step_id = i, cp_status = StepStatus.Pending, cp_result = None, cp_attempts = 0,
         cp_schedule_id = None, cp_result_slot = None\<rparr>)) [''a'', ''b''],
      eng_tokens_used = 0, eng_wall_ms_used = 0, eng_status = WorkflowStatus.Idle\<rparr>"

lemma demo_engine_new: "engine_new rev demo_recipe (demo_budget tokens) = Some (Inr (demo_engine tokens))"
proof -
  have "validate_recipe rev demo_recipe = Some (Inr ())" by code_simp
  then show ?thesis by (simp add: engine_new_def demo_engine_def demo_recipe_def workflow_step_def)
qed

theorem workflow_invariant_witness:
  "\<exists>e cp. engine_run (demo_engine None, scheduler_new) (e, scheduler_new) \<and> checkpoint e ''a'' = Some cp
          \<and> cp_status cp = StepStatus.Running \<and> cp_status cp \<noteq> StepStatus.Failed
          \<and> unat (cp_attempts cp) \<noteq> unat (retries_of e ''a'') + 1"
proof -
  let ?e = "snd (begin_step ''a'' (demo_engine None))"
  have run: "engine_run (demo_engine None, scheduler_new) (?e, scheduler_new)"
    by (rule er_step [OF er_refl es_begin])
  obtain cp where cp: "checkpoint ?e ''a'' = Some cp" "cp_status cp = StepStatus.Running"
    by (simp add: begin_step_def begin_checks_def ensure_runnable_def workflow_budget_exceeded_def
        demo_engine_def demo_budget_def blocking_deps_def find_step_def demo_recipe_def workflow_step_def
        checkpoint_def put_checkpoint_def)
  show ?thesis
    using workflow_invariant [of rev, OF _ demo_engine_new run cp(1)] run cp by auto
qed

text \<open>
  C8. A workflow cannot deadlock: in every reachable state in which it has neither finished
  nor a step running, there is a next ready step, and beginning it succeeds unless the budget is
  used up. This rests on the validation having excluded dependency cycles.
\<close>

theorem workflow_no_deadlock:
  assumes order: "\<forall>xs. mset (order xs) = mset xs"
    and init: "engine_new order recipe budget = Some (Inr e0)"
    and run: "engine_run (e0, sch0) (e, sch)" and un: "unfinished e"
    and idle: "\<forall>cp \<in> ran (checkpoint e). cp_status cp \<noteq> StepStatus.Running"
  shows "\<exists>s. next_ready_step e = Some s
             \<and> (workflow_budget_exceeded e = None \<longrightarrow> fst (begin_step (step_id s) e) = Inr ())"
proof -
  have inv: "engine_inv e" using engine_run_inv [OF run] engine_inv_new [OF order init] by simp
  show ?thesis
    using next_ready_Some [OF inv un some_step_ready [OF inv un idle]] ready_begins [OF inv un] by blast
qed

theorem workflow_no_deadlock_witness:
  "\<exists>s. next_ready_step (demo_engine None) = Some s \<and> fst (begin_step (step_id s) (demo_engine None)) = Inr ()"
proof -
  have "\<forall>cp \<in> ran (checkpoint (demo_engine None)). cp_status cp \<noteq> StepStatus.Running"
    by (auto simp: ran_def checkpoint_def demo_engine_def split: if_splits)
  moreover have "unfinished (demo_engine None)" "workflow_budget_exceeded (demo_engine None) = None"
    by (simp_all add: demo_engine_def workflow_budget_exceeded_def demo_budget_def)
  ultimately show ?thesis
    using workflow_no_deadlock [of rev, OF _ demo_engine_new [of None] er_refl] by simp
qed

text \<open>
  The results of cancelling schedules do not depend on the order in which the checkpoint table is
  visited.
\<close>

lemma schedule_cancel_commute:
  "snd (schedule_cancel i (snd (schedule_cancel j sch))) = snd (schedule_cancel j (snd (schedule_cancel i sch)))"
proof (cases "i = j")
  case False
  then have "AList.update i a (AList.update j b xs) = AList.update j b (AList.update i a xs)"
    if "map_of xs i = Some a'" "map_of xs j = Some b'" for a b a' b' and xs :: "(string \<times> ScheduleRecord) list"
    using that by (induction xs) (auto split: if_splits)
  with False show ?thesis
    by (auto simp: schedule_cancel_def update_conv' split: option.splits)
qed simp

lemma cancel_schedules_order:
  assumes "mset cps = mset cps'"
  shows "cancel_schedules cps sch = cancel_schedules cps' sch"
  unfolding cancel_schedules_def
  by (rule fun_cong [OF fold_multiset_equiv [OF _ assms]])
     (auto simp: fun_eq_iff schedule_cancel_commute split: option.split)

lemma demo_numbers [simp]:
  "pad_zero 4 (nat_to_string (Suc 0)) = ''0001''" "pad_zero 4 (nat_to_string 2) = ''0002''"
  by code_simp+

lemmas engine_eval =
  demo_engine_def demo_budget_def demo_recipe_def workflow_step_def scheduler_new_def
  begin_step_with_scheduler_def begin_checks_def ensure_runnable_def workflow_budget_exceeded_def
  blocking_deps_def find_step_def checkpoint_def put_checkpoint_def step_role_def parse_step_role_def
  parse_label_def schedule_def saturating_add_def fail_step_def effective_max_retries_def
  cancel_with_scheduler_def cancel_schedules_def workflow_cancel_def cancel_checkpoint_def
  schedule_cancel_def sched_record_def sched_active_count_def complete_step_with_scheduler_def
  complete_step_def schedule_complete_def all_completed_def Let_def

text \<open>
  A retried step leaks its schedule. When a scheduled step fails and is begun again, its
  checkpoint takes the identifier of the second schedule and the first stays admitted: cancelling
  the workflow together with its schedules cancels the second and leaves the first counted as active.
\<close>

theorem retried_schedule_leaks:
  "let (e1, s1) = snd (begin_step_with_scheduler ''a'' (demo_engine None, scheduler_new));
       (r2, e2) = fail_step ''a'' ''boom'' 0 0 e1;
       (e3, s3) = snd (begin_step_with_scheduler ''a'' (e2, s1));
       (e4, s4) = cancel_with_scheduler (e3, s3)
   in r2 = Inr () \<and> eng_status e4 = WorkflowStatus.Cancelled
      \<and> map_option schedule_status (sched_record s4 ''sched-0001'') = Some Admitted
      \<and> map_option schedule_status (sched_record s4 ''sched-0002'') = Some ScheduleStatus.Cancelled
      \<and> sched_active_count s4 = 1"
  by (simp add: engine_eval)

text \<open>
  Once the budget is used up, completing another running step through the scheduler is
  refused by the engine, which leaves the step running and without a result, and yet the scheduler
  records the step's schedule as completed with the result.
\<close>

theorem exhausted_completion_splits:
  "let c1 = snd (begin_step_with_scheduler ''a'' (demo_engine (Some 5), scheduler_new));
       c2 = snd (begin_step_with_scheduler ''b'' c1);
       (r3, c3) = complete_step_with_scheduler ''a'' ''ok'' 9 0 c2;
       (r4, e, s) = complete_step_with_scheduler ''b'' ''ok'' 0 0 c3
   in r3 = Inl (WorkflowError.BudgetExhausted ''tokens'')
      \<and> r4 = Inl (WorkflowError.BudgetExhausted ''exhausted'')
      \<and> map_option cp_status (checkpoint e ''b'') = Some StepStatus.Running
      \<and> map_option schedule_result (sched_record s ''sched-0002'') = Some (Some ''ok'')"
  by (simp add: engine_eval)

end
