(* ===== verification/Events.thy ===== *)
theory Events
  imports Protocol_Types
begin

text \<open>
  The events of a session log, \<open>crates/impetus-protocol/src/events.rs\<close>: the event record, one
  datatype per family of payloads, the bounds on previews and child activity, and the
  translation of legacy rows. Enums of different families share constructor names
  (\<open>Started\<close>, \<open>Output\<close>), which are written qualified.

  \<open>json\<close> is \<open>serde_json::Value\<close>; a number is kept as its text. Sequence numbers and
  times are natural numbers.
\<close>

section \<open>JSON values\<close>

datatype json =
    Null | Bool bool | Number string | String string
  | Array "json list" | Object "(string \<times> json) list"

fun json_get :: "json \<Rightarrow> string \<Rightarrow> json option" where
  "json_get (Object entries) key = map_of entries key"
| "json_get _ key = None"

fun json_as_str :: "json \<Rightarrow> string option" where
  "json_as_str (String s) = Some s"
| "json_as_str _ = None"

section \<open>Payloads\<close>

type_synonym DurableArtifactRef = ArtifactRef

datatype SessionEvent =
    Created | WorkspaceRoot string | Attached | ExecutionModeChanged ExecutionMode

datatype RunEvent =
    Started uuid | Completed uuid | Failed uuid string | Cancelled uuid | InterruptedUnknown uuid

record IntentEvent =
  intent_text :: string
  intent_artifact :: "DurableArtifactRef option"
  intent_intent :: UserPromptIntent

definition intent_new :: "string \<Rightarrow> IntentEvent" where
  "intent_new text = \<lparr>intent_text = text, intent_artifact = None, intent_intent = Prompt\<rparr>"

definition intent_with_artifact :: "string \<Rightarrow> DurableArtifactRef \<Rightarrow> IntentEvent" where
  "intent_with_artifact text artifact =
     \<lparr>intent_text = text, intent_artifact = Some artifact, intent_intent = Prompt\<rparr>"

definition intent_with_intent ::
    "string \<Rightarrow> UserPromptIntent \<Rightarrow> DurableArtifactRef option \<Rightarrow> IntentEvent" where
  "intent_with_intent text intent artifact =
     \<lparr>intent_text = text, intent_artifact = artifact, intent_intent = intent\<rparr>"

record PlanEvent =
  plan_summary :: string

datatype ToolEventOutcome = Success | Error | Denied | ApprovalRequired

datatype ToolEvent =
    Started (tool_name: string) (tool_call: "string option")
  | Finished (tool_name: string) (tool_summary: string) (tool_call: "string option")
  | Observed (tool_call_id: string) (tool_name: string) (arguments_summary: string)
      (tool_outcome: ToolEventOutcome) (tool_preview: string)
      (tool_artifact: "DurableArtifactRef option") (tool_error: "string option")
  | Deferred (deferred_approval_id: uuid) (tool_call_id: string) (tool_name: string)
      (deferred_arguments: json)
  | Output (tool_call_id: string) (tool_name: string) (tool_preview: string)
  | FileRead (tool_call_id: string) (read_path: string) (read_bytes: nat) (tool_preview: string)
  | SearchStarted (tool_call_id: string) (search_pattern: string) (search_target: string)
  | SearchResult (tool_call_id: string) (match_count: nat) (tool_preview: string)

datatype PtyEvent =
    Started nat string "string option"
  | Output nat string nat bool
  | Spill nat DurableArtifactRef nat
  | Exited nat "int option"

datatype CommandEvent =
    Started string string
  | Output string string
  | Finished string "int option" "string option"

datatype EffectFenceEvent =
    Prepared (fence_effect_id: uuid) (fence_args_digest: string) (fence_kind: string)
      (fence_target_label: "string option")
  | Started (fence_effect_id: uuid) (fence_args_digest: string)
  | Observed (fence_effect_id: uuid) (fence_args_digest: string) (fence_summary: string)
  | Failed (fence_effect_id: uuid) (fence_args_digest: string) (fence_reason: string)
  | Unknown (fence_effect_id: uuid) (fence_args_digest: string) (fence_reason: string)

datatype OfflineBatchEvent =
    Submitted (batch_id: uuid) (config_digest: string) (item_count: u32)
  | ProviderLinked (batch_id: uuid) (config_digest: string) (provider_job_id: string)
  | Collecting (batch_id: uuid) (config_digest: string)
  | ItemDelivered (batch_id: uuid) (item_id: string) (result_hash: string) (workspace_relpath: string)
  | Delivered (batch_id: uuid) (config_digest: string)
  | Failed (batch_id: uuid) (config_digest: string) (batch_reason: string)
  | Unknown (batch_id: uuid) (config_digest: string) (batch_reason: string)
  | ResubmitRefused (batch_id: uuid) (config_digest: string) (batch_reason: string)

datatype AgentEvent =
    Chunk (agent_run_id: uuid) (chunk_id: nat) (agent_text: string)
      (chunk_artifact: "DurableArtifactRef option")
  | Final (agent_run_id: uuid) (agent_text: string)
  | ReasoningSummary (agent_run_id: uuid) (agent_text: string)

datatype ChildEvent =
    Started (child_id: string) (child_parent_id: string) (child_role: string)
  | StatusChanged (child_id: string) (child_status: string) (current_action: "string option")
  | Progress (child_id: string) (progress_percent: "u8 option") (progress_summary: string)
  | Action (child_id: string) (action_name: string) (action_preview: string)
  | Finished (child_id: string) (child_status: string) (child_summary: "string option")
      (child_error: "string option")

datatype ApprovalEvent = Requested ApprovalRequest | Resolved ApprovalRequest

datatype BackendEvent =
    ProviderHealthy string | ProviderDegraded string string | ProviderUnavailable string string
  | KeychainAvailable | KeychainUnavailable string | TokenExpiryWarning string nat

record CompactionStructuralState =
  structural_workspace_root :: string
  structural_parent_session_id :: "uuid option"
  structural_allow_network :: bool
  structural_allow_web_outbound :: bool
  structural_allow_private_network :: bool
  structural_allowed_hosts :: "string list"
  structural_turns_used :: u32
  structural_tokens_used :: u64
  structural_compaction_count :: u32
  structural_worktree_id :: "string option"

datatype BudgetEvent =
    Updated u32 u64 bool u32 u8
  | CompactionRequired u64 u64
  | CompactionStarted nat nat u64 u64
  | CompactionCompleted u64 u32 nat nat "DurableArtifactRef option" "CompactionStructuralState option"
  | TurnLimitApproaching u32 u32
  | TokenLimitApproaching u64 u64

datatype NoticeEvent =
    PolicyAllowed | PolicyDenied string | Runtime string | Legacy string json

datatype SandboxPrepareState = Prepared | Denied

datatype SandboxDecisionState = Prepared | Denied

record SandboxDecision =
  sandbox_backend :: string
  sandbox_state :: SandboxDecisionState
  sandbox_network_allowed :: bool
  sandbox_writable_root_count :: u32
  sandbox_reason_code :: "string option"

datatype SandboxEvent = Decision string SandboxPrepareState bool u32 "string option"

definition sandbox_event_from_decision :: "SandboxDecision \<Rightarrow> SandboxEvent" where
  "sandbox_event_from_decision d =
     Decision (sandbox_backend d)
       (case sandbox_state d of
          SandboxDecisionState.Prepared \<Rightarrow> SandboxPrepareState.Prepared
        | SandboxDecisionState.Denied \<Rightarrow> SandboxPrepareState.Denied)
       (sandbox_network_allowed d) (sandbox_writable_root_count d) (sandbox_reason_code d)"

datatype RetryEvent = Attempting u32 u32 string nat | Succeeded u32 | Exhausted u32 string

datatype EventPayload =
    Session SessionEvent
  | Run RunEvent
  | Intent IntentEvent
  | Plan PlanEvent
  | Tool ToolEvent
  | Agent AgentEvent
  | Approval ApprovalEvent
  | Backend BackendEvent
  | Budget BudgetEvent
  | Notice NoticeEvent
  | Retry RetryEvent
  | Child ChildEvent
  | Sandbox SandboxEvent
  | Pty PtyEvent
  | Command CommandEvent
  | EffectFence EffectFenceEvent
  | OfflineBatch OfflineBatchEvent

section \<open>Events\<close>

record Event =
  schema_version :: u16
  event_id :: uuid
  session_id :: uuid
  sequence :: nat
  at_unix_ms :: nat
  payload :: EventPayload

definition EVENT_SCHEMA_VERSION :: u16 where
  "EVENT_SCHEMA_VERSION = 1"

definition event_new :: "stamp \<Rightarrow> uuid \<Rightarrow> nat \<Rightarrow> EventPayload \<Rightarrow> Event" where
  "event_new st sid sq p =
     \<lparr>schema_version = EVENT_SCHEMA_VERSION, event_id = fst st, session_id = sid, sequence = sq,
      at_unix_ms = snd st, payload = p\<rparr>"

lemma event_new_sel [simp]:
  "session_id (event_new st sid sq p) = sid"
  "sequence (event_new st sid sq p) = sq"
  "payload (event_new st sid sq p) = p"
  "at_unix_ms (event_new st sid sq p) = snd st"
  "event_id (event_new st sid sq p) = fst st"
  "schema_version (event_new st sid sq p) = EVENT_SCHEMA_VERSION"
  by (simp_all add: event_new_def)

text \<open>
  \<open>legacy_payload\<close>: rows written before the typed payloads. \<open>intent_of\<close> and \<open>request_of\<close> are
  \<open>serde_json::from_value\<close> at the two types; \<open>None\<close> is a JSON error.
\<close>

definition legacy_payload ::
    "(json \<Rightarrow> IntentEvent option) \<Rightarrow> (json \<Rightarrow> ApprovalRequest option) \<Rightarrow> string \<Rightarrow> json
     \<Rightarrow> EventPayload option" where
  "legacy_payload intent_of request_of kind body =
     (if kind = ''user_intent'' then map_option Intent (intent_of body)
      else if kind = ''approval_requested''
      then map_option (\<lambda>r. Approval (Requested r)) (request_of body)
      else if kind = ''approval_resolved''
      then map_option (\<lambda>r. Approval (Resolved r)) (request_of body)
      else if kind = ''runtime_notice''
      then Some (Notice (Runtime
             (unwrap_or (Option.bind (json_get body ''status'') json_as_str) ''legacy runtime notice'')))
      else if kind = ''policy_evaluated''
      then (let decision = Option.bind (json_get body ''decision'') json_as_str in
            if decision = Some ''allow'' then Some (Notice PolicyAllowed)
            else if decision = Some ''deny''
            then Some (Notice (PolicyDenied
                   (unwrap_or (Option.bind (json_get body ''reason'') json_as_str) [])))
            else Some (Notice (Legacy kind body)))
      else Some (Notice (Legacy kind body)))"

section \<open>Bounded activity\<close>

definition MAX_ACTIVITY_PREVIEW_CHARS :: nat where
  "MAX_ACTIVITY_PREVIEW_CHARS = 512"

definition MAX_CHILD_PROGRESS_EVENTS_PER_RUN :: nat where
  "MAX_CHILD_PROGRESS_EVENTS_PER_RUN = 32"

definition MAX_CHILD_ACTION_EVENTS_PER_RUN :: nat where
  "MAX_CHILD_ACTION_EVENTS_PER_RUN = 64"

definition bound_activity_preview :: "string \<Rightarrow> string" where
  "bound_activity_preview text =
     (let flat = take_chars MAX_ACTIVITY_PREVIEW_CHARS text in
      if MAX_ACTIVITY_PREVIEW_CHARS < char_count text then flat @ ellipsis else flat)"

text \<open>The two \<open>&mut\<close> arguments are returned beside the result.\<close>

definition coalesce_child_progress ::
    "string option \<times> nat \<Rightarrow> string \<Rightarrow> string option \<times> (string option \<times> nat)" where
  "coalesce_child_progress = (\<lambda>(last_summary, emitted) summary.
     if MAX_CHILD_PROGRESS_EVENTS_PER_RUN \<le> emitted then (None, (last_summary, emitted))
     else let bounded = bound_activity_preview summary in
          if bounded = [] then (None, (last_summary, emitted))
          else if last_summary = Some bounded then (None, (last_summary, emitted))
          else (Some bounded, (Some bounded, emitted + 1)))"

definition coalesce_child_action :: "nat \<Rightarrow> string \<Rightarrow> string option \<times> nat" where
  "coalesce_child_action emitted preview =
     (if MAX_CHILD_ACTION_EVENTS_PER_RUN \<le> emitted then (None, emitted)
      else let bounded = bound_activity_preview preview in
           if bounded = [] then (None, emitted) else (Some bounded, emitted + 1))"

text \<open>A run of the producer: the summaries of one child in order.\<close>

fun progress_run :: "string option \<times> nat \<Rightarrow> string list \<Rightarrow> string list" where
  "progress_run st [] = []"
| "progress_run st (s # ss) =
     (case coalesce_child_progress st s of
        (None, st') \<Rightarrow> progress_run st' ss
      | (Some row, st') \<Rightarrow> row # progress_run st' ss)"

lemma bound_activity_preview_chars:
  "char_count (bound_activity_preview text) \<le> MAX_ACTIVITY_PREVIEW_CHARS + 1"
  by (simp add: bound_activity_preview_def Let_def char_count_take_chars)

lemma coalesce_child_progress_Some:
  "coalesce_child_progress (lst, n) s = (Some row, st') \<Longrightarrow>
   n < MAX_CHILD_PROGRESS_EVENTS_PER_RUN \<and> row \<noteq> [] \<and> lst \<noteq> Some row
   \<and> row = bound_activity_preview s \<and> st' = (Some row, n + 1)"
  by (auto simp: coalesce_child_progress_def Let_def split: if_splits)

lemma coalesce_child_progress_None:
  "coalesce_child_progress (lst, n) s = (None, st') \<Longrightarrow> st' = (lst, n)"
  by (auto simp: coalesce_child_progress_def Let_def split: if_splits)

lemma progress_run_bounded:
  "n \<le> MAX_CHILD_PROGRESS_EVENTS_PER_RUN \<Longrightarrow>
   length (progress_run (lst, n) ss) + n \<le> MAX_CHILD_PROGRESS_EVENTS_PER_RUN
   \<and> distinct_adj (progress_run (lst, n) ss)
   \<and> (progress_run (lst, n) ss \<noteq> [] \<longrightarrow> lst \<noteq> Some (hd (progress_run (lst, n) ss)))
   \<and> (\<forall>row \<in> set (progress_run (lst, n) ss). row \<noteq> [])"
proof (induction ss arbitrary: lst n)
  case (Cons s ss)
  obtain r st' where Pair: "coalesce_child_progress (lst, n) s = (r, st')" by (rule prod.exhaust)
  show ?case
  proof (cases r)
    case None
    then show ?thesis using Pair coalesce_child_progress_None [of lst n s st'] Cons by simp
  next
    case (Some row)
    have st: "n < MAX_CHILD_PROGRESS_EVENTS_PER_RUN" "row \<noteq> []" "lst \<noteq> Some row"
      "st' = (Some row, n + 1)"
      using coalesce_child_progress_Some [of lst n s row st'] Pair unfolding Some by blast+
    then have "n + 1 \<le> MAX_CHILD_PROGRESS_EVENTS_PER_RUN" by simp
    from Cons.IH [OF this, of "Some row"] st Some Pair show ?thesis
      by (auto simp: distinct_adj_Cons)
  qed
qed simp

section \<open>Properties\<close>

text \<open>
  The durable log of a child cannot be flooded: whatever summaries a child run
  produces, at most 32 progress rows are written, no two consecutive rows are equal, no row
  is empty, and a preview never has more than 513 characters.
\<close>

theorem child_progress_bounded:
  "length (progress_run (None, 0) ss) \<le> 32
   \<and> distinct_adj (progress_run (None, 0) ss)
   \<and> list_all (\<lambda>row. row \<noteq> [] \<and> char_count row \<le> 513) (progress_run (None, 0) ss)"
proof -
  have rows: "row \<in> set (progress_run st ss) \<Longrightarrow> \<exists>s. row = bound_activity_preview s" for st row
  proof (induction ss arbitrary: st)
    case (Cons s ss)
    obtain lst n where st: "st = (lst, n)" by (cases st)
    obtain r st' where p: "coalesce_child_progress (lst, n) s = (r, st')" by (rule prod.exhaust)
    show ?case
    proof (cases r)
      case None
      then show ?thesis using Cons p by (simp add: st)
    next
      case (Some x)
      then have "x = bound_activity_preview s"
        using coalesce_child_progress_Some [of lst n s x st'] p by blast
      then show ?thesis using Cons.prems Cons.IH [of st'] p Some by (auto simp: st)
    qed
  qed simp
  have "char_count row \<le> 513" if "row \<in> set (progress_run (None, 0) ss)" for row
    using rows [OF that] bound_activity_preview_chars by (auto simp: MAX_ACTIVITY_PREVIEW_CHARS_def)
  then show ?thesis
    using progress_run_bounded [of 0 None ss]
    by (auto simp: MAX_CHILD_PROGRESS_EVENTS_PER_RUN_def list_all_iff)
qed

end
