(* ===== verification/Event_Store.thy ===== *)
theory Event_Store
  imports Events
begin

text \<open>
  The event store, \<open>crates/impetus-core/src/storage.rs\<close>: the in-memory implementation with
  forks that share a prefix, checkpoints and deletion; the interface its clients rely on
  as the locale \<open>event_log\<close>; and the interpretation of the interface on the in-memory store.

  What a call draws from the environment is an argument: the random id of a new session or
  checkpoint, and the stamp of a new event. A \<open>limit\<close> of \<open>None\<close> stands for
  \<open>usize::MAX\<close>, which the callers use for an unbounded tail. The three mutexes of the
  store carry a poison flag; a locked operation on a poisoned mutex is an error. The
  broadcast channel is the list of notifications sent.
\<close>

section \<open>Errors and records\<close>

datatype StoreError =
    Poisoned
  | Sqlite
  | Json
  | UnsupportedSchema uuid u16
  | MalformedPayload uuid
  | InvalidUuid string string
  | MissingSession uuid
  | MissingSequence uuid nat
  | MissingCheckpoint uuid
  | DuplicateCheckpointName uuid string
  | EmptyCheckpointName

record SessionInfo =
  info_id :: uuid
  info_created_at :: nat
  info_updated_at :: nat
  info_parent :: "uuid option"
  info_fork_sequence :: "nat option"

record CheckpointInfo =
  checkpoint_id :: uuid
  checkpoint_session :: uuid
  checkpoint_name :: string
  checkpoint_sequence :: nat
  checkpoint_created_at :: nat

record MemorySessionMetadata =
  meta_id :: uuid
  meta_parent :: "uuid option"
  meta_fork_sequence :: "nat option"

record MemoryEventStore =
  ms_events :: "Event list"
  ms_sessions :: "MemorySessionMetadata list"
  ms_checkpoints :: "CheckpointInfo list"
  ms_sent :: "(uuid \<times> nat) list"
  ms_events_poisoned :: bool
  ms_sessions_poisoned :: bool
  ms_checkpoints_poisoned :: bool

definition memory_default :: MemoryEventStore where
  "memory_default =
     \<lparr>ms_events = [], ms_sessions = [], ms_checkpoints = [], ms_sent = [],
      ms_events_poisoned = False, ms_sessions_poisoned = False, ms_checkpoints_poisoned = False\<rparr>"

section \<open>Ancestry\<close>

text \<open>
  \<open>memory_ancestry\<close>: the chain of parents, oldest first, each with the fork sequence of its
  child. A session that was looked up is left out of the further search; this decides only
  whether a cycle of parents is cut, and the stores that the operations build have none
  (\<open>ancestry_unfold\<close> below).
\<close>

function ancestry_from ::
    "MemorySessionMetadata list \<Rightarrow> uuid \<Rightarrow> nat option \<Rightarrow> (uuid \<times> nat option) list" where
  "ancestry_from sessions current fork_seq =
     (case List.find (\<lambda>s. meta_id s = current) sessions of
        None \<Rightarrow> [(current, fork_seq)]
      | Some meta \<Rightarrow>
          (case meta_parent meta of
             None \<Rightarrow> [(current, fork_seq)]
           | Some parent \<Rightarrow>
               ancestry_from (filter (\<lambda>s. meta_id s \<noteq> current) sessions) parent
                 (meta_fork_sequence meta)
               @ [(current, fork_seq)]))"
  by pat_completeness auto
termination
proof (relation "measure (\<lambda>(s, _). length s)", goal_cases)
  case (2 sessions current fork_seq meta parent)
  then have "meta \<in> set sessions" "meta_id meta = current" by (auto dest: find_Some_mem)
  then show ?case by (auto intro!: length_filter_less)
qed simp

declare ancestry_from.simps [simp del]

definition memory_ancestry :: "MemorySessionMetadata list \<Rightarrow> uuid \<Rightarrow> (uuid \<times> nat option) list" where
  "memory_ancestry sessions sid = ancestry_from sessions sid None"

section \<open>Operations of the in-memory store\<close>

text \<open>The filter closure of \<open>logical_head_sequence\<close> and \<open>list_after\<close>.\<close>

definition segment_events :: "Event list \<Rightarrow> bool \<Rightarrow> uuid \<times> nat option \<Rightarrow> Event list" where
  "segment_events events is_current seg =
     filter (\<lambda>e. session_id e = fst seg
                 \<and> (is_current \<or> is_some_and (snd seg) (\<lambda>up_to. sequence e \<le> up_to))) events"

fun head_loop :: "Event list \<Rightarrow> (uuid \<times> nat option) list \<Rightarrow> nat \<Rightarrow> nat" where
  "head_loop events [] acc = acc"
| "head_loop events (seg # segs) acc =
     head_loop events segs (acc + length (segment_events events (segs = []) seg))"

definition logical_head_sequence :: "MemoryEventStore \<Rightarrow> uuid \<Rightarrow> StoreError + nat" where
  "logical_head_sequence st sid =
     (if ms_events_poisoned st \<or> ms_sessions_poisoned st then Inl Poisoned
      else Inr (head_loop (ms_events st) (memory_ancestry (ms_sessions st) sid) 0))"

definition memory_create_session ::
    "MemoryEventStore \<Rightarrow> uuid \<Rightarrow> stamp \<Rightarrow> (StoreError + uuid) \<times> MemoryEventStore" where
  "memory_create_session st new_id stamp =
     (let event = event_new stamp new_id 1 (Session Created) in
      if ms_events_poisoned st then (Inl Poisoned, st)
      else let st1 = st\<lparr>ms_events := ms_events st @ [event]\<rparr> in
      if ms_sessions_poisoned st then (Inl Poisoned, st1)
      else (Inr new_id,
            st1\<lparr>ms_sessions := ms_sessions st1
                  @ [\<lparr>meta_id = new_id, meta_parent = None, meta_fork_sequence = None\<rparr>]\<rparr>))"

definition memory_append ::
    "MemoryEventStore \<Rightarrow> Event \<Rightarrow> (StoreError + unit) \<times> MemoryEventStore" where
  "memory_append st event =
     (if ms_events_poisoned st then (Inl Poisoned, st)
      else (Inr (), st\<lparr>ms_events := ms_events st @ [event],
                       ms_sent := ms_sent st @ [(session_id event, sequence event)]\<rparr>))"

definition memory_append_next ::
    "MemoryEventStore \<Rightarrow> stamp \<Rightarrow> uuid \<Rightarrow> EventPayload \<Rightarrow> (StoreError + Event) \<times> MemoryEventStore" where
  "memory_append_next st stamp sid p =
     (case logical_head_sequence st sid of
        Inl e \<Rightarrow> (Inl e, st)
      | Inr last_sequence \<Rightarrow>
          (let event = event_new stamp sid (last_sequence + 1) p in
           if ms_events_poisoned st then (Inl Poisoned, st)
           else (Inr event,
                 st\<lparr>ms_events := ms_events st @ [event],
                    ms_sent := ms_sent st @ [(session_id event, sequence event)]\<rparr>)))"

text \<open>Events pushed to \<open>out\<close> are numbered from its length on.\<close>

fun renumber :: "nat \<Rightarrow> Event list \<Rightarrow> Event list" where
  "renumber n [] = []"
| "renumber n (e # es) = e\<lparr>sequence := n + 1\<rparr> # renumber (n + 1) es"

fun list_loop ::
    "Event list \<Rightarrow> nat \<Rightarrow> nat option \<Rightarrow> (uuid \<times> nat option) list \<Rightarrow> Event list \<Rightarrow> nat \<Rightarrow> Event list" where
  "list_loop events after limit [] out logical_end = out"
| "list_loop events after limit (seg # segs) out logical_end =
     (let session_events = segment_events events (segs = []) seg;
          count = length session_events;
          segment_start = logical_end
      in if segment_start + count \<le> after
         then list_loop events after limit segs out (logical_end + count)
         else let skip = after - segment_start;
                  tk = (case limit of
                          None \<Rightarrow> count - skip
                        | Some l \<Rightarrow> min (count - skip) (l - length out));
                  out' = out @ renumber (after + length out) (take tk (drop skip session_events))
              in if is_some_and limit (\<lambda>l. l \<le> length out') then out'
                 else list_loop events after limit segs out' (after + length out'))"

definition memory_list_after ::
    "MemoryEventStore \<Rightarrow> uuid \<Rightarrow> nat \<Rightarrow> nat option \<Rightarrow> StoreError + Event list" where
  "memory_list_after st sid after limit =
     (if limit = Some 0 then Inr []
      else if ms_events_poisoned st \<or> ms_sessions_poisoned st then Inl Poisoned
      else Inr (list_loop (ms_events st) after limit (memory_ancestry (ms_sessions st) sid) [] 0))"

definition memory_list :: "MemoryEventStore \<Rightarrow> uuid \<Rightarrow> StoreError + Event list" where
  "memory_list st sid = memory_list_after st sid 0 None"

text \<open>\<open>list_sessions\<close>: the \<open>BTreeMap\<close> is the sorted list of its keys with their times.\<close>

definition session_times :: "Event list \<Rightarrow> nat \<Rightarrow> uuid \<Rightarrow> nat \<times> nat" where
  "session_times events now sid =
     (case filter (\<lambda>e. session_id e = sid) events of
        [] \<Rightarrow> (now, now)
      | e # es \<Rightarrow> (at_unix_ms e, foldl (\<lambda>t e. max t (at_unix_ms e)) (at_unix_ms e) es))"

definition memory_list_sessions :: "MemoryEventStore \<Rightarrow> nat \<Rightarrow> StoreError + SessionInfo list" where
  "memory_list_sessions st now =
     (if ms_events_poisoned st \<or> ms_sessions_poisoned st then Inl Poisoned
      else let ids = sort (remdups (map session_id (ms_events st) @ map meta_id (ms_sessions st))) in
        Inr (map (\<lambda>sid.
               let meta = List.find (\<lambda>s. meta_id s = sid) (ms_sessions st);
                   times = session_times (ms_events st) now sid
               in \<lparr>info_id = sid, info_created_at = fst times, info_updated_at = snd times,
                   info_parent = Option.bind meta meta_parent,
                   info_fork_sequence = Option.bind meta meta_fork_sequence\<rparr>) ids))"

text \<open>\<open>validate_fork_sequence\<close> takes the store's \<open>list\<close>.\<close>

definition validate_fork_sequence :: "(uuid \<Rightarrow> StoreError + Event list) \<Rightarrow> uuid \<Rightarrow> nat \<Rightarrow> StoreError + unit" where
  "validate_fork_sequence list_of source up_to =
     rbind (list_of source)
       (\<lambda>history.
          if history = [] then Inl (MissingSession source)
          else if \<not> list_ex (\<lambda>e. sequence e = up_to) history then Inl (MissingSequence source up_to)
          else Inr ())"

definition memory_fork_session ::
    "MemoryEventStore \<Rightarrow> uuid \<Rightarrow> uuid \<Rightarrow> nat \<Rightarrow> (StoreError + uuid) \<times> MemoryEventStore" where
  "memory_fork_session st new_id source up_to =
     (case validate_fork_sequence (memory_list st) source up_to of
        Inl e \<Rightarrow> (Inl e, st)
      | Inr _ \<Rightarrow>
          if ms_sessions_poisoned st then (Inl Poisoned, st)
          else (Inr new_id,
                st\<lparr>ms_sessions := ms_sessions st
                     @ [\<lparr>meta_id = new_id, meta_parent = Some source,
                         meta_fork_sequence = Some up_to\<rparr>]\<rparr>))"

definition memory_create_checkpoint ::
    "MemoryEventStore \<Rightarrow> uuid \<Rightarrow> nat \<Rightarrow> uuid \<Rightarrow> string \<Rightarrow> nat
     \<Rightarrow> (StoreError + CheckpointInfo) \<times> MemoryEventStore" where
  "memory_create_checkpoint st new_id now sid raw_name sq =
     (let name = trim raw_name in
      if name = [] then (Inl EmptyCheckpointName, st)
      else case validate_fork_sequence (memory_list st) sid sq of
        Inl e \<Rightarrow> (Inl e, st)
      | Inr _ \<Rightarrow>
          if ms_checkpoints_poisoned st then (Inl Poisoned, st)
          else if list_ex (\<lambda>c. checkpoint_session c = sid \<and> checkpoint_name c = name) (ms_checkpoints st)
          then (Inl (DuplicateCheckpointName sid name), st)
          else let checkpoint = \<lparr>checkpoint_id = new_id, checkpoint_session = sid,
                                 checkpoint_name = name, checkpoint_sequence = sq,
                                 checkpoint_created_at = now\<rparr>
               in (Inr checkpoint, st\<lparr>ms_checkpoints := ms_checkpoints st @ [checkpoint]\<rparr>))"

definition memory_list_checkpoints :: "MemoryEventStore \<Rightarrow> uuid \<Rightarrow> StoreError + CheckpointInfo list" where
  "memory_list_checkpoints st sid =
     (if ms_checkpoints_poisoned st then Inl Poisoned
      else Inr (filter (\<lambda>c. checkpoint_session c = sid) (ms_checkpoints st)))"

definition memory_get_checkpoint :: "MemoryEventStore \<Rightarrow> uuid \<Rightarrow> StoreError + CheckpointInfo" where
  "memory_get_checkpoint st cid =
     (if ms_checkpoints_poisoned st then Inl Poisoned
      else ok_or (List.find (\<lambda>c. checkpoint_id c = cid) (ms_checkpoints st)) (MissingCheckpoint cid))"

definition memory_delete_session ::
    "MemoryEventStore \<Rightarrow> uuid \<Rightarrow> (StoreError + unit) \<times> MemoryEventStore" where
  "memory_delete_session st sid =
     (if ms_events_poisoned st then (Inl Poisoned, st)
      else let st1 = st\<lparr>ms_events := filter (\<lambda>e. session_id e \<noteq> sid) (ms_events st)\<rparr> in
      if ms_sessions_poisoned st then (Inl Poisoned, st1)
      else let st2 = st1\<lparr>ms_sessions := filter (\<lambda>s. meta_id s \<noteq> sid) (ms_sessions st1)\<rparr> in
      if ms_checkpoints_poisoned st then (Inl Poisoned, st2)
      else (Inr (), st2\<lparr>ms_checkpoints := filter (\<lambda>c. checkpoint_session c \<noteq> sid) (ms_checkpoints st2)\<rparr>))"

section \<open>What a session sees\<close>

text \<open>The reference for the loops: the segments of the ancestors, then the session's own events.\<close>

fun segments :: "Event list \<Rightarrow> (uuid \<times> nat option) list \<Rightarrow> Event list" where
  "segments events [] = []"
| "segments events (seg # segs) = segment_events events (segs = []) seg @ segments events segs"

definition visible :: "MemoryEventStore \<Rightarrow> uuid \<Rightarrow> Event list" where
  "visible st sid = segments (ms_events st) (memory_ancestry (ms_sessions st) sid)"

definition take_limit :: "nat option \<Rightarrow> 'a list \<Rightarrow> 'a list" where
  "take_limit limit xs = (case limit of None \<Rightarrow> xs | Some l \<Rightarrow> take l xs)"

lemma take_limit_simps [simp]: "take_limit None xs = xs" "take_limit (Some l) xs = take l xs"
  by (simp_all add: take_limit_def)

lemma renumber_append: "renumber n (xs @ ys) = renumber n xs @ renumber (n + length xs) ys"
  by (induction xs arbitrary: n) simp_all

lemma length_renumber [simp]: "length (renumber n xs) = length xs"
  by (induction xs arbitrary: n) simp_all

lemma renumber_take: "renumber n (take k xs) = take k (renumber n xs)"
  by (induction xs arbitrary: n k) (simp_all add: take_Cons split: nat.splits)

lemma renumber_id: "map sequence xs = [Suc n..<Suc n + length xs] \<Longrightarrow> renumber n xs = xs"
proof (induction xs arbitrary: n)
  case (Cons e xs)
  then have "sequence e = Suc n" "map sequence xs = [Suc (Suc n)..<Suc (Suc n) + length xs]"
    by (simp_all add: upt_rec [of "Suc n"] split: if_splits)
  with Cons.IH [of "Suc n"] show ?case by simp
qed simp

lemma renumber_sequence: "map sequence (renumber n xs) = [Suc n..<Suc n + length xs]"
proof (induction xs arbitrary: n)
  case (Cons e xs)
  show ?case by (simp add: Cons.IH upt_conv_Cons del: upt_Suc)
qed simp

lemma renumber_payload: "map payload (renumber n xs) = map payload xs"
  "map session_id (renumber n xs) = map session_id xs"
  by (induction xs arbitrary: n) simp_all

lemma head_loop_segments: "head_loop events segs acc = acc + length (segments events segs)"
  by (induction events segs acc rule: head_loop.induct) simp_all

lemma list_loop_segments:
  assumes "out = renumber after (drop after seen)" and "logical_end = length seen"
    and "\<not> is_some_and limit (\<lambda>l. l \<le> length out)"
  shows "list_loop events after limit segs out logical_end
    = renumber after (take_limit limit (drop after (seen @ segments events segs)))"
  using assms
proof (induction segs arbitrary: out logical_end seen)
  case Nil
  then show ?case by (cases limit) simp_all
next
  case (Cons seg segs)
  let ?evs = "segment_events events (segs = []) seg"
  show ?case
  proof (cases "length seen + length ?evs \<le> after")
    case True
    then have "drop after seen = drop after (seen @ ?evs)" by simp
    then show ?thesis
      using Cons.IH [of out "seen @ ?evs" "length (seen @ ?evs)"] Cons.prems True by simp
  next
    case False
    define rest where "rest = drop (after - length seen) ?evs"
    have full: "drop after (seen @ ?evs) = drop after seen @ rest"
      by (simp add: rest_def)
    have len: "length out + length rest = length seen + length ?evs - after"
      using False Cons.prems(1) by (simp add: rest_def)
    have step: "list_loop events after limit (seg # segs) out logical_end =
        (let out' = out @ renumber (after + length out) (take_limit (map_option (\<lambda>l. l - length out) limit) rest)
         in if is_some_and limit (\<lambda>l. l \<le> length out') then out'
            else list_loop events after limit segs out' (after + length out'))"
      using False Cons.prems(2) by (cases limit) (simp_all add: Let_def rest_def min_def)
    show ?thesis
    proof (cases "is_some_and limit (\<lambda>l. l \<le> length out + length rest)")
      case True
      then obtain l where l: "limit = Some l" "l \<le> length out + length rest"
        by (auto simp: is_some_and_iff)
      have "list_loop events after limit (seg # segs) out logical_end
          = out @ renumber (after + length out) (take (l - length out) rest)"
        using step l Cons.prems(3) by (simp add: Let_def)
      also have "\<dots> = renumber after (take l (drop after seen @ rest))"
        using Cons.prems(1,3) l by (simp add: renumber_append renumber_take)
      also have "\<dots> = renumber after (take_limit limit (drop after (seen @ segments events (seg # segs))))"
        using l full Cons.prems(1) by (simp add: append_assoc [symmetric] del: append_assoc)
      finally show ?thesis .
    next
      case nofit: False
      then have "take_limit (map_option (\<lambda>l. l - length out) limit) rest = rest"
        by (cases limit) simp_all
      then have "list_loop events after limit (seg # segs) out logical_end
          = list_loop events after limit segs (out @ renumber (after + length out) rest)
              (after + (length out + length rest))"
        using step nofit by (simp add: Let_def)
      also have "\<dots> = renumber after (take_limit limit (drop after ((seen @ ?evs) @ segments events segs)))"
      proof (rule Cons.IH)
        show "out @ renumber (after + length out) rest = renumber after (drop after (seen @ ?evs))"
          unfolding full using Cons.prems(1) by (simp add: renumber_append)
        show "after + (length out + length rest) = length (seen @ ?evs)"
          using len False by simp
      qed (use nofit in simp)
      finally show ?thesis by simp
    qed
  qed
qed

lemma memory_list_after_visible:
  "memory_list_after st sid after limit =
     (if limit = Some 0 then Inr []
      else if ms_events_poisoned st \<or> ms_sessions_poisoned st then Inl Poisoned
      else Inr (renumber after (take_limit limit (drop after (visible st sid)))))"
proof (cases "limit = Some 0")
  case False
  then have "\<not> is_some_and limit (\<lambda>l. l \<le> length ([] :: Event list))"
    by (auto simp: is_some_and_iff)
  then show ?thesis
    using False list_loop_segments [of "[]" after "[]" 0 limit]
    by (simp add: memory_list_after_def visible_def)
qed (simp add: memory_list_after_def)

lemma logical_head_visible:
  "logical_head_sequence st sid =
     (if ms_events_poisoned st \<or> ms_sessions_poisoned st then Inl Poisoned
      else Inr (length (visible st sid)))"
  by (simp add: logical_head_sequence_def visible_def head_loop_segments)

section \<open>Chains of forks\<close>

definition parent_of :: "MemorySessionMetadata list \<Rightarrow> uuid \<Rightarrow> (uuid \<times> nat option) option" where
  "parent_of sessions sid =
     Option.bind (List.find (\<lambda>s. meta_id s = sid) sessions)
       (\<lambda>m. map_option (\<lambda>p. (p, meta_fork_sequence m)) (meta_parent m))"

text \<open>No session is its own ancestor: parents have a smaller rank.\<close>

definition ranked :: "MemorySessionMetadata list \<Rightarrow> (uuid \<Rightarrow> nat) \<Rightarrow> bool" where
  "ranked sessions rank \<longleftrightarrow>
     (\<forall>m \<in> set sessions. \<forall>p. meta_parent m = Some p \<longrightarrow> rank p < rank (meta_id m))"

definition acyclic_sessions :: "MemorySessionMetadata list \<Rightarrow> bool" where
  "acyclic_sessions sessions \<longleftrightarrow> (\<exists>rank. ranked sessions rank)"

lemma parent_of_meta:
  "parent_of sessions sid = Some (p, fu) \<Longrightarrow>
   \<exists>m \<in> set sessions. meta_id m = sid \<and> meta_parent m = Some p \<and> meta_fork_sequence m = fu"
  by (auto simp: parent_of_def bind_eq_Some_conv dest!: find_Some_mem)

lemma ranked_parent_of: "ranked sessions rank \<Longrightarrow> parent_of sessions sid = Some (p, fu) \<Longrightarrow> rank p < rank sid"
  using parent_of_meta by (fastforce simp: ranked_def)

lemma find_filter_same:
  "cur \<notin> R \<Longrightarrow> List.find (\<lambda>s. meta_id s = cur) (filter (\<lambda>s. meta_id s \<notin> R) sessions)
    = List.find (\<lambda>s. meta_id s = cur) sessions"
  by (induction sessions) auto

lemma ancestry_filter:
  assumes "ranked sessions rank"
  shows "\<forall>r \<in> R. rank cur < rank r \<Longrightarrow>
    ancestry_from (filter (\<lambda>s. meta_id s \<notin> R) sessions) cur f = ancestry_from sessions cur f"
proof (induction "rank cur" arbitrary: cur f R rule: less_induct)
  case less
  then have "cur \<notin> R" by blast
  then have find: "List.find (\<lambda>s. meta_id s = cur) (filter (\<lambda>s. meta_id s \<notin> R) sessions)
      = List.find (\<lambda>s. meta_id s = cur) sessions" by (rule find_filter_same)
  show ?case
  proof (cases "parent_of sessions cur")
    case None
    then show ?thesis
      unfolding ancestry_from.simps [of "filter (\<lambda>s. meta_id s \<notin> R) sessions" cur f]
        ancestry_from.simps [of sessions cur f] find
      by (auto simp: parent_of_def split: option.splits)
  next
    case (Some pf)
    obtain p fu where pf: "pf = (p, fu)" by (cases pf)
    then obtain m where m: "List.find (\<lambda>s. meta_id s = cur) sessions = Some m" "meta_parent m = Some p"
      "meta_fork_sequence m = fu"
      using Some by (auto simp: parent_of_def bind_eq_Some_conv)
    have rp: "rank p < rank cur" using ranked_parent_of [OF assms] Some pf by simp
    have "filter (\<lambda>s. meta_id s \<noteq> cur) (filter (\<lambda>s. meta_id s \<notin> R) sessions)
        = filter (\<lambda>s. meta_id s \<notin> insert cur R) sessions"
      by (auto intro: filter_cong)
    then have "ancestry_from (filter (\<lambda>s. meta_id s \<noteq> cur) (filter (\<lambda>s. meta_id s \<notin> R) sessions)) p fu
        = ancestry_from sessions p fu"
      using less.hyps [OF rp, of "insert cur R"] less.prems rp by fastforce
    moreover have "ancestry_from (filter (\<lambda>s. meta_id s \<noteq> cur) sessions) p fu
        = ancestry_from sessions p fu"
      using less.hyps [OF rp, of "{cur}"] rp by simp
    ultimately show ?thesis
      unfolding ancestry_from.simps [of "filter (\<lambda>s. meta_id s \<notin> R) sessions" cur f]
        ancestry_from.simps [of sessions cur f] find
      by (simp add: m)
  qed
qed

text \<open>
  In a store without cycles the loop of \<open>memory_ancestry\<close> follows the parents to the root:
  leaving out the visited sessions changes nothing.
\<close>

lemma ancestry_unfold:
  assumes "acyclic_sessions sessions"
  shows "ancestry_from sessions cur f =
    (case parent_of sessions cur of None \<Rightarrow> [] | Some (p, fu) \<Rightarrow> ancestry_from sessions p fu) @ [(cur, f)]"
proof -
  obtain rank where r: "ranked sessions rank" using assms by (auto simp: acyclic_sessions_def)
  have "ancestry_from (filter (\<lambda>s. meta_id s \<noteq> cur) sessions) p fu = ancestry_from sessions p fu"
    if "parent_of sessions cur = Some (p, fu)" for p fu
    using ancestry_filter [OF r, of "{cur}" p fu] ranked_parent_of [OF r that] by simp
  then show ?thesis
    by (auto simp: ancestry_from.simps [of sessions cur] parent_of_def split: option.splits)
qed

definition own :: "MemoryEventStore \<Rightarrow> uuid \<Rightarrow> Event list" where
  "own st sid = filter (\<lambda>e. session_id e = sid) (ms_events st)"

definition inherited :: "MemoryEventStore \<Rightarrow> uuid \<Rightarrow> Event list" where
  "inherited st sid =
     concat (map (segment_events (ms_events st) False) (butlast (memory_ancestry (ms_sessions st) sid)))"

lemma segments_snoc:
  "segments events (xs @ [x]) = concat (map (segment_events events False) xs) @ segment_events events True x"
  by (induction xs) simp_all

lemma visible_split:
  assumes "acyclic_sessions (ms_sessions st)"
  shows "visible st sid = inherited st sid @ own st sid"
  using ancestry_unfold [OF assms, of sid None]
  by (simp add: visible_def inherited_def memory_ancestry_def segments_snoc own_def segment_events_def)

lemma inherited_unfold:
  assumes "acyclic_sessions (ms_sessions st)"
  shows "inherited st sid =
    (case parent_of (ms_sessions st) sid of
       None \<Rightarrow> []
     | Some (p, fu) \<Rightarrow> inherited st p @ segment_events (ms_events st) False (p, fu))"
proof (cases "parent_of (ms_sessions st) sid")
  case None
  then show ?thesis
    using ancestry_unfold [OF assms, of sid None] by (simp add: inherited_def memory_ancestry_def)
next
  case (Some pf)
  obtain p fu where pf: "pf = (p, fu)" by (cases pf)
  have "butlast (ancestry_from (ms_sessions st) p fu) = butlast (ancestry_from (ms_sessions st) p None)"
    "last (ancestry_from (ms_sessions st) p fu) = (p, fu)" "ancestry_from (ms_sessions st) p fu \<noteq> []"
    using ancestry_unfold [OF assms, of p] by (simp_all add: butlast_append)
  then have "ancestry_from (ms_sessions st) p fu = butlast (ancestry_from (ms_sessions st) p None) @ [(p, fu)]"
    by (metis append_butlast_last_id)
  then show ?thesis
    using ancestry_unfold [OF assms, of sid None] Some pf
    by (simp add: inherited_def memory_ancestry_def butlast_append)
qed

text \<open>Two stores agree on what a set of sessions inherits if they agree on parents and segments.\<close>

lemma inherited_eqI:
  assumes "acyclic_sessions (ms_sessions st)" "acyclic_sessions (ms_sessions st')"
    and "\<And>x. x \<in> A \<Longrightarrow> parent_of (ms_sessions st') x = parent_of (ms_sessions st) x"
    and "\<And>x p fu. x \<in> A \<Longrightarrow> parent_of (ms_sessions st) x = Some (p, fu) \<Longrightarrow>
           p \<in> A \<and> segment_events (ms_events st') False (p, fu) = segment_events (ms_events st) False (p, fu)"
  shows "x \<in> A \<Longrightarrow> inherited st' x = inherited st x"
proof -
  obtain rank where r: "ranked (ms_sessions st) rank" using assms(1) by (auto simp: acyclic_sessions_def)
  show "x \<in> A \<Longrightarrow> inherited st' x = inherited st x"
  proof (induction "rank x" arbitrary: x rule: less_induct)
    case less
    show ?case
      using less.hyps ranked_parent_of [OF r] assms(3,4) less.prems
      by (simp add: inherited_unfold [OF assms(1), of x] inherited_unfold [OF assms(2), of x]
          split: option.splits)
  qed
qed

section \<open>The invariant\<close>

text \<open>
  Sessions form no cycle, what a session sees is numbered from 1 without gaps, and no fork
  point lies beyond the head of its source.
\<close>

definition contiguous :: "nat \<Rightarrow> Event list \<Rightarrow> bool" where
  "contiguous n es \<longleftrightarrow> map sequence es = [Suc n..<Suc n + length es]"

definition store_wf :: "MemoryEventStore \<Rightarrow> bool" where
  "store_wf st \<longleftrightarrow>
     acyclic_sessions (ms_sessions st)
     \<and> (\<forall>sid. contiguous 0 (visible st sid))
     \<and> (\<forall>m \<in> set (ms_sessions st). \<forall>p u. meta_parent m = Some p \<and> meta_fork_sequence m = Some u
            \<longrightarrow> u \<le> length (visible st p))"

lemma store_wf_fork_point:
  "store_wf st \<Longrightarrow> parent_of (ms_sessions st) sid = Some (p, Some u) \<Longrightarrow> u \<le> length (visible st p)"
  using parent_of_meta [of "ms_sessions st" sid p "Some u"] by (auto simp: store_wf_def)

lemma store_wf_acyclic: "store_wf st \<Longrightarrow> acyclic_sessions (ms_sessions st)"
  by (simp add: store_wf_def)

lemma contiguous_append:
  "contiguous n (xs @ ys) \<longleftrightarrow> contiguous n xs \<and> contiguous (n + length xs) ys"
proof -
  have "[Suc n..<Suc n + length (xs @ ys)]
      = [Suc n..<Suc n + length xs] @ [Suc (n + length xs)..<Suc (n + length xs) + length ys]"
    using upt_add_eq_append [of "Suc n" "Suc n + length xs" "length ys"] by (simp add: ac_simps)
  then show ?thesis
    by (auto simp: contiguous_def append_eq_append_conv simp del: upt_Suc)
qed

lemma contiguous_Nil [simp]: "contiguous n []"
  by (simp add: contiguous_def)

lemma contiguous_single [simp]: "contiguous n [e] \<longleftrightarrow> sequence e = Suc n"
  by (simp add: contiguous_def)

lemma contiguous_filter_le:
  "contiguous n es \<Longrightarrow> filter (\<lambda>e. sequence e \<le> u) es = take (u - n) es"
proof (induction es arbitrary: n)
  case (Cons e es)
  then have e: "sequence e = Suc n" and es: "contiguous (Suc n) es"
    using contiguous_append [of n "[e]" es] by simp_all
  then show ?case
  proof (cases "u \<le> n")
    case True
    then show ?thesis using Cons.IH [OF es] e by simp
  next
    case False
    then have "u - n = Suc (u - Suc n)" by simp
    then show ?thesis using Cons.IH [OF es] e False by simp
  qed
qed simp

lemma renumber_contiguous: "contiguous n es \<Longrightarrow> renumber n es = es"
  unfolding contiguous_def by (rule renumber_id)

lemma contiguous_renumber: "contiguous n (renumber n es)"
  by (simp add: contiguous_def renumber_sequence)

lemma contiguous_take: "contiguous n es \<Longrightarrow> contiguous n (take k es)"
  using contiguous_append [of n "take k es" "drop k es"] by simp

lemma contiguous_drop: "contiguous n es \<Longrightarrow> k \<le> length es \<Longrightarrow> contiguous (n + k) (drop k es)"
  using contiguous_append [of n "take k es" "drop k es"] by simp

lemma contiguous_take_limit: "contiguous n es \<Longrightarrow> contiguous n (take_limit l es)"
  by (cases l) (simp_all add: contiguous_take)

text \<open>For a well-formed store the lists are exactly what the session sees.\<close>

definition store_healthy :: "MemoryEventStore \<Rightarrow> bool" where
  "store_healthy st \<longleftrightarrow> \<not> ms_events_poisoned st \<and> \<not> ms_sessions_poisoned st"

lemma memory_list_visible:
  assumes "store_wf st"
  shows "memory_list st sid = (if store_healthy st then Inr (visible st sid) else Inl Poisoned)"
  using assms
  by (simp add: memory_list_def memory_list_after_visible store_healthy_def store_wf_def
      renumber_contiguous)

lemma memory_list_after_wf:
  assumes "store_wf st" "store_healthy st"
  shows "memory_list_after st sid after limit = Inr (take_limit limit (drop after (visible st sid)))"
proof (cases "after \<le> length (visible st sid)")
  case True
  have "contiguous 0 (visible st sid)" using assms(1) by (simp add: store_wf_def)
  from contiguous_take_limit [OF contiguous_drop [OF this True]] have
    "renumber after (take_limit limit (drop after (visible st sid)))
       = take_limit limit (drop after (visible st sid))"
    by (simp add: renumber_contiguous)
  then show ?thesis
    using assms(2) by (auto simp: memory_list_after_visible store_healthy_def)
next
  case False
  then show ?thesis
    using assms(2) by (cases limit) (auto simp: memory_list_after_visible store_healthy_def)
qed

section \<open>Operations keep the invariant\<close>

lemma segment_events_snoc:
  "segment_events (E @ [e]) c seg =
     segment_events E c seg @
     (if session_id e = fst seg \<and> (c \<or> is_some_and (snd seg) (\<lambda>u. sequence e \<le> u)) then [e] else [])"
  by (simp add: segment_events_def)

lemma store_wf_visible_eq:
  assumes "store_wf st" "acyclic_sessions (ms_sessions st')"
    and "\<And>m. m \<in> set (ms_sessions st') \<Longrightarrow> m \<in> set (ms_sessions st)"
    and "\<And>sid. contiguous 0 (visible st' sid)"
    and "\<And>sid. length (visible st sid) \<le> length (visible st' sid)"
  shows "store_wf st'"
  using assms unfolding store_wf_def by (meson order_trans)

lemma append_event_visible:
  assumes wf: "store_wf st" and st': "ms_sessions st' = ms_sessions st" "ms_events st' = ms_events st @ [e]"
    and e: "session_id e = sid" "sequence e = Suc (length (visible st sid))"
  shows "visible st' x = visible st x @ (if x = sid then [e] else [])" and "store_wf st'"
proof -
  have ac: "acyclic_sessions (ms_sessions st)" using wf by (rule store_wf_acyclic)
  have "inherited st' x = inherited st x" for x
  proof (rule inherited_eqI [OF ac, of st' UNIV])
    fix y p fu
    assume p: "parent_of (ms_sessions st) y = Some (p, fu)"
    have "\<not> (session_id e = p \<and> is_some_and fu (\<lambda>u. sequence e \<le> u))"
      using store_wf_fork_point [OF wf, of y p] p e by (auto simp: is_some_and_iff)
    then show "p \<in> UNIV \<and> segment_events (ms_events st') False (p, fu)
        = segment_events (ms_events st) False (p, fu)"
      by (simp add: st' segment_events_snoc)
  qed (simp_all add: st' ac)
  then show v: "visible st' x = visible st x @ (if x = sid then [e] else [])" for x
    using e(1) by (simp add: visible_split ac st' own_def)
  show "store_wf st'"
  proof (rule store_wf_visible_eq [OF wf])
    show "contiguous 0 (visible st' x)" for x
      using wf e(2) by (simp add: v contiguous_append store_wf_def)
  qed (simp_all add: v st' ac)
qed

lemma memory_append_next_wf:
  assumes "store_wf st" "memory_append_next st stamp sid p = (r, st')"
  shows "store_wf st'" and
    "case r of
       Inl _ \<Rightarrow> st' = st
     | Inr e \<Rightarrow> store_healthy st \<and> e = event_new stamp sid (Suc (length (visible st sid))) p
         \<and> store_healthy st' \<and> ms_sessions st' = ms_sessions st
         \<and> (\<forall>x. visible st' x = visible st x @ (if x = sid then [e] else []))"
proof -
  show "store_wf st'"
    using assms append_event_visible(2) [OF assms(1), of st' _ sid]
    by (auto simp: memory_append_next_def logical_head_visible Let_def split: if_splits)
  show "case r of
       Inl _ \<Rightarrow> st' = st
     | Inr e \<Rightarrow> store_healthy st \<and> e = event_new stamp sid (Suc (length (visible st sid))) p
         \<and> store_healthy st' \<and> ms_sessions st' = ms_sessions st
         \<and> (\<forall>x. visible st' x = visible st x @ (if x = sid then [e] else []))"
    using assms append_event_visible(1) [OF assms(1), of st' _ sid]
    by (auto simp: memory_append_next_def logical_head_visible Let_def store_healthy_def split: if_splits)
qed

lemma memory_append_next_fields:
  "memory_append_next st stamp sid p = (Inr e, st') \<Longrightarrow>
   ms_events st' = ms_events st @ [e] \<and> ms_sessions st' = ms_sessions st
   \<and> ms_checkpoints st' = ms_checkpoints st \<and> ms_sent st' = ms_sent st @ [(sid, sequence e)]"
  by (auto simp: memory_append_next_def Let_def split: sum.splits if_splits)

definition fresh_id :: "MemoryEventStore \<Rightarrow> uuid \<Rightarrow> bool" where
  "fresh_id st n \<longleftrightarrow>
     n \<notin> meta_id ` set (ms_sessions st) \<and> Some n \<notin> meta_parent ` set (ms_sessions st)
     \<and> n \<notin> session_id ` set (ms_events st)"

lemma find_none_fresh: "n \<notin> meta_id ` set sessions \<Longrightarrow> List.find (\<lambda>s. meta_id s = n) sessions = None"
  by (auto simp: find_None_iff)

lemma parent_of_snoc:
  "n \<notin> meta_id ` set sessions \<Longrightarrow> meta_id m = n \<Longrightarrow>
   parent_of (sessions @ [m]) x =
     (if x = n then map_option (\<lambda>p. (p, meta_fork_sequence m)) (meta_parent m) else parent_of sessions x)"
  by (auto simp: parent_of_def find_append find_none_fresh split: option.splits)

lemma fresh_not_parent:
  "fresh_id st n \<Longrightarrow> parent_of (ms_sessions st) x = Some (p, fu) \<Longrightarrow> p \<noteq> n"
  using parent_of_meta [of "ms_sessions st" x p fu] by (force simp: fresh_id_def)

lemma visible_fresh:
  "acyclic_sessions (ms_sessions st) \<Longrightarrow> fresh_id st n \<Longrightarrow> visible st n = []"
  by (auto simp: visible_split inherited_unfold [of st n] parent_of_def find_none_fresh fresh_id_def
      own_def filter_empty_conv)

lemma ranked_snoc:
  assumes "ranked sessions rank" "n \<notin> meta_id ` set sessions" "Some n \<notin> meta_parent ` set sessions"
    and "meta_id m = n" "meta_parent m \<noteq> Some n"
  shows "acyclic_sessions (sessions @ [m])"
proof -
  let ?rank = "rank(n := (case meta_parent m of None \<Rightarrow> 0 | Some p \<Rightarrow> Suc (rank p)))"
  have "ranked (sessions @ [m]) ?rank"
    using assms unfolding ranked_def by (auto simp: image_iff split: option.splits)
  then show ?thesis by (auto simp: acyclic_sessions_def)
qed

lemma memory_create_session_wf:
  assumes wf: "store_wf st" and fresh: "fresh_id st n"
    and run: "memory_create_session st n stamp = (Inr sid, st')"
  shows "store_wf st'" and "sid = n \<and> (\<forall>x. visible st' x =
      (if x = n then [event_new stamp n 1 (Session Created)] else visible st x))"
proof -
  let ?m = "\<lparr>meta_id = n, meta_parent = None, meta_fork_sequence = None\<rparr>"
  let ?e = "event_new stamp n 1 (Session Created)"
  have ac: "acyclic_sessions (ms_sessions st)" using wf by (rule store_wf_acyclic)
  have st': "sid = n" "ms_sessions st' = ms_sessions st @ [?m]" "ms_events st' = ms_events st @ [?e]"
    using run by (auto simp: memory_create_session_def Let_def split: if_splits)
  have ac': "acyclic_sessions (ms_sessions st')"
    using ac fresh ranked_snoc [of "ms_sessions st" _ n ?m] by (auto simp: st' acyclic_sessions_def fresh_id_def)
  have parents: "parent_of (ms_sessions st') x = parent_of (ms_sessions st) x" for x
    using fresh parent_of_snoc [of n "ms_sessions st" ?m x]
    by (auto simp: st' fresh_id_def parent_of_def find_none_fresh)
  have inh: "inherited st' x = inherited st x" for x
  proof (rule inherited_eqI [OF ac ac', of UNIV])
    fix y p fu
    assume "parent_of (ms_sessions st) y = Some (p, fu)"
    then have "p \<noteq> n" by (rule fresh_not_parent [OF fresh])
    then show "p \<in> UNIV \<and> segment_events (ms_events st') False (p, fu)
        = segment_events (ms_events st) False (p, fu)"
      by (simp add: st' segment_events_snoc)
  qed (simp_all add: parents)
  have v: "visible st' x = visible st x @ (if x = n then [?e] else [])" for x
    unfolding visible_split [OF ac] visible_split [OF ac'] inh own_def st' by simp
  then show "sid = n \<and> (\<forall>x. visible st' x = (if x = n then [?e] else visible st x))"
    using visible_fresh [OF ac fresh] st'(1) by auto
  show "store_wf st'"
    using wf v visible_fresh [OF ac fresh] ac' [unfolded st'(2)] unfolding store_wf_def
    by (auto simp: st' contiguous_append trans_le_add1)
qed

lemma memory_fork_session_wf:
  assumes wf: "store_wf st" and fresh: "fresh_id st n"
    and run: "memory_fork_session st n source u = (Inr child, st')"
  shows "store_wf st'" and "child = n \<and> 0 < u \<and> u \<le> length (visible st source) \<and> store_healthy st
      \<and> store_healthy st'
      \<and> (\<forall>x. visible st' x =
          (if x = n then take (max u (length (inherited st source))) (visible st source) else visible st x))"
proof -
  let ?m = "\<lparr>meta_id = n, meta_parent = Some source, meta_fork_sequence = Some u\<rparr>"
  have ac: "acyclic_sessions (ms_sessions st)" using wf by (rule store_wf_acyclic)
  have healthy: "store_healthy st"
    and hist: "visible st source \<noteq> []" and mem: "u \<in> sequence ` set (visible st source)"
    and st': "child = n" "ms_sessions st' = ms_sessions st @ [?m]" "ms_events st' = ms_events st"
      "store_healthy st'"
    using run by (auto simp: memory_fork_session_def validate_fork_sequence_def memory_list_visible [OF wf]
        list_ex_iff store_healthy_def split: if_splits)
  have src: "source \<noteq> n" using hist visible_fresh [OF ac fresh] by auto
  have "sequence ` set (visible st source) = {1..length (visible st source)}"
    using wf by (simp add: store_wf_def contiguous_def flip: set_map) auto
  then have u: "0 < u" "u \<le> length (visible st source)" using mem by auto
  have ac': "acyclic_sessions (ms_sessions st')"
    using ac fresh src ranked_snoc [of "ms_sessions st" _ n ?m]
    by (auto simp: st' acyclic_sessions_def fresh_id_def)
  have parents: "parent_of (ms_sessions st') x = (if x = n then Some (source, Some u) else parent_of (ms_sessions st) x)" for x
    using fresh parent_of_snoc [of n "ms_sessions st" ?m x] by (simp add: st' fresh_id_def)
  have inh: "inherited st' x = inherited st x" if "x \<noteq> n" for x
    by (rule inherited_eqI [OF ac ac', of "- {n}"])
      (use that fresh_not_parent [OF fresh] in \<open>auto simp: parents st'(3)\<close>)
  have v: "visible st' x = visible st x" if "x \<noteq> n" for x
    unfolding visible_split [OF ac] visible_split [OF ac'] inh [OF that] own_def st' by simp
  have "visible st' n = inherited st source @ filter (\<lambda>e. sequence e \<le> u) (own st source)"
    using fresh inh [OF src]
    by (auto simp: visible_split [OF ac'] inherited_unfold [OF ac', of n] parents own_def st'(3)
        segment_events_def fresh_id_def filter_empty_conv intro!: filter_cong)
  moreover have "contiguous (length (inherited st source)) (own st source)"
    using wf by (simp add: store_wf_def visible_split ac contiguous_append)
  ultimately have vn: "visible st' n = take (max u (length (inherited st source))) (visible st source)"
    by (simp add: contiguous_filter_le visible_split ac max_def)
  show "child = n \<and> 0 < u \<and> u \<le> length (visible st source) \<and> store_healthy st \<and> store_healthy st'
      \<and> (\<forall>x. visible st' x =
          (if x = n then take (max u (length (inherited st source))) (visible st source) else visible st x))"
    using v vn u healthy st' by simp
  have "contiguous 0 (visible st' x)" for x
    using v [of x] vn wf by (cases "x = n") (auto simp: store_wf_def contiguous_take)
  moreover have "u' \<le> length (visible st' p)"
    if "m \<in> set (ms_sessions st')" "meta_parent m = Some p" "meta_fork_sequence m = Some u'" for m p u'
  proof -
    have "p \<noteq> n" using that fresh src by (force simp: st' fresh_id_def)
    then show ?thesis using that wf u(2) v [of p] by (auto simp: st' store_wf_def)
  qed
  ultimately show "store_wf st'" using ac' by (auto simp: store_wf_def)
qed

lemma memory_delete_leaf_wf:
  assumes wf: "store_wf st" and leaf: "Some sid \<notin> meta_parent ` set (ms_sessions st)"
    and run: "memory_delete_session st sid = (Inr (), st')"
  shows "store_wf st'" and "visible st' x = (if x = sid then [] else visible st x)"
proof -
  have ac: "acyclic_sessions (ms_sessions st)" using wf by (rule store_wf_acyclic)
  have st': "ms_sessions st' = filter (\<lambda>s. meta_id s \<noteq> sid) (ms_sessions st)"
    "ms_events st' = filter (\<lambda>e. session_id e \<noteq> sid) (ms_events st)"
    using run by (auto simp: memory_delete_session_def Let_def split: if_splits)
  have ac': "acyclic_sessions (ms_sessions st')"
    using ac by (auto simp: st' acyclic_sessions_def ranked_def)
  have parents: "parent_of (ms_sessions st') y = (if y = sid then None else parent_of (ms_sessions st) y)" for y
  proof (cases "y = sid")
    case True
    have "List.find (\<lambda>s. meta_id s = sid) (ms_sessions st') = None"
      unfolding st' by (rule find_none_fresh) auto
    then show ?thesis by (simp add: True parent_of_def)
  qed (use find_filter_same [of y "{sid}" "ms_sessions st"] in \<open>simp add: st' parent_of_def\<close>)
  have not_parent: "p \<noteq> sid" if "parent_of (ms_sessions st) y = Some (p, fu)" for y p fu
    using parent_of_meta [OF that] leaf by force
  have seg: "segment_events (ms_events st') c (p, fu) = segment_events (ms_events st) c (p, fu)" if "p \<noteq> sid" for c p fu
    using that by (auto simp: st' segment_events_def intro: filter_cong)
  have inh: "inherited st' y = inherited st y" if "y \<noteq> sid" for y
    by (rule inherited_eqI [OF ac ac', of "- {sid}"])
      (use that in \<open>auto simp: parents seg dest: not_parent\<close>)
  have own: "own st' y = (if y = sid then [] else own st y)" for y
    by (auto simp: own_def st' filter_empty_conv intro: filter_cong)
  show v: "visible st' x = (if x = sid then [] else visible st x)" for x
    by (simp add: visible_split ac ac' inh own inherited_unfold [OF ac', of sid] parents)
  have "p \<noteq> sid" if "m \<in> set (ms_sessions st)" "meta_parent m = Some p" for m p
    using that leaf by force
  then show "store_wf st'"
    using wf v ac' by (auto simp: store_wf_def st')
qed

lemma memory_create_checkpoint_same:
  "memory_create_checkpoint st new_id now sid name sq = (r, st') \<Longrightarrow>
   ms_events st' = ms_events st \<and> ms_sessions st' = ms_sessions st"
  by (auto simp: memory_create_checkpoint_def Let_def split: if_splits sum.splits)

lemma store_wf_cong:
  "ms_events st' = ms_events st \<Longrightarrow> ms_sessions st' = ms_sessions st \<Longrightarrow> store_wf st' = store_wf st"
  by (simp add: store_wf_def visible_def)

lemma store_wf_default: "store_wf memory_default"
  by (auto simp: store_wf_def memory_default_def acyclic_sessions_def ranked_def visible_def
      memory_ancestry_def ancestry_from.simps segment_events_def)

section \<open>Runs of the store\<close>

text \<open>
  A step is a call of one operation. The ids of new sessions and forks are fresh, as
  \<open>Uuid::new_v4\<close> provides them, and a session is deleted only when no other was forked
  from it.
\<close>

inductive store_step :: "MemoryEventStore \<Rightarrow> MemoryEventStore \<Rightarrow> bool" where
  create: "store_step st st'"
    if "memory_create_session st n stamp = (Inr sid, st')" "fresh_id st n"
| append: "store_step st st'" if "memory_append_next st stamp sid p = (r, st')"
| fork: "store_step st st'"
    if "memory_fork_session st n source u = (Inr child, st')" "fresh_id st n"
| checkpoint: "store_step st st'"
    if "memory_create_checkpoint st new_id now sid name sq = (r, st')"
| delete: "store_step st st'"
    if "memory_delete_session st sid = (Inr (), st')" "Some sid \<notin> meta_parent ` set (ms_sessions st)"

inductive store_run :: "MemoryEventStore \<Rightarrow> MemoryEventStore \<Rightarrow> bool" where
  refl: "store_run st st"
| step: "store_run st st''" if "store_run st st'" "store_step st' st''"

lemma store_step_wf: "store_step st st' \<Longrightarrow> store_wf st \<Longrightarrow> store_wf st'"
proof (induction rule: store_step.induct)
  case (create st n stamp sid st')
  then show ?case by (auto dest: memory_create_session_wf(1))
next
  case (append st stamp sid p r st')
  then show ?case by (auto dest: memory_append_next_wf(1))
next
  case (fork st n source u child st')
  then show ?case by (auto dest: memory_fork_session_wf(1))
next
  case (checkpoint st new_id now sid name sq r st')
  then show ?case using memory_create_checkpoint_same store_wf_cong by blast
next
  case (delete st sid st')
  then show ?case by (auto dest: memory_delete_leaf_wf(1))
qed

lemma store_run_wf: "store_run st st' \<Longrightarrow> store_wf st \<Longrightarrow> store_wf st'"
  by (induction rule: store_run.induct) (auto dest: store_step_wf)

section \<open>The interface of the store\<close>

text \<open>
  What the clients of \<open>dyn EventStore\<close> rely on. An appended event goes to the end of its
  session's list, numbered by its position; the lists of the other sessions stay as they
  are; a failed append changes no list; a page is a slice of the list.
\<close>

locale event_log =
  fixes inv :: "'s \<Rightarrow> bool"
    and append_next :: "'s \<Rightarrow> stamp \<Rightarrow> uuid \<Rightarrow> EventPayload \<Rightarrow> (StoreError + Event) \<times> 's"
    and list_events :: "'s \<Rightarrow> uuid \<Rightarrow> StoreError + Event list"
    and list_after :: "'s \<Rightarrow> uuid \<Rightarrow> nat \<Rightarrow> nat option \<Rightarrow> StoreError + Event list"
  assumes append_inv: "inv s \<Longrightarrow> append_next s t sid p = (r, s') \<Longrightarrow> inv s'"
    and append_ok: "inv s \<Longrightarrow> append_next s t sid p = (Inr e, s') \<Longrightarrow>
      \<exists>es. list_events s sid = Inr es \<and> e = event_new t sid (Suc (length es)) p
         \<and> list_events s' sid = Inr (es @ [e])"
    and append_other: "inv s \<Longrightarrow> append_next s t sid p = (Inr e, s') \<Longrightarrow> x \<noteq> sid \<Longrightarrow>
      list_events s' x = list_events s x"
    and append_failed: "inv s \<Longrightarrow> append_next s t sid p = (Inl err, s') \<Longrightarrow> list_events s' x = list_events s x"
    and list_numbered: "inv s \<Longrightarrow> list_events s sid = Inr es \<Longrightarrow> map sequence es = [1..<Suc (length es)]"
    and page: "inv s \<Longrightarrow> list_events s sid = Inr es \<Longrightarrow>
      list_after s sid after limit = Inr (take_limit limit (drop after es))"
begin

lemma append_payloads:
  assumes "inv s" "append_next s t sid p = (Inr e, s')" "list_events s sid = Inr es"
  shows "list_events s' sid = Inr (es @ [e])" and "payload e = p" and "session_id e = sid"
    and "sequence e = Suc (length es)"
  using append_ok [OF assms(1,2)] assms(3) by auto

text \<open>A reader that has seen the first \<open>n\<close> events gets exactly the later ones.\<close>

lemma cursor_tail:
  assumes "inv s" "list_events s sid = Inr (seen @ rest)"
  shows "list_after s sid (length seen) None = Inr rest"
  using page [OF assms] by simp

lemma cursor_after_append:
  assumes "inv s" "list_events s sid = Inr es" "append_next s t sid p = (Inr e, s')"
  shows "list_after s' sid (length es) None = Inr [e]"
  using cursor_tail [OF append_inv [OF assms(1,3)]] append_payloads(1) [OF assms(1,3,2)] by blast

lemma append_list:
  assumes "inv s" "append_next s t sid p = (r, s')" "list_events s x = Inr es"
  shows "list_events s' x = Inr (es @ (case r of Inl _ \<Rightarrow> [] | Inr e \<Rightarrow> if x = sid then [e] else []))"
proof (cases r)
  case (Inl err)
  then show ?thesis using append_failed assms by simp
next
  case (Inr e)
  then show ?thesis
    using append_payloads(1) [of s t sid p e s' es] append_other [of s t sid p e s' x] assms
    by (cases "x = sid") auto
qed

end

lemma memory_list_Inr:
  "store_wf st \<Longrightarrow> memory_list st sid = Inr es \<longleftrightarrow> store_healthy st \<and> es = visible st sid"
  by (auto simp: memory_list_visible)

interpretation memory_log: event_log store_wf memory_append_next memory_list memory_list_after
proof unfold_locales
  fix s t sid p e s'
  assume s: "store_wf s" and run: "memory_append_next s t sid p = (Inr e, s')"
  note facts = memory_append_next_wf [OF s run]
  show "\<exists>es. memory_list s sid = Inr es \<and> e = event_new t sid (Suc (length es)) p
      \<and> memory_list s' sid = Inr (es @ [e])"
    using facts s by (auto simp: memory_list_Inr)
  show "memory_list s' x = memory_list s x" if "x \<noteq> sid" for x
    using facts s that by (auto simp: memory_list_visible)
next
  fix s sid es
  assume s: "store_wf s" and es: "memory_list s sid = Inr es"
  show "map sequence es = [1..<Suc (length es)]"
    using s es by (simp add: memory_list_Inr store_wf_def contiguous_def)
  show "memory_list_after s sid after limit = Inr (take_limit limit (drop after es))" for after limit
    using s es by (simp add: memory_list_Inr memory_list_after_wf)
next
  fix s t sid p r s'
  assume "store_wf s" and "memory_append_next s t sid p = (r, s')"
  then show "store_wf s'" by (rule memory_append_next_wf(1))
next
  fix s t sid p err s' x
  assume "store_wf s" and "memory_append_next s t sid p = (Inl err, s')"
  then show "memory_list s' x = memory_list s x" using memory_append_next_wf(2) by fastforce
qed

text \<open>
  A store behind \<open>Arc<dyn EventStore>\<close> is the record of its operations. \<open>so_error_text\<close> is the
  text of an error, which the code derives.
\<close>

record 's EventStore =
  so_append_next :: "'s \<Rightarrow> stamp \<Rightarrow> uuid \<Rightarrow> EventPayload \<Rightarrow> (StoreError + Event) \<times> 's"
  so_list :: "'s \<Rightarrow> uuid \<Rightarrow> StoreError + Event list"
  so_list_after :: "'s \<Rightarrow> uuid \<Rightarrow> nat \<Rightarrow> nat option \<Rightarrow> StoreError + Event list"
  so_create_session :: "'s \<Rightarrow> uuid \<Rightarrow> stamp \<Rightarrow> (StoreError + uuid) \<times> 's"
  so_fork_session :: "'s \<Rightarrow> uuid \<Rightarrow> uuid \<Rightarrow> nat \<Rightarrow> (StoreError + uuid) \<times> 's"
  so_get_checkpoint :: "'s \<Rightarrow> uuid \<Rightarrow> StoreError + CheckpointInfo"
  so_list_sessions :: "'s \<Rightarrow> nat \<Rightarrow> StoreError + SessionInfo list"
  so_error_text :: "StoreError \<Rightarrow> string"

definition memory_ops :: "(StoreError \<Rightarrow> string) \<Rightarrow> MemoryEventStore EventStore" where
  "memory_ops err =
     \<lparr>so_append_next = memory_append_next, so_list = memory_list, so_list_after = memory_list_after,
      so_create_session = memory_create_session, so_fork_session = memory_fork_session,
      so_get_checkpoint = memory_get_checkpoint, so_list_sessions = memory_list_sessions,
      so_error_text = err\<rparr>"

lemma memory_ops_sel [simp]:
  "so_append_next (memory_ops err) = memory_append_next"
  "so_list (memory_ops err) = memory_list"
  "so_list_after (memory_ops err) = memory_list_after"
  "so_create_session (memory_ops err) = memory_create_session"
  "so_fork_session (memory_ops err) = memory_fork_session"
  "so_get_checkpoint (memory_ops err) = memory_get_checkpoint"
  "so_list_sessions (memory_ops err) = memory_list_sessions"
  "so_error_text (memory_ops err) = err"
  by (simp_all add: memory_ops_def)

locale store_client =
  fixes inv :: "'s \<Rightarrow> bool"
    and store :: "'s EventStore"
  assumes log_laws: "event_log inv (so_append_next store) (so_list store) (so_list_after store)"

sublocale store_client \<subseteq> event_log inv "so_append_next store" "so_list store" "so_list_after store"
  by (rule log_laws)

interpretation memory_client: store_client store_wf "memory_ops err" for err
  by (rule store_client.intro) (simp add: memory_log.event_log_axioms)

section \<open>Properties\<close>


text \<open>
  C26. The paging loop of \<open>list_after\<close> is a slice: for every store, cursor and limit it
  returns what the session sees after the cursor, at most \<open>limit\<close> events, numbered by their
  position. The segment bookkeeping never skips or repeats an event at the border between an
  ancestor's and the session's own events.
\<close>

theorem list_after_is_slice:
  "memory_list_after st sid after limit =
     (if limit = Some 0 then Inr []
      else if ms_events_poisoned st \<or> ms_sessions_poisoned st then Inl Poisoned
      else Inr (renumber after (take_limit limit (drop after (visible st sid)))))"
  by (rule memory_list_after_visible)


text \<open>
  A fork at \<open>up_to\<close> sees the first \<open>up_to\<close> events of its source when the source has no
  inherited prefix beyond \<open>up_to\<close>; other sessions see what they saw. A fork of a fork at a
  point inside the inherited prefix sees the whole inherited prefix instead, events after
  the fork point included.
\<close>

theorem fork_sees_prefix:
  assumes "store_run memory_default st" and "fresh_id st n"
    and "memory_fork_session st n source up_to = (Inr child, st')"
  shows "memory_list st' child = Inr (take (max up_to (length (inherited st source))) (visible st source))
    \<and> (\<forall>x. x \<noteq> child \<longrightarrow> visible st' x = visible st x)"
proof -
  have wf: "store_wf st" using store_run_wf [OF assms(1) store_wf_default] .
  show ?thesis
    using memory_fork_session_wf [OF wf assms(2,3)] by (simp add: memory_list_visible)
qed

text \<open>A store for the witnesses: a session with two events and a fork at its first.\<close>

definition demo_store0 :: MemoryEventStore where
  "demo_store0 = snd (memory_create_session memory_default 1 (100, 5))"

definition demo_store1 :: MemoryEventStore where
  "demo_store1 = snd (memory_append_next demo_store0 (101, 6) 1 (Plan \<lparr>plan_summary = ''p''\<rparr>))"

definition demo_store2 :: MemoryEventStore where
  "demo_store2 = snd (memory_fork_session demo_store1 2 1 1)"

definition demo_event :: "nat \<Rightarrow> Event" where
  "demo_event k = (if k = 1 then event_new (100, 5) 1 1 (Session Created)
                   else event_new (101, 6) 1 2 (Plan \<lparr>plan_summary = ''p''\<rparr>))"

lemma demo_fresh0: "fresh_id memory_default n"
  by (simp add: fresh_id_def memory_default_def)

lemma demo_create: "memory_create_session memory_default 1 (100, 5) = (Inr 1, demo_store0)"
  by (simp add: demo_store0_def memory_create_session_def memory_default_def)

lemma visible_default: "visible memory_default x = []"
  using visible_fresh [OF store_wf_acyclic [OF store_wf_default] demo_fresh0] .

lemma demo_visible0: "visible demo_store0 x = (if x = 1 then [demo_event 1] else [])"
  using memory_create_session_wf(2) [OF store_wf_default demo_fresh0 demo_create]
  by (simp add: demo_event_def visible_default)

lemma demo_wf0: "store_wf demo_store0"
  by (rule memory_create_session_wf(1) [OF store_wf_default demo_fresh0 demo_create])

lemma demo_healthy0: "store_healthy demo_store0"
  by (simp add: demo_store0_def memory_create_session_def memory_default_def store_healthy_def)

lemma demo_append:
  "memory_append_next demo_store0 (101, 6) 1 (Plan \<lparr>plan_summary = ''p''\<rparr>) = (Inr (demo_event 2), demo_store1)"
  using demo_healthy0
  by (simp add: demo_store1_def memory_append_next_def logical_head_visible store_healthy_def
      demo_visible0 demo_event_def Let_def numeral_2_eq_2)

lemma demo_visible1: "visible demo_store1 x = (if x = 1 then [demo_event 1, demo_event 2] else [])"
  and demo_healthy1: "store_healthy demo_store1"
  using memory_append_next_wf(2) [OF demo_wf0 demo_append] by (auto simp: demo_visible0)

lemma demo_store1_run: "store_run memory_default demo_store1"
proof -
  have "store_step memory_default demo_store0" using demo_create demo_fresh0 by (rule store_step.create)
  moreover have "store_step demo_store0 demo_store1" using demo_append by (rule store_step.append)
  ultimately show ?thesis by (blast intro: store_run.intros)
qed

lemma demo_store1_fields:
  "ms_events demo_store1 = [demo_event 1, demo_event 2]"
  "ms_sessions demo_store1 = [\<lparr>meta_id = 1, meta_parent = None, meta_fork_sequence = None\<rparr>]"
proof -
  have "ms_events demo_store0 = [demo_event 1]"
    "ms_sessions demo_store0 = [\<lparr>meta_id = 1, meta_parent = None, meta_fork_sequence = None\<rparr>]"
    by (simp_all add: demo_store0_def memory_create_session_def memory_default_def demo_event_def)
  moreover have "ms_events demo_store1 = ms_events demo_store0 @ [demo_event 2]"
    "ms_sessions demo_store1 = ms_sessions demo_store0"
    using memory_append_next_fields [OF demo_append] by simp_all
  ultimately show "ms_events demo_store1 = [demo_event 1, demo_event 2]"
    "ms_sessions demo_store1 = [\<lparr>meta_id = 1, meta_parent = None, meta_fork_sequence = None\<rparr>]"
    by simp_all
qed

lemma demo_fresh1: "fresh_id demo_store1 2"
  by (simp add: fresh_id_def demo_store1_fields demo_event_def)

lemma demo_fork: "memory_fork_session demo_store1 2 1 1 = (Inr 2, demo_store2)"
  using demo_healthy1 store_run_wf [OF demo_store1_run store_wf_default]
  by (simp add: demo_store2_def memory_fork_session_def validate_fork_sequence_def memory_list_visible
      demo_visible1 demo_event_def store_healthy_def)



theorem fork_sees_prefix_witness:
  "memory_list demo_store2 2 = Inr [demo_event 1]"
proof -
  have "inherited demo_store1 1 = []"
    using visible_split [OF store_wf_acyclic [OF store_run_wf [OF demo_store1_run store_wf_default]], of 1]
      demo_visible1 [of 1]
    by (simp add: own_def demo_store1_fields demo_event_def)
  then show ?thesis
    using fork_sees_prefix [OF demo_store1_run demo_fresh1 demo_fork] by (simp add: demo_visible1)
qed

end
