(* ===== verification/Projection.thy ===== *)
theory Projection
  imports Event_Store
begin

text \<open>
  The session projection, \<open>crates/impetus-core/src/projection.rs\<close>: the fold of a session's
  event list into its current state. \<open>project_event\<close> is the \<open>match\<close> on the payload,
  \<open>reduce_from\<close> the loop with its checks; the \<open>BTreeMap\<close>s are maps.
\<close>

record SessionProjection =
  projection_session_id :: uuid
  last_sequence :: nat
  latest_intent :: "string option"
  latest_intent_revision :: "nat option"
  latest_plan :: "string option"
  projection_workspace_root :: "string option"
  tool_summaries :: "string \<rightharpoonup> string"
  agent_output :: string
  agent_chunk_ids :: "uuid \<rightharpoonup> nat"
  pending_approvals :: "uuid \<rightharpoonup> ApprovalRequest"
  deferred_tools :: "uuid \<rightharpoonup> string \<times> string \<times> json"
  active_run_id :: "uuid option"
  last_run_id :: "uuid option"
  outcome :: "RunEvent option"
  execution_mode :: ExecutionMode

datatype ProjectionError =
    UnsupportedSchema uuid u16
  | MixedSession uuid uuid
  | NonContiguousSequence nat nat

definition projection_new :: "uuid \<Rightarrow> SessionProjection" where
  "projection_new sid =
     \<lparr>projection_session_id = sid, last_sequence = 0, latest_intent = None,
      latest_intent_revision = None, latest_plan = None, projection_workspace_root = None,
      tool_summaries = Map.empty, agent_output = [], agent_chunk_ids = Map.empty,
      pending_approvals = Map.empty, deferred_tools = Map.empty, active_run_id = None,
      last_run_id = None, outcome = None, execution_mode = Ask\<rparr>"

fun outcome_debug :: "ToolEventOutcome \<Rightarrow> string" where
  "outcome_debug Success = ''Success''"
| "outcome_debug Error = ''Error''"
| "outcome_debug ToolEventOutcome.Denied = ''Denied''"
| "outcome_debug ApprovalRequired = ''ApprovalRequired''"

fun project_tool :: "ToolEvent \<Rightarrow> SessionProjection \<Rightarrow> SessionProjection" where
  "project_tool (ToolEvent.Started name _) p =
     p\<lparr>tool_summaries := (tool_summaries p)(name \<mapsto> ''running'')\<rparr>"
| "project_tool (ToolEvent.Finished name summary _) p =
     p\<lparr>tool_summaries := (tool_summaries p)(name \<mapsto> summary)\<rparr>"
| "project_tool (ToolEvent.Output _ name _) p =
     p\<lparr>tool_summaries := (tool_summaries p)(name \<mapsto> ''running'')\<rparr>"
| "project_tool (ToolEvent.Observed _ name _ result _ _ _) p =
     p\<lparr>tool_summaries := (tool_summaries p)(name \<mapsto> outcome_debug result)\<rparr>"
| "project_tool (Deferred approval call name arguments) p =
     p\<lparr>deferred_tools := (deferred_tools p)(approval \<mapsto> (call, name, arguments))\<rparr>"
| "project_tool _ p = p"

fun project_agent :: "AgentEvent \<Rightarrow> SessionProjection \<Rightarrow> SessionProjection" where
  "project_agent (Chunk run_id chunk text _) p =
     (let last_chunk = unwrap_or (agent_chunk_ids p run_id) 0 in
      if last_chunk < chunk
      then p\<lparr>agent_chunk_ids := (agent_chunk_ids p)(run_id \<mapsto> chunk),
             agent_output := agent_output p @ text\<rparr>
      else p\<lparr>agent_chunk_ids := (agent_chunk_ids p)(run_id \<mapsto> last_chunk)\<rparr>)"
| "project_agent (Final run_id text) p =
     (if agent_chunk_ids p run_id = None then p\<lparr>agent_output := agent_output p @ text\<rparr> else p)"
| "project_agent (ReasoningSummary _ _) p = p"

fun run_event_id :: "RunEvent \<Rightarrow> uuid" where
  "run_event_id (RunEvent.Started r) = r"
| "run_event_id (Completed r) = r"
| "run_event_id (RunEvent.Failed r _) = r"
| "run_event_id (Cancelled r) = r"
| "run_event_id (InterruptedUnknown r) = r"

definition project_run :: "RunEvent \<Rightarrow> SessionProjection \<Rightarrow> SessionProjection" where
  "project_run e p =
     (case e of
        RunEvent.Started r \<Rightarrow> p\<lparr>active_run_id := Some r, last_run_id := Some r, outcome := None\<rparr>
      | _ \<Rightarrow> if active_run_id p = Some (run_event_id e)
             then p\<lparr>active_run_id := None, outcome := Some e\<rparr> else p)"

definition project_payload :: "nat \<Rightarrow> EventPayload \<Rightarrow> SessionProjection \<Rightarrow> SessionProjection" where
  "project_payload sq pay p =
     (case pay of
        Session (WorkspaceRoot root) \<Rightarrow> p\<lparr>projection_workspace_root := Some root\<rparr>
      | Session (ExecutionModeChanged mode) \<Rightarrow> p\<lparr>execution_mode := mode\<rparr>
      | Intent i \<Rightarrow> p\<lparr>latest_intent := Some (intent_text i), latest_intent_revision := Some sq\<rparr>
      | EventPayload.Plan pl \<Rightarrow> p\<lparr>latest_plan := Some (plan_summary pl)\<rparr>
      | Tool t \<Rightarrow> project_tool t p
      | EventPayload.Agent a \<Rightarrow> project_agent a p
      | Approval (Requested r) \<Rightarrow>
          p\<lparr>pending_approvals := (pending_approvals p)(request_id r \<mapsto> r)\<rparr>
      | Approval (Resolved r) \<Rightarrow>
          p\<lparr>pending_approvals := (pending_approvals p)(request_id r := None),
             deferred_tools := (deferred_tools p)(request_id r := None)\<rparr>
      | Run r \<Rightarrow> project_run r p
      | _ \<Rightarrow> p)"

definition project_event :: "Event \<Rightarrow> SessionProjection \<Rightarrow> SessionProjection" where
  "project_event e p = project_payload (sequence e) (payload e) (p\<lparr>last_sequence := sequence e\<rparr>)"

fun reduce_from :: "nat \<Rightarrow> SessionProjection \<Rightarrow> Event list \<Rightarrow> ProjectionError + SessionProjection" where
  "reduce_from index p [] = Inr p"
| "reduce_from index p (e # es) =
     (if schema_version e \<noteq> EVENT_SCHEMA_VERSION
      then Inl (ProjectionError.UnsupportedSchema (event_id e) (schema_version e))
      else if session_id e \<noteq> projection_session_id p
      then Inl (MixedSession (projection_session_id p) (session_id e))
      else if sequence e \<noteq> index + 1
      then Inl (NonContiguousSequence (index + 1) (sequence e))
      else reduce_from (index + 1) (project_event e p) es)"

definition reduce :: "Event list \<Rightarrow> ProjectionError + SessionProjection option" where
  "reduce events =
     (case events of
        [] \<Rightarrow> Inr None
      | first # _ \<Rightarrow>
          rbind (reduce_from 0 (projection_new (session_id first)) events) (\<lambda>p. Inr (Some p)))"

section \<open>Facts about the fold\<close>

lemma projection_new_sel [simp]:
  "projection_session_id (projection_new sid) = sid"
  "pending_approvals (projection_new sid) = Map.empty"
  "active_run_id (projection_new sid) = None"
  "last_run_id (projection_new sid) = None"
  "outcome (projection_new sid) = None"
  by (simp_all add: projection_new_def)

lemma project_tool_frame [simp]:
  "projection_session_id (project_tool t p) = projection_session_id p"
  "last_sequence (project_tool t p) = last_sequence p"
  "pending_approvals (project_tool t p) = pending_approvals p"
  "active_run_id (project_tool t p) = active_run_id p"
  "last_run_id (project_tool t p) = last_run_id p"
  "outcome (project_tool t p) = outcome p"
  "agent_output (project_tool t p) = agent_output p"
  "agent_chunk_ids (project_tool t p) = agent_chunk_ids p"
  by (cases t; simp)+

lemma project_agent_frame [simp]:
  "projection_session_id (project_agent a p) = projection_session_id p"
  "last_sequence (project_agent a p) = last_sequence p"
  "pending_approvals (project_agent a p) = pending_approvals p"
  "active_run_id (project_agent a p) = active_run_id p"
  "last_run_id (project_agent a p) = last_run_id p"
  "outcome (project_agent a p) = outcome p"
  by (cases a; simp add: Let_def)+

lemma project_run_frame [simp]:
  "projection_session_id (project_run r p) = projection_session_id p"
  "last_sequence (project_run r p) = last_sequence p"
  "pending_approvals (project_run r p) = pending_approvals p"
  by (cases r; simp add: project_run_def)+

lemma project_event_session [simp]:
  "projection_session_id (project_event e p) = projection_session_id p"
  by (simp add: project_event_def project_payload_def
      split: EventPayload.splits SessionEvent.splits ApprovalEvent.splits)

lemma project_event_last_sequence [simp]: "last_sequence (project_event e p) = sequence e"
  by (simp add: project_event_def project_payload_def
      split: EventPayload.splits SessionEvent.splits ApprovalEvent.splits)

definition event_ok :: "uuid \<Rightarrow> nat \<Rightarrow> Event \<Rightarrow> bool" where
  "event_ok sid sq e \<longleftrightarrow>
     schema_version e = EVENT_SCHEMA_VERSION \<and> session_id e = sid \<and> sequence e = sq"

lemma reduce_from_Inr:
  "reduce_from n p es = Inr q \<longleftrightarrow>
     list_all2 (event_ok (projection_session_id p)) [Suc n..<Suc n + length es] es
     \<and> q = fold project_event es p"
proof (induction n p es rule: reduce_from.induct)
  case (2 n p e es)
  have "[Suc n..<Suc n + length (e # es)] = Suc n # [Suc (Suc n)..<Suc (Suc n) + length es]"
    by (simp add: upt_conv_Cons del: upt_Suc)
  then show ?case using 2 by (auto simp: event_ok_def simp del: upt_Suc)
qed auto

lemma reduce_Some:
  "es \<noteq> [] \<Longrightarrow> reduce es = Inr (Some q) \<longleftrightarrow>
     list_all2 (event_ok (session_id (hd es))) [1..<Suc (length es)] es
     \<and> q = fold project_event es (projection_new (session_id (hd es)))"
  by (cases es) (auto simp: reduce_def rbind_eq_Inr_iff reduce_from_Inr simp del: upt_Suc reduce_from.simps)

lemma fold_project_session [simp]:
  "projection_session_id (fold project_event es p) = projection_session_id p"
  by (induction es arbitrary: p) simp_all

text \<open>What is true of runs after every event.\<close>

definition run_state_ok :: "SessionProjection \<Rightarrow> bool" where
  "run_state_ok p \<longleftrightarrow>
     (case active_run_id p of
        Some r \<Rightarrow> last_run_id p = Some r \<and> outcome p = None
      | None \<Rightarrow> (case outcome p of
                  None \<Rightarrow> last_run_id p = None
                | Some e \<Rightarrow> last_run_id p = Some (run_event_id e)
                            \<and> (\<forall>r. e \<noteq> RunEvent.Started r)))"

lemma run_state_ok_event: "run_state_ok p \<Longrightarrow> run_state_ok (project_event e p)"
  by (auto simp: run_state_ok_def project_event_def project_payload_def project_run_def
      split: EventPayload.splits SessionEvent.splits ApprovalEvent.splits RunEvent.splits option.splits)

lemma run_state_ok_fold: "run_state_ok p \<Longrightarrow> run_state_ok (fold project_event es p)"
  by (induction es arbitrary: p) (simp_all add: run_state_ok_event)

text \<open>The last word of the log on an approval id: requested, or resolved.\<close>

definition approval_of :: "uuid \<Rightarrow> Event \<Rightarrow> ApprovalRequest option option" where
  "approval_of i e =
     (case payload e of
        Approval (Requested r) \<Rightarrow> if request_id r = i then Some (Some r) else None
      | Approval (Resolved r) \<Rightarrow> if request_id r = i then Some None else None
      | _ \<Rightarrow> None)"

lemma pending_event:
  "pending_approvals (project_event e p) i = unwrap_or (approval_of i e) (pending_approvals p i)"
  by (auto simp: approval_of_def project_event_def project_payload_def
      split: EventPayload.splits SessionEvent.splits ApprovalEvent.splits)

lemma pending_fold:
  "pending_approvals (fold project_event es p) i =
     (case List.map_filter (approval_of i) es of [] \<Rightarrow> pending_approvals p i | rs \<Rightarrow> last rs)"
proof (induction es arbitrary: p)
  case (Cons e es)
  show ?case
    by (cases "approval_of i e")
      (auto simp: Cons.IH map_filter_simps pending_event split: list.splits)
qed (simp add: map_filter_simps)

section \<open>The projection of a stored session\<close>

definition schema_current :: "MemoryEventStore \<Rightarrow> bool" where
  "schema_current st \<longleftrightarrow> list_all (\<lambda>e. schema_version e = EVENT_SCHEMA_VERSION) (ms_events st)"

lemma schema_current_step: "store_step st st' \<Longrightarrow> schema_current st \<Longrightarrow> schema_current st'"
proof (induction rule: store_step.induct)
  case (append st stamp sid p r st')
  then show ?case
    by (auto simp: schema_current_def memory_append_next_def Let_def split: sum.splits if_splits)
next
  case (checkpoint st new_id now sid name sq r st')
  then show ?case using memory_create_checkpoint_same by (simp add: schema_current_def)
qed (auto simp: schema_current_def memory_create_session_def memory_fork_session_def
    memory_delete_session_def rbind_def Let_def list_all_iff split: if_splits sum.splits)

lemma schema_current_run: "store_run st st' \<Longrightarrow> schema_current st \<Longrightarrow> schema_current st'"
  by (induction rule: store_run.induct) (auto dest: schema_current_step)

lemma segments_subset: "set (segments events segs) \<subseteq> set events"
  by (induction segs) (auto simp: segment_events_def)

lemma visible_schema:
  "schema_current st \<Longrightarrow> e \<in> set (visible st sid) \<Longrightarrow> schema_version e = EVENT_SCHEMA_VERSION"
  using segments_subset by (fastforce simp: schema_current_def list_all_iff visible_def)

lemma reduce_from_contiguous:
  assumes "contiguous n es" "\<And>e. e \<in> set es \<Longrightarrow> schema_version e = EVENT_SCHEMA_VERSION"
  shows "reduce_from n p es =
    (case List.find (\<lambda>e. session_id e \<noteq> projection_session_id p) es of
       None \<Rightarrow> Inr (fold project_event es p)
     | Some e \<Rightarrow> Inl (MixedSession (projection_session_id p) (session_id e)))"
  using assms
proof (induction es arbitrary: n p)
  case (Cons e es)
  have "contiguous n [e]" "contiguous (Suc n) es"
    using Cons.prems(1) contiguous_append [of n "[e]" es] by simp_all
  then show ?case using Cons.IH [of "Suc n" "project_event e p"] Cons.prems(2) by (simp split: option.splits)
qed simp

lemma reduce_contiguous:
  assumes "contiguous 0 es" "\<And>e. e \<in> set es \<Longrightarrow> schema_version e = EVENT_SCHEMA_VERSION"
  shows "reduce es =
    (case es of
       [] \<Rightarrow> Inr None
     | first # _ \<Rightarrow>
         (case List.find (\<lambda>e. session_id e \<noteq> session_id first) es of
            None \<Rightarrow> Inr (Some (fold project_event es (projection_new (session_id first))))
          | Some e \<Rightarrow> Inl (MixedSession (session_id first) (session_id e))))"
proof (cases es)
  case (Cons first rest)
  then show ?thesis
    using reduce_from_contiguous [OF assms, of "projection_new (session_id first)"]
    by (simp add: reduce_def rbind_def del: reduce_from.simps split: option.splits)
qed (simp add: reduce_def)

lemma reduce_visible:
  assumes "store_wf st" "schema_current st"
  shows "reduce (visible st sid) =
    (case visible st sid of
       [] \<Rightarrow> Inr None
     | first # _ \<Rightarrow>
         (case List.find (\<lambda>e. session_id e \<noteq> session_id first) (visible st sid) of
            None \<Rightarrow> Inr (Some (fold project_event (visible st sid) (projection_new (session_id first))))
          | Some e \<Rightarrow> Inl (MixedSession (session_id first) (session_id e))))"
  using assms visible_schema by (intro reduce_contiguous) (auto simp: store_wf_def)

lemma schema_current_default: "schema_current memory_default"
  by (simp add: schema_current_def memory_default_def)

section \<open>Properties\<close>

text \<open>
  The result of \<open>reduce\<close> is defined exactly on logs of one session, of the current schema and
  numbered from 1; it is then the left fold of the events. A pending approval is one whose last
  event in the log is its request; an active run is the last one started and has no outcome, and an
  outcome is the final event of the last run.
\<close>

theorem reduce_current_state:
  assumes "reduce es = Inr (Some q)"
  shows "list_all2 (event_ok (projection_session_id q)) [1..<Suc (length es)] es
    \<and> q = fold project_event es (projection_new (projection_session_id q))
    \<and> run_state_ok q
    \<and> (\<forall>i. pending_approvals q i =
          (case List.map_filter (approval_of i) es of [] \<Rightarrow> None | rs \<Rightarrow> last rs))"
proof -
  have ne: "es \<noteq> []" using assms by (auto simp: reduce_def)
  note q = assms [unfolded reduce_Some [OF ne]]
  have "run_state_ok q"
    using q run_state_ok_fold [of "projection_new (session_id (hd es))" es]
    by (simp add: run_state_ok_def)
  then show ?thesis using q by (simp add: pending_fold split: list.splits del: upt_Suc)
qed

text \<open>
  C14. For every reachable store and session, \<open>reduce\<close> of the listed events returns the fold of the
  events when they all carry one session id, and otherwise a mixed-session error that names the first
  event of another session. It never reports a numbering or schema error.
\<close>

theorem projection_of_store:
  assumes "store_run memory_default st"
  shows "reduce (visible st sid) =
    (case visible st sid of
       [] \<Rightarrow> Inr None
     | first # _ \<Rightarrow>
         (case List.find (\<lambda>e. session_id e \<noteq> session_id first) (visible st sid) of
            None \<Rightarrow> Inr (Some (fold project_event (visible st sid) (projection_new (session_id first))))
          | Some e \<Rightarrow> Inl (MixedSession (session_id first) (session_id e))))"
  using assms store_run_wf [OF _ store_wf_default] schema_current_run [OF _ schema_current_default]
  by (intro reduce_visible) auto

text \<open>
  The first event appended to a fork ends its projection: the listed events of the fork then
  mix the ids of the source and of the fork, and \<open>reduce\<close> fails on them.
\<close>

theorem fork_append_not_reducible:
  assumes "store_run memory_default st" and "fresh_id st n"
    and "memory_fork_session st n source up_to = (Inr child, st1)"
    and "memory_append_next st1 stamp child p = (Inr e, st2)"
  shows "\<exists>es a b. memory_list st2 child = Inr es \<and> a \<noteq> b \<and> reduce es = Inl (MixedSession a b)"
proof -
  have run1: "store_run memory_default st1"
    using assms(1-3) by (blast intro: store_run.step store_step.fork)
  have run2: "store_run memory_default st2"
    using run1 assms(4) by (blast intro: store_run.step store_step.append)
  note wf = store_run_wf [OF assms(1) store_wf_default] store_run_wf [OF run1 store_wf_default]
    store_run_wf [OF run2 store_wf_default]
  note fork = memory_fork_session_wf [OF wf(1) assms(2,3)]
  have child: "visible st1 child = take (max up_to (length (inherited st source))) (visible st source)"
    "child = n" "0 < up_to" "up_to \<le> length (visible st source)"
    using fork(2) by auto
  have up: "visible st1 child \<noteq> []" using child by auto
  have ids: "session_id x \<noteq> child" if "x \<in> set (visible st1 child)" for x
  proof -
    have "x \<in> set (visible st source)" using that in_set_takeD unfolding child(1) by fast
    then have "x \<in> set (ms_events st)" using segments_subset unfolding visible_def by blast
    then show ?thesis using assms(2) unfolding child(2) fresh_id_def by blast
  qed
  obtain first rest where v: "visible st1 child = first # rest" using up by (cases "visible st1 child") auto
  have v2: "visible st2 child = first # rest @ [e]" and e: "session_id e = child" and h: "store_healthy st2"
    using memory_append_next_wf(2) [OF wf(2) assms(4)] v by auto
  have "\<exists>b. b \<noteq> session_id first \<and> reduce (visible st2 child) = Inl (MixedSession (session_id first) b)"
    using reduce_visible [OF wf(3) schema_current_run [OF run2 schema_current_default], of child] e ids [of first] v v2
    by (auto simp: find_None_iff split: option.splits dest: find_Some_mem)
  then show ?thesis using h wf(3) by (metis memory_list_visible)
qed

text \<open>A log with an intent, a run and a pending approval, for the witnesses.\<close>

definition demo_log :: "Event list" where
  "demo_log =
     [event_new (100, 5) 1 1 (Session Created),
      event_new (101, 6) 1 2 (Intent (intent_new ''fix'')),
      event_new (102, 7) 1 3 (Run (RunEvent.Started 7)),
      event_new (103, 8) 1 4 (EventPayload.Agent (Chunk 7 1 ''ok'' None))]"

theorem reduce_current_state_witness:
  "\<exists>q. reduce demo_log = Inr (Some q) \<and> run_state_ok q \<and> active_run_id q = Some 7
     \<and> agent_output q = ''ok'' \<and> latest_intent_revision q = Some 2 \<and> pending_approvals q 9 = None"
proof -
  obtain q where q: "reduce demo_log = Inr (Some q)" and a: "active_run_id q = Some 7"
    "agent_output q = ''ok''" "latest_intent_revision q = Some 2"
    by (simp add: demo_log_def reduce_def rbind_def project_event_def project_payload_def
        project_run_def projection_new_def intent_new_def)
  have "run_state_ok q \<and> pending_approvals q 9 = None"
    using reduce_current_state [OF q]
    by (simp add: demo_log_def map_filter_simps approval_of_def)
  then show ?thesis using q a by blast
qed

theorem projection_of_store_witness:
  "reduce (visible demo_store1 1) =
     Inr (Some (fold project_event [demo_event 1, demo_event 2] (projection_new 1)))"
  using projection_of_store [OF demo_store1_run, of 1] by (simp add: demo_visible1 demo_event_def)

theorem fork_append_not_reducible_witness:
  "\<exists>st2 e es a b. memory_append_next demo_store2 (103, 8) 2 (Session Attached) = (Inr e, st2)
     \<and> memory_list st2 2 = Inr es \<and> a \<noteq> b \<and> reduce es = Inl (MixedSession a b)"
proof -
  have "store_healthy demo_store2"
    using memory_fork_session_wf(2) [OF store_run_wf [OF demo_store1_run store_wf_default] demo_fresh1 demo_fork]
    by simp
  then obtain e st2 where a: "memory_append_next demo_store2 (103, 8) 2 (Session Attached) = (Inr e, st2)"
    by (simp add: memory_append_next_def logical_head_visible store_healthy_def Let_def)
  show ?thesis
    using fork_append_not_reducible [OF demo_store1_run demo_fresh1 demo_fork a] a by blast
qed

end
