(* ===== verification/Risk_Gate.thy ===== *)
theory Risk_Gate
  imports Protocol_Types
begin

text \<open>
  The normalized effects of \<open>crates/impetus-core/src/effects.rs\<close> and the deterministic risk
  gate of \<open>risk_gate.rs\<close>: argv-aware heuristics that run after the policy and the execution
  mode. A risk gate (\<open>dyn RiskGate\<close>) is a function from the context to a decision.
\<close>

section \<open>Normalized effects\<close>

type_synonym CapabilityVersion = u32

definition CapabilityVersion_V1 :: CapabilityVersion where
  "CapabilityVersion_V1 = 1"

datatype EffectCapability = WorkspaceRead | WorkspaceWrite | ProcessSpawn | NetworkConnect

record NormalizedEffect =
  effect_origin :: ActionOrigin
  effect_capability :: EffectCapability
  effect_version :: CapabilityVersion
  effect_action :: Action

definition normalized :: "ActionOrigin \<Rightarrow> EffectCapability \<Rightarrow> ActionKind \<Rightarrow> string \<Rightarrow> string \<Rightarrow> NormalizedEffect" where
  "normalized origin capability kind summary target =
     \<lparr>effect_origin = origin, effect_capability = capability, effect_version = CapabilityVersion_V1,
      effect_action = \<lparr>action_origin = origin, action_kind = kind, action_summary = summary,
                       action_target = Some target\<rparr>\<rparr>"

definition workspace_read :: "ActionOrigin \<Rightarrow> string \<Rightarrow> string \<Rightarrow> NormalizedEffect" where
  "workspace_read origin = normalized origin WorkspaceRead ReadFile"

definition workspace_write :: "ActionOrigin \<Rightarrow> string \<Rightarrow> string \<Rightarrow> NormalizedEffect" where
  "workspace_write origin = normalized origin WorkspaceWrite WriteFile"

definition process_spawn :: "ActionOrigin \<Rightarrow> string \<Rightarrow> string \<Rightarrow> NormalizedEffect" where
  "process_spawn origin = normalized origin ProcessSpawn SpawnProcess"

definition network_connect :: "ActionOrigin \<Rightarrow> string \<Rightarrow> string \<Rightarrow> NormalizedEffect" where
  "network_connect origin =
     normalized origin EffectCapability.NetworkConnect ActionKind.NetworkConnect"

definition ssh_connect :: "ActionOrigin \<Rightarrow> string \<Rightarrow> string \<Rightarrow> NormalizedEffect" where
  "ssh_connect origin = normalized origin EffectCapability.NetworkConnect SshConnect"

fun capability_of_kind :: "ActionKind \<Rightarrow> EffectCapability" where
  "capability_of_kind ReadFile = WorkspaceRead"
| "capability_of_kind WriteFile = WorkspaceWrite"
| "capability_of_kind SpawnProcess = ProcessSpawn"
| "capability_of_kind TmuxAttach = ProcessSpawn"
| "capability_of_kind _ = EffectCapability.NetworkConnect"

definition normalized_effect_from_action :: "Action \<Rightarrow> u32 option \<Rightarrow> NormalizedEffect option" where
  "normalized_effect_from_action action capability_version =
     (let version = unwrap_or capability_version 1;
          target = unwrap_or (action_target action) []
      in Some (if action_kind action = SshConnect
               then ssh_connect (action_origin action) (action_summary action) target
               else \<lparr>effect_origin = action_origin action,
                     effect_capability = capability_of_kind (action_kind action),
                     effect_version = version, effect_action = action\<rparr>))"

section \<open>The gate\<close>

datatype RiskGateDecision = Allow | NeedsHumanApproval string | Deny string

record RiskContext =
  risk_mode :: ExecutionMode
  risk_effect :: NormalizedEffect
  risk_argv :: "string list option"

fun classify_workspace_write :: "ExecutionMode \<Rightarrow> RiskGateDecision" where
  "classify_workspace_write Plan = RiskGateDecision.Deny ''PLAN mode denies workspace writes''"
| "classify_workspace_write Ask =
     NeedsHumanApproval ''workspace write requires human approval in ASK mode''"
| "classify_workspace_write _ = RiskGateDecision.Allow"

definition is_safe_readonly_command :: "string \<Rightarrow> bool" where
  "is_safe_readonly_command command =
     (let lower = to_ascii_lowercase (trim command) in
      (starts_with lower ''git status'' \<or> starts_with lower ''git diff'')
      \<or> (starts_with lower ''rg '' \<or> starts_with lower ''grep '' \<or> starts_with lower ''cargo check''
         \<or> starts_with lower ''cargo test --no-run'' \<or> starts_with lower ''cargo fmt --check''
         \<or> starts_with lower ''cargo clippy'')
      \<or> lower \<in> {''git status'', ''git diff'', ''pwd'', ''ls'', ''cargo check''})"

text \<open>The last branch of the \<open>match\<close> is \<open>unreachable!\<close>: \<open>Plan\<close> was handled above.\<close>

definition classify_process_spawn :: "ExecutionMode \<Rightarrow> string \<Rightarrow> RiskGateDecision" where
  "classify_process_spawn mode command =
     (if mode = Plan then RiskGateDecision.Deny ''PLAN mode denies process spawn''
      else if is_safe_readonly_command command then RiskGateDecision.Allow
      else case mode of
        Ask \<Rightarrow> NeedsHumanApproval ''process spawn requires human approval in ASK mode''
      | AcceptEdits \<Rightarrow> NeedsHumanApproval ''mutating or non-readonly process requires human approval''
      | Auto \<Rightarrow> NeedsHumanApproval ''mutating or non-readonly process requires human approval''
      | Bypass \<Rightarrow> RiskGateDecision.Allow
      | Plan \<Rightarrow> RiskGateDecision.Deny ''PLAN mode denies process spawn'')"

fun classify_outbound_web :: "ExecutionMode \<Rightarrow> RiskGateDecision" where
  "classify_outbound_web Plan = RiskGateDecision.Deny ''PLAN mode denies outbound web actions''"
| "classify_outbound_web Ask = NeedsHumanApproval ''outbound web requires human approval in ASK mode''"
| "classify_outbound_web _ = NeedsHumanApproval ''outbound web requires human approval''"

fun classify_network_like :: "ExecutionMode \<Rightarrow> RiskGateDecision" where
  "classify_network_like Plan = RiskGateDecision.Deny ''PLAN mode denies network actions''"
| "classify_network_like Bypass = RiskGateDecision.Allow"
| "classify_network_like _ = NeedsHumanApproval ''network action requires human approval''"

definition command_text :: "string list option \<Rightarrow> Action \<Rightarrow> string" where
  "command_text argv action =
     (case argv of
        Some args \<Rightarrow> if args = [] then action_summary action else str_join '' '' args
      | None \<Rightarrow>
          (case action_target action of
             Some target \<Rightarrow> action_summary action @ '' '' @ target
           | None \<Rightarrow> action_summary action))"

definition is_opaque_shell :: "string list option \<Rightarrow> string \<Rightarrow> bool" where
  "is_opaque_shell argv command =
     ((case argv of
         Some (a0 # a1 # _) \<Rightarrow>
           last (split_on slash a0) \<in> {''sh'', ''bash'', ''zsh'', ''dash'', ''ksh''}
           \<and> a1 \<in> {''-c'', ''-lc'', ''-ic''}
       | _ \<Rightarrow> False)
      \<or> str_contains command ''|'' \<or> str_contains command ''&&'' \<or> str_contains command ''||''
      \<or> str_contains command '';'' \<or> str_contains command ''$('' \<or> str_contains command [CHR 0x60])"

definition contains_privilege_escalation :: "string \<Rightarrow> bool" where
  "contains_privilege_escalation command =
     list_ex (\<lambda>token. to_ascii_lowercase (unwrap_or (file_name token) token)
                        \<in> {''sudo'', ''doas'', ''su'', ''pkexec''})
       (split_whitespace command)"

definition contains_destructive_git :: "string \<Rightarrow> bool" where
  "contains_destructive_git command =
     (let lower = to_ascii_lowercase command in
      (str_contains lower ''git push''
         \<and> (str_contains lower ''--force'' \<or> str_contains lower ''-f''))
      \<or> str_contains lower ''git reset --hard''
      \<or> str_contains lower ''git clean -f'')"

abbreviation backslash :: char where
  "backslash \<equiv> CHR 0x5C"

definition path_escape_in_target :: "NormalizedEffect \<Rightarrow> bool" where
  "path_escape_in_target effect =
     (case action_target (effect_action effect) of
        None \<Rightarrow> False
      | Some target \<Rightarrow>
          str_contains target ''/../'' \<or> str_contains target ([backslash] @ ''..'' @ [backslash])
          \<or> starts_with target ''../'' \<or> starts_with target (''..'' @ [backslash]))"

definition classify :: "RiskContext \<Rightarrow> RiskGateDecision" where
  "classify ctx =
     (let effect = risk_effect ctx;
          action = effect_action effect;
          command = command_text (risk_argv ctx) action
      in if contains_privilege_escalation command
         then RiskGateDecision.Deny ''privilege escalation command is never auto-allowed''
         else if contains_destructive_git command
         then RiskGateDecision.Deny ''destructive git command is never auto-allowed''
         else if path_escape_in_target effect
         then RiskGateDecision.Deny ''path escape attempt outside workspace scope''
         else if action_origin action = ActionOrigin.User then RiskGateDecision.Allow
         else if action_kind action = SpawnProcess \<and> is_opaque_shell (risk_argv ctx) command
         then NeedsHumanApproval ''opaque shell invocation requires human review''
         else case action_kind action of
           ReadFile \<Rightarrow> RiskGateDecision.Allow
         | WriteFile \<Rightarrow> classify_workspace_write (risk_mode ctx)
         | SpawnProcess \<Rightarrow> classify_process_spawn (risk_mode ctx) command
         | WebSearch \<Rightarrow> RiskGateDecision.Allow
         | WebFetch \<Rightarrow> RiskGateDecision.Allow
         | WebDownload \<Rightarrow> classify_outbound_web (risk_mode ctx)
         | WebBrowser \<Rightarrow> classify_outbound_web (risk_mode ctx)
         | WebSubmit \<Rightarrow> classify_outbound_web (risk_mode ctx)
         | WebUpload \<Rightarrow> classify_outbound_web (risk_mode ctx)
         | ActionKind.NetworkConnect \<Rightarrow> classify_network_like (risk_mode ctx)
         | SshConnect \<Rightarrow> classify_network_like (risk_mode ctx)
         | SftpTransfer \<Rightarrow> classify_network_like (risk_mode ctx)
         | TmuxAttach \<Rightarrow> classify_network_like (risk_mode ctx))"

definition is_mutating_effect :: "NormalizedEffect \<Rightarrow> bool" where
  "is_mutating_effect effect =
     (case effect_capability effect of
        WorkspaceWrite \<Rightarrow> True
      | ProcessSpawn \<Rightarrow> True
      | EffectCapability.NetworkConnect \<Rightarrow>
          action_kind (effect_action effect) \<notin> {WebSearch, WebFetch}
      | WorkspaceRead \<Rightarrow> False)"

definition is_read_only_effect :: "NormalizedEffect \<Rightarrow> bool" where
  "is_read_only_effect effect =
     (action_kind (effect_action effect) \<in> {ReadFile, WebSearch, WebFetch}
      \<or> (action_kind (effect_action effect) = SpawnProcess
         \<and> is_safe_readonly_command (command_text None (effect_action effect))))"

section \<open>Words of a command line\<close>

lemma ws_len_before_space: "u \<noteq> [] \<Longrightarrow> ws_len (u @ CHR '' '' # r) = ws_len u"
  by (cases u rule: ws_len.cases; cases r rule: ws_len.cases)
    (auto simp: ws2_def ws3_def)

lemma split_ws_space: "split_ws acc (u @ CHR '' '' # r) = split_ws acc u @ split_ws [] r"
proof (induction acc u rule: split_ws.induct)
  case (1 acc u)
  show ?case
  proof (cases "u = []")
    case True
    have "ws_len (CHR '' '' # r) = 1"
      by (cases r rule: ws_len.cases) (auto simp: ascii_ws_def)
    with True show ?thesis
      by (simp add: split_ws.simps [of acc "CHR '' '' # r"] split_ws.simps [of acc "[]"])
  next
    case False
    have "drop (ws_len u) (u @ CHR '' '' # r) = drop (ws_len u) u @ CHR '' '' # r"
      using ws_len_le [of u] by simp
    with False 1 show ?thesis
      by (simp add: split_ws.simps [of acc "u @ CHR '' '' # r"] split_ws.simps [of acc u]
          ws_len_before_space)
  qed
qed

lemma split_whitespace_join:
  "ws \<noteq> [] \<Longrightarrow> split_whitespace (str_join '' '' ws) = concat (map split_whitespace ws)"
proof (induction ws)
  case (Cons w ws)
  then show ?case
    by (cases "ws = []") (simp_all add: str_join_Cons split_whitespace_def split_ws_space)
qed simp

definition one_word :: "string \<Rightarrow> bool" where
  "one_word w \<longleftrightarrow> w \<noteq> [] \<and> (\<forall>i < length w. ws_len (drop i w) = 0)"

lemma split_ws_no_space:
  "\<forall>i < length w. ws_len (drop i w) = 0 \<Longrightarrow>
   split_ws acc w = (if acc = [] \<and> w = [] then [] else [rev acc @ w])"
proof (induction w arbitrary: acc)
  case (Cons c w)
  have "ws_len (c # w) = 0" using Cons.prems by force
  moreover have "\<forall>i < length w. ws_len (drop i w) = 0"
    using Cons.prems by (metis Suc_less_eq drop_Suc_Cons length_Cons)
  ultimately show ?case using Cons.IH by (simp add: split_ws.simps [of acc "c # w"])
qed (simp add: split_ws.simps)

lemma split_whitespace_one_word: "one_word w \<Longrightarrow> split_whitespace w = [w]"
  by (simp add: one_word_def split_whitespace_def split_ws_no_space)

section \<open>Facts about the gate\<close>

text \<open>The refusals that no mode and no origin lifts.\<close>

definition never_allowed :: "RiskContext \<Rightarrow> bool" where
  "never_allowed ctx \<longleftrightarrow>
     (let command = command_text (risk_argv ctx) (effect_action (risk_effect ctx)) in
      contains_privilege_escalation command \<or> contains_destructive_git command
      \<or> path_escape_in_target (risk_effect ctx))"

lemma classify_never_allowed:
  "never_allowed ctx \<Longrightarrow> \<exists>reason. classify ctx = RiskGateDecision.Deny reason"
  by (auto simp: never_allowed_def classify_def Let_def)

lemma classify_otherwise:
  "\<not> never_allowed ctx \<Longrightarrow> classify ctx =
     (let action = effect_action (risk_effect ctx); command = command_text (risk_argv ctx) action in
      if action_origin action = ActionOrigin.User then RiskGateDecision.Allow
      else if action_kind action = SpawnProcess \<and> is_opaque_shell (risk_argv ctx) command
      then NeedsHumanApproval ''opaque shell invocation requires human review''
      else if action_kind action \<in> {ReadFile, WebSearch, WebFetch} then RiskGateDecision.Allow
      else if action_kind action = WriteFile then classify_workspace_write (risk_mode ctx)
      else if action_kind action = SpawnProcess then classify_process_spawn (risk_mode ctx) command
      else if action_kind action \<in> {WebDownload, WebBrowser, WebSubmit, WebUpload}
      then classify_outbound_web (risk_mode ctx)
      else classify_network_like (risk_mode ctx))"
  by (cases "action_kind (effect_action (risk_effect ctx))")
    (auto simp: never_allowed_def classify_def Let_def)

lemma classify_workspace_write_iff:
  "classify_workspace_write m = RiskGateDecision.Allow \<longleftrightarrow> m \<in> {AcceptEdits, Auto, Bypass}"
  by (cases m) simp_all

lemma classify_outbound_web_not_Allow [simp]: "classify_outbound_web m \<noteq> RiskGateDecision.Allow"
  by (cases m) simp_all

lemma classify_network_like_iff:
  "classify_network_like m = RiskGateDecision.Allow \<longleftrightarrow> m = Bypass"
  by (cases m) simp_all

lemma classify_process_spawn_iff:
  "classify_process_spawn m command = RiskGateDecision.Allow \<longleftrightarrow>
     m = Bypass \<or> (m \<noteq> Plan \<and> is_safe_readonly_command command)"
  by (cases m) (simp_all add: classify_process_spawn_def)

section \<open>Properties\<close>

text \<open>
  What the risk gate lets an agent do by itself. For an action of the agent the gate
  answers \<open>Allow\<close> exactly when nothing forbidden is in the command or target and the action
  is a read or a read-only web request; a workspace write in a mode that accepts edits;
  a process that is not an opaque shell, and is on the read-only list (outside \<open>PLAN\<close>) or
  started in \<open>BYPASS\<close>; or a connection in \<open>BYPASS\<close>. Outbound web actions are never allowed
  without a human.
\<close>

theorem classify_agent_allow:
  assumes "action_origin (effect_action (risk_effect ctx)) = ActionOrigin.Agent"
  shows "classify ctx = RiskGateDecision.Allow \<longleftrightarrow> \<not> never_allowed ctx \<and>
    (case action_kind (effect_action (risk_effect ctx)) of
       ReadFile \<Rightarrow> True
     | WebSearch \<Rightarrow> True
     | WebFetch \<Rightarrow> True
     | WriteFile \<Rightarrow> risk_mode ctx \<in> {AcceptEdits, Auto, Bypass}
     | SpawnProcess \<Rightarrow>
         (let command = command_text (risk_argv ctx) (effect_action (risk_effect ctx)) in
          \<not> is_opaque_shell (risk_argv ctx) command
          \<and> (risk_mode ctx = Bypass \<or> risk_mode ctx \<noteq> Plan \<and> is_safe_readonly_command command))
     | WebDownload \<Rightarrow> False
     | WebBrowser \<Rightarrow> False
     | WebSubmit \<Rightarrow> False
     | WebUpload \<Rightarrow> False
     | _ \<Rightarrow> risk_mode ctx = Bypass)"
proof (cases "never_allowed ctx")
  case True
  then show ?thesis using classify_never_allowed [OF True] by auto
next
  case False
  show ?thesis
    unfolding classify_otherwise [OF False] using assms False
    by (cases "action_kind (effect_action (risk_effect ctx))")
      (simp_all add: Let_def classify_workspace_write_iff classify_process_spawn_iff
         classify_network_like_iff)
qed

definition agent_write_context :: "ExecutionMode \<Rightarrow> RiskContext" where
  "agent_write_context mode =
     \<lparr>risk_mode = mode, risk_effect = workspace_write ActionOrigin.Agent ''edit'' ''a.txt'', risk_argv = None\<rparr>"

theorem classify_agent_allow_witness:
  "classify (agent_write_context AcceptEdits) = RiskGateDecision.Allow
   \<and> classify (agent_write_context Ask) \<noteq> RiskGateDecision.Allow"
proof -
  have origin: "action_origin (effect_action (risk_effect (agent_write_context m))) = ActionOrigin.Agent" for m
    by (simp add: agent_write_context_def workspace_write_def normalized_def)
  have "\<not> never_allowed (agent_write_context AcceptEdits)" by code_simp
  then show ?thesis
    using classify_agent_allow [OF origin, of AcceptEdits] classify_agent_allow [OF origin, of Ask]
    by (simp add: agent_write_context_def workspace_write_def normalized_def)
qed

text \<open>
  A privilege-escalation program cannot hide in an argument vector: if any argument is a
  single word whose file name is, in any case, \<open>sudo\<close>, \<open>doas\<close>, \<open>su\<close> or \<open>pkexec\<close>, with or
  without a directory, the gate refuses the effect in every mode and for every origin.
\<close>

theorem escalation_in_any_argument:
  assumes "risk_argv ctx = Some argv" and "word \<in> set argv" and "one_word word"
    and "file_name word = Some base"
    and "to_ascii_lowercase base \<in> {''sudo'', ''doas'', ''su'', ''pkexec''}"
  shows "classify ctx = RiskGateDecision.Deny ''privilege escalation command is never auto-allowed''"
proof -
  have "argv \<noteq> []" using assms(2) by auto
  then have "command_text (risk_argv ctx) a = str_join '' '' argv" for a
    by (simp add: command_text_def assms(1))
  moreover have "word \<in> set (split_whitespace (str_join '' '' argv))"
    using \<open>argv \<noteq> []\<close> assms(2) split_whitespace_one_word [OF assms(3)]
    by (auto simp: split_whitespace_join intro!: bexI [of _ word])
  then have "contains_privilege_escalation (str_join '' '' argv)"
    using assms(4,5) by (auto simp: contains_privilege_escalation_def list_ex_iff intro!: bexI [of _ word])
  ultimately show ?thesis by (simp add: classify_def Let_def)
qed

theorem escalation_in_any_argument_witness:
  "classify \<lparr>risk_mode = Bypass, risk_effect = process_spawn ActionOrigin.User ''run'' ''env'',
             risk_argv = Some [''env'', ''/usr/bin/SUDO'', ''ls'']\<rparr>
   = RiskGateDecision.Deny ''privilege escalation command is never auto-allowed''"
proof (rule escalation_in_any_argument [where argv = "[''env'', ''/usr/bin/SUDO'', ''ls'']"])
  show "one_word ''/usr/bin/SUDO''"
    by (simp add: one_word_def less_Suc_eq ascii_ws_def ws2_def ws3_def)
  show "file_name ''/usr/bin/SUDO'' = Some ''SUDO''" by code_simp
  show "to_ascii_lowercase ''SUDO'' \<in> {''sudo'', ''doas'', ''su'', ''pkexec''}" by code_simp
qed simp_all

end
