(* ===== verification/Effect_Fence.thy ===== *)
theory Effect_Fence
  imports Risk_Gate Event_Store "HOL-Library.AList" "HOL-Library.Multiset"
begin

text \<open>
  The write-ahead effect fence, \<open>crates/impetus-core/src/effect_fence.rs\<close>: the durable identity
  of an effect, the fold of fence events into records, the ledger over the event store and the
  decision whether an effect may run again.

  A \<open>HashMap\<close> is an association list with distinct keys; the order in which \<open>into_values\<close>
  visits it is an argument, a function that permutes the list. The id of a new invocation and
  the stamps of appended events are arguments.
\<close>

section \<open>Identity and state\<close>

type_synonym ArgsDigest = string

record EffectInvocationIdentity =
  identity_effect_id :: uuid
  identity_args_digest :: ArgsDigest
  identity_kind :: string
  identity_target_label :: "string option"

datatype FenceState = Prepared | Started | Observed | Failed | Unknown

definition is_terminal :: "FenceState \<Rightarrow> bool" where
  "is_terminal s \<longleftrightarrow> s \<in> {FenceState.Observed, FenceState.Failed, FenceState.Unknown}"

definition blocks_blind_replay :: "FenceState \<Rightarrow> bool" where
  "blocks_blind_replay s \<longleftrightarrow> s \<in> {FenceState.Started, FenceState.Unknown}"

record EffectFenceRecord =
  record_identity :: EffectInvocationIdentity
  record_state :: FenceState
  record_summary :: "string option"

datatype FenceReplayDecision =
    AllowFresh
  | AlreadyObserved "string option"
  | AlreadyFailed "string option"
  | Refuse string

datatype EffectFenceError = Store string | RefuseReplay string

definition em_dash :: string where
  "em_dash = [CHR 0xE2, CHR 0x80, CHR 0x94]"

definition digest_args :: "externals \<Rightarrow> string list \<Rightarrow> ArgsDigest" where
  "digest_args X parts = hex_encode (sha256 X (str_join [CHR 0x00] parts))"

fun capability_label :: "EffectCapability \<Rightarrow> string" where
  "capability_label WorkspaceRead = ''workspace_read''"
| "capability_label WorkspaceWrite = ''workspace_write''"
| "capability_label ProcessSpawn = ''process_spawn''"
| "capability_label EffectCapability.NetworkConnect = ''network_connect''"

fun origin_label :: "ActionOrigin \<Rightarrow> string" where
  "origin_label ActionOrigin.User = ''user''"
| "origin_label ActionOrigin.Agent = ''agent''"

text \<open>The snake-case names of the kinds, as \<open>rename_all\<close> on the enum gives them.\<close>

fun action_kind_label :: "ActionKind \<Rightarrow> string" where
  "action_kind_label ReadFile = ''read_file''"
| "action_kind_label WriteFile = ''write_file''"
| "action_kind_label SpawnProcess = ''spawn_process''"
| "action_kind_label ActionKind.NetworkConnect = ''network_connect''"
| "action_kind_label SshConnect = ''ssh_connect''"
| "action_kind_label SftpTransfer = ''sftp_transfer''"
| "action_kind_label TmuxAttach = ''tmux_attach''"
| "action_kind_label WebSearch = ''web_search''"
| "action_kind_label WebFetch = ''web_fetch''"
| "action_kind_label WebDownload = ''web_download''"
| "action_kind_label WebBrowser = ''web_browser''"
| "action_kind_label WebSubmit = ''web_submit''"
| "action_kind_label WebUpload = ''web_upload''"

definition args_digest_for_effect :: "externals \<Rightarrow> NormalizedEffect \<Rightarrow> ArgsDigest" where
  "args_digest_for_effect X effect =
     digest_args X
       [capability_label (effect_capability effect),
        action_kind_label (action_kind (effect_action effect)),
        origin_label (effect_origin effect),
        unwrap_or (action_target (effect_action effect)) [],
        nat_to_string (unat (effect_version effect))]"

definition kind_label_for_effect :: "NormalizedEffect \<Rightarrow> string" where
  "kind_label_for_effect effect =
     capability_label (effect_capability effect) @ '':''
     @ action_kind_label (action_kind (effect_action effect))"

definition identity_with_id :: "externals \<Rightarrow> NormalizedEffect \<Rightarrow> uuid \<Rightarrow> EffectInvocationIdentity" where
  "identity_with_id X effect effect_id =
     \<lparr>identity_effect_id = effect_id,
      identity_args_digest = args_digest_for_effect X effect,
      identity_kind = kind_label_for_effect effect,
      identity_target_label = action_target (effect_action effect)\<rparr>"

text \<open>\<open>from_effect\<close>: \<open>new_id\<close> is the value \<open>Uuid::new_v4()\<close> returns.\<close>

definition identity_from_effect :: "externals \<Rightarrow> uuid \<Rightarrow> NormalizedEffect \<Rightarrow> EffectInvocationIdentity" where
  "identity_from_effect X new_id effect =
     \<lparr>identity_effect_id = new_id,
      identity_args_digest = args_digest_for_effect X effect,
      identity_kind = kind_label_for_effect effect,
      identity_target_label = action_target (effect_action effect)\<rparr>"

section \<open>Reconciliation\<close>

definition reconcile_for_replay :: "EffectFenceRecord \<Rightarrow> ArgsDigest \<Rightarrow> FenceReplayDecision" where
  "reconcile_for_replay r expected =
     (if identity_args_digest (record_identity r) \<noteq> expected
      then Refuse ''args_digest mismatch with durable fence record''
      else case record_state r of
        FenceState.Prepared \<Rightarrow> AllowFresh
      | FenceState.Observed \<Rightarrow> AlreadyObserved (record_summary r)
      | FenceState.Failed \<Rightarrow> AlreadyFailed (record_summary r)
      | FenceState.Started \<Rightarrow>
          Refuse (''effect Started without Observed '' @ em_dash
                  @ '' outcome Unknown; refuse blind replay'')
      | FenceState.Unknown \<Rightarrow>
          Refuse (''effect fence state Unknown '' @ em_dash @ '' refuse blind idempotent replay''))"

type_synonym fence_map = "(uuid \<times> EffectFenceRecord) list"

text \<open>The \<open>or_insert_with\<close> closure shared by the four later transitions.\<close>

definition blank_record :: "uuid \<Rightarrow> string \<Rightarrow> EffectFenceRecord" where
  "blank_record effect_id digest =
     \<lparr>record_identity =
        \<lparr>identity_effect_id = effect_id, identity_args_digest = digest,
         identity_kind = ''unknown'', identity_target_label = None\<rparr>,
      record_state = FenceState.Prepared, record_summary = None\<rparr>"

definition entry_moved :: "fence_map \<Rightarrow> uuid \<Rightarrow> string \<Rightarrow> FenceState \<Rightarrow> EffectFenceRecord" where
  "entry_moved m effect_id digest st =
     (let entry = unwrap_or (map_of m effect_id) (blank_record effect_id digest) in
      entry\<lparr>record_identity := (record_identity entry)\<lparr>identity_args_digest := digest\<rparr>,
            record_state := st\<rparr>)"

fun apply_fence_event :: "EffectFenceEvent \<Rightarrow> fence_map \<Rightarrow> fence_map" where
  "apply_fence_event (EffectFenceEvent.Prepared i digest kind target) m =
     AList.update i
       \<lparr>record_identity =
          \<lparr>identity_effect_id = i, identity_args_digest = digest, identity_kind = kind,
           identity_target_label = target\<rparr>,
        record_state = FenceState.Prepared, record_summary = None\<rparr> m"
| "apply_fence_event (EffectFenceEvent.Started i digest) m =
     AList.update i (entry_moved m i digest FenceState.Started) m"
| "apply_fence_event (EffectFenceEvent.Observed i digest summary) m =
     AList.update i ((entry_moved m i digest FenceState.Observed)\<lparr>record_summary := Some summary\<rparr>) m"
| "apply_fence_event (EffectFenceEvent.Failed i digest reason) m =
     AList.update i ((entry_moved m i digest FenceState.Failed)\<lparr>record_summary := Some reason\<rparr>) m"
| "apply_fence_event (EffectFenceEvent.Unknown i digest reason) m =
     AList.update i ((entry_moved m i digest FenceState.Unknown)\<lparr>record_summary := Some reason\<rparr>) m"

definition apply_event :: "Event \<Rightarrow> fence_map \<Rightarrow> fence_map" where
  "apply_event e m = (case payload e of EffectFence f \<Rightarrow> apply_fence_event f m | _ \<Rightarrow> m)"

definition records_from_events :: "Event list \<Rightarrow> fence_map" where
  "records_from_events events = fold apply_event events []"

section \<open>The ledger\<close>

definition MAX_FENCE_SUMMARY_CHARS :: nat where
  "MAX_FENCE_SUMMARY_CHARS = 256"

definition bound_fence_summary :: "string \<Rightarrow> string" where
  "bound_fence_summary input =
     (if char_count input \<le> MAX_FENCE_SUMMARY_CHARS then input
      else take_chars MAX_FENCE_SUMMARY_CHARS input)"

definition ledger_append ::
    "'s EventStore \<Rightarrow> uuid \<Rightarrow> stamp \<Rightarrow> EffectFenceEvent \<Rightarrow> 's \<Rightarrow> (EffectFenceError + unit) \<times> 's" where
  "ledger_append S sid t ev s =
     sbind (smap_err (\<lambda>e. Store (so_error_text S e)) (so_append_next S s t sid (EffectFence ev)))
       (\<lambda>_ s'. (Inr (), s'))"

definition ledger_prepare ::
    "'s EventStore \<Rightarrow> uuid \<Rightarrow> stamp \<Rightarrow> EffectInvocationIdentity \<Rightarrow> 's
     \<Rightarrow> (EffectFenceError + EffectFenceRecord) \<times> 's" where
  "ledger_prepare S sid t i s =
     sbind (ledger_append S sid t
              (EffectFenceEvent.Prepared (identity_effect_id i) (identity_args_digest i)
                 (identity_kind i) (identity_target_label i)) s)
       (\<lambda>_ s'. (Inr \<lparr>record_identity = i, record_state = FenceState.Prepared,
                     record_summary = None\<rparr>, s'))"

definition mark_started ::
    "'s EventStore \<Rightarrow> uuid \<Rightarrow> stamp \<Rightarrow> EffectInvocationIdentity \<Rightarrow> 's
     \<Rightarrow> (EffectFenceError + EffectFenceRecord) \<times> 's" where
  "mark_started S sid t i s =
     sbind (ledger_append S sid t
              (EffectFenceEvent.Started (identity_effect_id i) (identity_args_digest i)) s)
       (\<lambda>_ s'. (Inr \<lparr>record_identity = i, record_state = FenceState.Started,
                     record_summary = None\<rparr>, s'))"

definition prepare_and_start ::
    "'s EventStore \<Rightarrow> uuid \<Rightarrow> stamp \<times> stamp \<Rightarrow> EffectInvocationIdentity \<Rightarrow> 's
     \<Rightarrow> (EffectFenceError + EffectFenceRecord) \<times> 's" where
  "prepare_and_start S sid t i s =
     sbind (ledger_prepare S sid (fst t) i s) (\<lambda>_. mark_started S sid (snd t) i)"

definition observe ::
    "'s EventStore \<Rightarrow> uuid \<Rightarrow> stamp \<Rightarrow> EffectInvocationIdentity \<Rightarrow> string \<Rightarrow> 's
     \<Rightarrow> (EffectFenceError + EffectFenceRecord) \<times> 's" where
  "observe S sid t i summary s =
     (let summary = bound_fence_summary summary in
      sbind (ledger_append S sid t
               (EffectFenceEvent.Observed (identity_effect_id i) (identity_args_digest i) summary) s)
        (\<lambda>_ s'. (Inr \<lparr>record_identity = i, record_state = FenceState.Observed,
                      record_summary = Some summary\<rparr>, s')))"

definition mark_failed ::
    "'s EventStore \<Rightarrow> uuid \<Rightarrow> stamp \<Rightarrow> EffectInvocationIdentity \<Rightarrow> string \<Rightarrow> 's
     \<Rightarrow> (EffectFenceError + EffectFenceRecord) \<times> 's" where
  "mark_failed S sid t i reason s =
     (let reason = bound_fence_summary reason in
      sbind (ledger_append S sid t
               (EffectFenceEvent.Failed (identity_effect_id i) (identity_args_digest i) reason) s)
        (\<lambda>_ s'. (Inr \<lparr>record_identity = i, record_state = FenceState.Failed,
                      record_summary = Some reason\<rparr>, s')))"

definition mark_unknown ::
    "'s EventStore \<Rightarrow> uuid \<Rightarrow> stamp \<Rightarrow> EffectInvocationIdentity \<Rightarrow> string \<Rightarrow> 's
     \<Rightarrow> (EffectFenceError + EffectFenceRecord) \<times> 's" where
  "mark_unknown S sid t i reason s =
     (let reason = bound_fence_summary reason in
      sbind (ledger_append S sid t
               (EffectFenceEvent.Unknown (identity_effect_id i) (identity_args_digest i) reason) s)
        (\<lambda>_ s'. (Inr \<lparr>record_identity = i, record_state = FenceState.Unknown,
                      record_summary = Some reason\<rparr>, s')))"

definition load_all :: "'s EventStore \<Rightarrow> uuid \<Rightarrow> 's \<Rightarrow> EffectFenceError + fence_map" where
  "load_all S sid s =
     (case so_list S s sid of
        Inl e \<Rightarrow> Inl (Store (so_error_text S e))
      | Inr events \<Rightarrow> Inr (records_from_events events))"

definition latest :: "'s EventStore \<Rightarrow> uuid \<Rightarrow> 's \<Rightarrow> uuid \<Rightarrow> EffectFenceError + EffectFenceRecord option" where
  "latest S sid s effect_id = rbind (load_all S sid s) (\<lambda>m. Inr (map_of m effect_id))"

type_synonym values_order = "EffectFenceRecord list \<Rightarrow> EffectFenceRecord list"

definition best_for_digest :: "ArgsDigest \<Rightarrow> EffectFenceRecord list \<Rightarrow> EffectFenceRecord option" where
  "best_for_digest digest rs =
     fold (\<lambda>r best. if identity_args_digest (record_identity r) = digest then Some r else best) rs None"

definition latest_for_digest ::
    "'s EventStore \<Rightarrow> uuid \<Rightarrow> values_order \<Rightarrow> 's \<Rightarrow> ArgsDigest
     \<Rightarrow> EffectFenceError + EffectFenceRecord option" where
  "latest_for_digest S sid order s digest =
     rbind (load_all S sid s) (\<lambda>m. Inr (best_for_digest digest (order (map snd m))))"

definition check_replay_safe ::
    "'s EventStore \<Rightarrow> uuid \<Rightarrow> values_order \<Rightarrow> 's \<Rightarrow> ArgsDigest \<Rightarrow> EffectFenceError + FenceReplayDecision" where
  "check_replay_safe S sid order s expected =
     rbind (latest_for_digest S sid order s expected)
       (\<lambda>found. Inr (case found of
           None \<Rightarrow> AllowFresh
         | Some r \<Rightarrow> reconcile_for_replay r expected))"

section \<open>Records of a log\<close>

lemma records_snoc:
  "records_from_events (es @ [e]) = apply_event e (records_from_events es)"
  by (simp add: records_from_events_def)

lemma apply_fence_event_other:
  "i \<noteq> fence_effect_id f \<Longrightarrow> map_of (apply_fence_event f m) i = map_of m i"
  by (cases f) (simp_all add: update_conv')

lemma apply_fence_event_dom: "dom (map_of (apply_fence_event f m)) = insert (fence_effect_id f) (dom (map_of m))"
  by (cases f) (simp_all add: update_conv')

lemma apply_fence_event_digest:
  "\<exists>r. map_of (apply_fence_event f m) (fence_effect_id f) = Some r
     \<and> identity_args_digest (record_identity r) = fence_args_digest f"
  by (cases f) (simp_all add: update_conv' entry_moved_def Let_def)

lemma apply_fence_event_state:
  "map_of (apply_fence_event f m) (fence_effect_id f) = Some r \<Longrightarrow>
   record_state r = (case f of
       EffectFenceEvent.Prepared _ _ _ _ \<Rightarrow> FenceState.Prepared
     | EffectFenceEvent.Started _ _ \<Rightarrow> FenceState.Started
     | EffectFenceEvent.Observed _ _ _ \<Rightarrow> FenceState.Observed
     | EffectFenceEvent.Failed _ _ _ \<Rightarrow> FenceState.Failed
     | EffectFenceEvent.Unknown _ _ _ \<Rightarrow> FenceState.Unknown)"
  by (cases f) (auto simp: update_conv' entry_moved_def Let_def)

lemma records_distinct: "distinct (map fst (records_from_events es))"
proof (induction es rule: rev_induct)
  case (snoc e es)
  have "distinct (map fst (apply_fence_event f m))" if "distinct (map fst m)" for f m
    using that by (cases f) (simp_all add: distinct_update)
  then show ?case
    using snoc by (auto simp: records_snoc apply_event_def split: EventPayload.splits)
qed (simp add: records_from_events_def)

lemma record_values: "r \<in> set (map snd (records_from_events es)) \<longleftrightarrow>
    (\<exists>i. map_of (records_from_events es) i = Some r)"
  using records_distinct [of es] by (force simp: image_iff dest: map_of_SomeD)

lemma apply_event_other: "(\<And>f. payload e \<noteq> EffectFence f) \<Longrightarrow> apply_event e m = m"
  by (simp add: apply_event_def split: EventPayload.splits)

text \<open>What the log says of a digest: the states of its invocations.\<close>

definition digest_states :: "Event list \<Rightarrow> ArgsDigest \<Rightarrow> FenceState set" where
  "digest_states es digest =
     {record_state r |i r. map_of (records_from_events es) i = Some r
                           \<and> identity_args_digest (record_identity r) = digest}"

lemma digest_states_mem:
  "r \<in> set (map snd (records_from_events es)) \<Longrightarrow> identity_args_digest (record_identity r) = d \<Longrightarrow>
   record_state r \<in> digest_states es d"
  unfolding digest_states_def record_values by blast

lemma digest_states_empty:
  "digest_states es d = {} \<longleftrightarrow>
     (\<forall>r \<in> set (map snd (records_from_events es)). identity_args_digest (record_identity r) \<noteq> d)"
proof
  assume "digest_states es d = {}"
  then show "\<forall>r \<in> set (map snd (records_from_events es)). identity_args_digest (record_identity r) \<noteq> d"
    using digest_states_mem by blast
next
  assume none: "\<forall>r \<in> set (map snd (records_from_events es)). identity_args_digest (record_identity r) \<noteq> d"
  show "digest_states es d = {}"
    unfolding digest_states_def using none [unfolded record_values Ball_def] by blast
qed

definition permutes_values :: "values_order \<Rightarrow> bool" where
  "permutes_values order \<longleftrightarrow> (\<forall>rs. mset (order rs) = mset rs)"

lemma permutes_values_set: "permutes_values order \<Longrightarrow> set (order rs) = set rs"
  by (metis permutes_values_def set_mset_mset)

lemma best_for_digest_snoc:
  "best_for_digest d (rs @ [r]) =
     (if identity_args_digest (record_identity r) = d then Some r else best_for_digest d rs)"
  by (simp add: best_for_digest_def)

lemma best_for_digest_Some:
  "best_for_digest d rs = Some r \<Longrightarrow> r \<in> set rs \<and> identity_args_digest (record_identity r) = d"
proof (induction rs rule: rev_induct)
  case (snoc x xs)
  then show ?case by (auto simp: best_for_digest_snoc split: if_splits)
qed (simp add: best_for_digest_def)

lemma best_for_digest_None:
  "best_for_digest d rs = None \<longleftrightarrow> (\<forall>r \<in> set rs. identity_args_digest (record_identity r) \<noteq> d)"
proof (induction rs rule: rev_induct)
  case (snoc x xs)
  then show ?case by (auto simp: best_for_digest_snoc)
qed (simp add: best_for_digest_def)

text \<open>The states that let \<open>reconcile_for_replay\<close> answer \<open>AllowFresh\<close>.\<close>

lemma reconcile_AllowFresh:
  "reconcile_for_replay r d = AllowFresh \<longleftrightarrow>
     identity_args_digest (record_identity r) = d \<and> record_state r = FenceState.Prepared"
  by (auto simp: reconcile_for_replay_def split: FenceState.splits)

lemma check_replay_value:
  "so_list S s sid = Inr es \<Longrightarrow> check_replay_safe S sid order s d =
     Inr (case best_for_digest d (order (map snd (records_from_events es))) of
            None \<Rightarrow> AllowFresh | Some r \<Rightarrow> reconcile_for_replay r d)"
  by (simp add: check_replay_safe_def latest_for_digest_def load_all_def)

lemma best_none_iff:
  "permutes_values order \<Longrightarrow>
   best_for_digest d (order (map snd (records_from_events es))) = None \<longleftrightarrow> digest_states es d = {}"
  unfolding best_for_digest_None digest_states_empty by (simp add: permutes_values_set)

lemma check_replay_fresh:
  assumes "so_list S s sid = Inr es" "permutes_values order"
    and "check_replay_safe S sid order s d = Inr AllowFresh"
  shows "digest_states es d = {} \<or> FenceState.Prepared \<in> digest_states es d"
proof (cases "best_for_digest d (order (map snd (records_from_events es)))")
  case None
  then show ?thesis unfolding best_none_iff [OF assms(2)] ..
next
  case (Some r)
  have "reconcile_for_replay r d = AllowFresh"
    using assms(3) Some by (simp add: check_replay_value [OF assms(1)])
  then have r: "identity_args_digest (record_identity r) = d" "record_state r = FenceState.Prepared"
    unfolding reconcile_AllowFresh by auto
  have "r \<in> set (map snd (records_from_events es))"
    using best_for_digest_Some [OF Some] unfolding permutes_values_set [OF assms(2)] ..
  then have "FenceState.Prepared \<in> digest_states es d" using digest_states_mem r by metis
  then show ?thesis ..
qed

lemma check_replay_new:
  assumes "so_list S s sid = Inr es" "permutes_values order" "digest_states es d = {}"
  shows "check_replay_safe S sid order s d = Inr AllowFresh"
  using assms(3) unfolding best_none_iff [OF assms(2), symmetric] check_replay_value [OF assms(1)] by simp

lemma digest_states_snoc_other:
  "(\<And>f. payload e \<noteq> EffectFence f) \<Longrightarrow> digest_states (es @ [e]) d = digest_states es d"
  by (simp add: digest_states_def records_snoc apply_event_other)

section \<open>The ledger on a store that keeps its contract\<close>

context store_client
begin

lemma ledger_append_Inr:
  assumes "inv s" "ledger_append store sid t ev s = (Inr u, s')"
  shows "inv s'" and "\<exists>es e. so_list store s sid = Inr es \<and> payload e = EffectFence ev
    \<and> so_list store s' sid = Inr (es @ [e])"
proof -
  obtain e where run: "so_append_next store s t sid (EffectFence ev) = (Inr e, s')"
    using assms(2) by (auto simp: ledger_append_def sbind_eq_Inr_iff)
  show "inv s'" using append_inv [OF assms(1) run] .
  show "\<exists>es e. so_list store s sid = Inr es \<and> payload e = EffectFence ev
      \<and> so_list store s' sid = Inr (es @ [e])"
    using append_ok [OF assms(1) run] by auto
qed

lemma ledger_append_Inl:
  assumes "inv s" "ledger_append store sid t ev s = (Inl x, s')"
  shows "inv s'" and "so_list store s' sid' = so_list store s sid'"
proof -
  obtain e where run: "so_append_next store s t sid (EffectFence ev) = (Inl e, s')"
    using assms(2) by (cases "so_append_next store s t sid (EffectFence ev)"; cases "fst (so_append_next store s t sid (EffectFence ev))")
      (auto simp: ledger_append_def)
  show "inv s'" using append_inv [OF assms(1) run] .
  show "so_list store s' sid' = so_list store s sid'" using append_failed [OF assms(1) run] .
qed

text \<open>Write-ahead: when the call returns, both events are durable and the record is \<open>Started\<close>.\<close>

lemma prepare_and_start_log:
  assumes "inv s" "prepare_and_start store sid t i s = (Inr r, s')"
  shows "inv s'" and "\<exists>es e1 e2. so_list store s sid = Inr es \<and> so_list store s' sid = Inr (es @ [e1, e2])
    \<and> payload e1 = EffectFence (EffectFenceEvent.Prepared (identity_effect_id i) (identity_args_digest i)
                                  (identity_kind i) (identity_target_label i))
    \<and> payload e2 = EffectFence (EffectFenceEvent.Started (identity_effect_id i) (identity_args_digest i))"
proof -
  obtain s1 u1 u2 where
    a: "ledger_append store sid (fst t) (EffectFenceEvent.Prepared (identity_effect_id i)
          (identity_args_digest i) (identity_kind i) (identity_target_label i)) s = (Inr u1, s1)"
    and b: "ledger_append store sid (snd t)
          (EffectFenceEvent.Started (identity_effect_id i) (identity_args_digest i)) s1 = (Inr u2, s')"
    using assms(2) by (auto simp: prepare_and_start_def ledger_prepare_def mark_started_def sbind_eq_Inr_iff)
  note A = ledger_append_Inr [OF assms(1) a]
  note B = ledger_append_Inr [OF A(1) b]
  show "inv s'" using B(1) .
  show "\<exists>es e1 e2. so_list store s sid = Inr es \<and> so_list store s' sid = Inr (es @ [e1, e2])
    \<and> payload e1 = EffectFence (EffectFenceEvent.Prepared (identity_effect_id i) (identity_args_digest i)
                                  (identity_kind i) (identity_target_label i))
    \<and> payload e2 = EffectFence (EffectFenceEvent.Started (identity_effect_id i) (identity_args_digest i))"
    using A(2) B(2) by fastforce
qed

end

section \<open>The ledger on the in-memory store\<close>

lemma memory_append_ok:
  assumes "store_wf st" "store_healthy st"
  shows "\<exists>e st'. memory_append_next st t sid p = (Inr e, st') \<and> payload e = p \<and> store_wf st'
    \<and> store_healthy st' \<and> (\<forall>x. visible st' x = visible st x @ (if x = sid then [e] else []))"
proof -
  obtain r st' where run: "memory_append_next st t sid p = (r, st')" by (rule prod.exhaust)
  obtain e where e: "r = Inr e"
    using run assms(2) by (auto simp: memory_append_next_def logical_head_visible store_healthy_def Let_def)
  have "payload e = p" "store_healthy st'" "\<forall>x. visible st' x = visible st x @ (if x = sid then [e] else [])"
    using memory_append_next_wf(2) [OF assms(1) run] e by auto
  then show ?thesis using run e memory_append_next_wf(1) [OF assms(1) run] by blast
qed

lemma memory_ledger_append:
  assumes "store_wf st" "store_healthy st"
  shows "\<exists>e st'. ledger_append (memory_ops err) sid t ev st = (Inr (), st') \<and> payload e = EffectFence ev
    \<and> store_wf st' \<and> store_healthy st' \<and> (\<forall>x. visible st' x = visible st x @ (if x = sid then [e] else []))"
  using memory_append_ok [OF assms, of t sid "EffectFence ev"] by (fastforce simp: ledger_append_def)

definition move_last :: "EffectFenceRecord \<Rightarrow> values_order" where
  "move_last r rs = (if r \<in> set rs then remove1 r rs @ [r] else rs)"

lemma move_last_permutes: "permutes_values (move_last r)"
  by (simp add: permutes_values_def move_last_def)

lemma check_replay_move_last:
  assumes "so_list S s sid = Inr es" "r \<in> set (map snd (records_from_events es))"
    and "identity_args_digest (record_identity r) = d"
  shows "check_replay_safe S sid (move_last r) s d = Inr (reconcile_for_replay r d)"
  using assms(2,3) unfolding check_replay_value [OF assms(1)] move_last_def
  by (simp add: best_for_digest_snoc del: set_map)

section \<open>Properties\<close>

text \<open>
  When the log holds two invocations of one digest, one \<open>Prepared\<close> and one further on, the
  decision of \<open>check_replay_safe\<close> depends on the order in which the hash map is visited: one order
  allows the effect to run again, another refuses it. An effect that was prepared, lost in a crash,
  and then started and lost in a second crash is in this state.
\<close>

theorem replay_decision_order_dependent:
  assumes "memory_list st sid = Inr es" and "FenceState.Prepared \<in> digest_states es d"
    and "q \<in> digest_states es d" "q \<noteq> FenceState.Prepared"
  shows "\<exists>order order'. permutes_values order \<and> permutes_values order'
    \<and> check_replay_safe (memory_ops err) sid order st d = Inr AllowFresh
    \<and> check_replay_safe (memory_ops err) sid order' st d \<noteq> Inr AllowFresh"
proof -
  have l: "so_list (memory_ops err) st sid = Inr es" using assms(1) by simp
  obtain r1 where r1: "r1 \<in> set (map snd (records_from_events es))"
    "identity_args_digest (record_identity r1) = d" "record_state r1 = FenceState.Prepared"
    using assms(2) unfolding digest_states_def record_values by force
  obtain r2 where r2: "r2 \<in> set (map snd (records_from_events es))"
    "identity_args_digest (record_identity r2) = d" "record_state r2 = q"
    using assms(3) unfolding digest_states_def record_values by force
  have "check_replay_safe (memory_ops err) sid (move_last r1) st d = Inr AllowFresh"
    using check_replay_move_last [OF l r1(1,2)] r1(2,3) by (simp add: reconcile_for_replay_def)
  moreover have "check_replay_safe (memory_ops err) sid (move_last r2) st d \<noteq> Inr AllowFresh"
    using check_replay_move_last [OF l r2(1,2)] r2(3) assms(4) by (simp add: reconcile_AllowFresh)
  ultimately show ?thesis using move_last_permutes by blast
qed

text \<open>Two crashes on the session of \<open>demo_store1\<close>: after \<open>prepare\<close>, and after \<open>prepare_and_start\<close>.\<close>

definition demo_identity :: "uuid \<Rightarrow> EffectInvocationIdentity" where
  "demo_identity n = \<lparr>identity_effect_id = n, identity_args_digest = ''d'', identity_kind = ''k'',
     identity_target_label = None\<rparr>"

theorem replay_decision_order_dependent_witness:
  "\<exists>st1 st2 r1 r2 order order'.
     ledger_prepare (memory_ops (\<lambda>_. [])) 1 (200, 9) (demo_identity 7) demo_store1 = (Inr r1, st1)
     \<and> prepare_and_start (memory_ops (\<lambda>_. [])) 1 ((201, 9), (202, 9)) (demo_identity 8) st1 = (Inr r2, st2)
     \<and> check_replay_safe (memory_ops (\<lambda>_. [])) 1 order st2 ''d'' = Inr AllowFresh
     \<and> check_replay_safe (memory_ops (\<lambda>_. [])) 1 order' st2 ''d'' \<noteq> Inr AllowFresh"
proof -
  let ?S = "memory_ops (\<lambda>_. [])"
  let ?p = "\<lambda>n. EffectFenceEvent.Prepared n ''d'' ''k'' None"
  let ?q = "EffectFenceEvent.Started 8 ''d''"
  have wf: "store_wf demo_store1" using store_run_wf [OF demo_store1_run store_wf_default] .
  obtain e1 s1 where a: "ledger_append ?S 1 (200, 9) (?p 7) demo_store1 = (Inr (), s1)"
    "payload e1 = EffectFence (?p 7)" "store_wf s1" "store_healthy s1" "visible s1 1 = visible demo_store1 1 @ [e1]"
    using memory_ledger_append [OF wf demo_healthy1, of "\<lambda>_. []" 1 "(200, 9)" "?p 7"] by auto
  obtain e2 s2 where b: "ledger_append ?S 1 (201, 9) (?p 8) s1 = (Inr (), s2)"
    "payload e2 = EffectFence (?p 8)" "store_wf s2" "store_healthy s2" "visible s2 1 = visible s1 1 @ [e2]"
    using memory_ledger_append [OF a(3,4), of "\<lambda>_. []" 1 "(201, 9)" "?p 8"] by auto
  obtain e3 s3 where c: "ledger_append ?S 1 (202, 9) ?q s2 = (Inr (), s3)"
    "payload e3 = EffectFence ?q" "store_wf s3" "store_healthy s3" "visible s3 1 = visible s2 1 @ [e3]"
    using memory_ledger_append [OF b(3,4), of "\<lambda>_. []" 1 "(202, 9)" ?q] by auto
  let ?es = "[demo_event 1, demo_event 2, e1, e2, e3]"
  have l: "memory_list s3 1 = Inr ?es"
    using a(5) b(5) c(3,4,5) by (simp add: memory_list_visible demo_visible1)
  have recs: "map_of (records_from_events ?es) 7 = Some \<lparr>record_identity = demo_identity 7,
        record_state = FenceState.Prepared, record_summary = None\<rparr>"
    "map_of (records_from_events ?es) 8 = Some \<lparr>record_identity = demo_identity 8,
        record_state = FenceState.Started, record_summary = None\<rparr>"
    using a(2) b(2) c(2)
    by (simp_all add: records_from_events_def apply_event_def demo_event_def entry_moved_def
        update_conv' demo_identity_def Let_def)
  have d: "FenceState.Prepared \<in> digest_states ?es ''d''" "FenceState.Started \<in> digest_states ?es ''d''"
    using recs unfolding digest_states_def by (force simp: demo_identity_def)+
  have "\<exists>order order'. permutes_values order \<and> permutes_values order'
      \<and> check_replay_safe ?S 1 order s3 ''d'' = Inr AllowFresh
      \<and> check_replay_safe ?S 1 order' s3 ''d'' \<noteq> Inr AllowFresh"
    by (rule replay_decision_order_dependent [OF l d]) simp
  then show ?thesis
    using a(1) b(1) c(1)
    by (fastforce simp: prepare_and_start_def ledger_prepare_def mark_started_def demo_identity_def)
qed

end
