(* ===== verification/Effects.thy ===== *)
theory Effects
  imports Effect_Fence Policy
begin

text \<open>
  The effect seam, \<open>crates/impetus-core/src/effects.rs\<close>: the sandbox gate, the fixed order of
  admission (sandbox, policy, execution mode, risk gate), execution after an approval and
  execution under the write-ahead fence.

  A seam is used in a context: the file system, the URL crate and the cells of policy overrides at
  the time of the call. An execution closure is a function on the event store and on a further
  state \<open>'w\<close>, the world it acts on; a call that does not reach it leaves both as they were.
  The hooks of the test build are left out.
\<close>

section \<open>Decisions and tokens\<close>

datatype EffectDecision = Allow | NeedsApproval string | Deny string

datatype 't EffectExecution = Executed 't | NeedsApproval string | Denied string

record DeferredEffect =
  deferred_effect :: NormalizedEffect
  deferred_approval :: ApprovalRequest

record AdmittedOperation =
  admitted_effect :: NormalizedEffect
  admitted_intent_revision :: nat

datatype EffectAdmission =
    Allow AdmittedOperation
  | NeedsApproval DeferredEffect
  | Deny string

datatype Sandbox = Provisioned SandboxScope | Unavailable string

definition sandbox_workspace :: "string \<Rightarrow> Sandbox" where
  "sandbox_workspace root = Provisioned (local_workspace root)"

definition network_kinds :: "ActionKind set" where
  "network_kinds =
     {ActionKind.NetworkConnect, SshConnect, SftpTransfer, WebSearch, WebFetch, WebDownload,
      WebBrowser, WebSubmit, WebUpload}"

definition sandbox_admit :: "file_system \<Rightarrow> Sandbox \<Rightarrow> NormalizedEffect \<Rightarrow> string + unit" where
  "sandbox_admit fs sandbox effect =
     (case sandbox of
        Unavailable reason \<Rightarrow> Inl (''sandbox unavailable: '' @ reason)
      | Provisioned scope \<Rightarrow>
          if effect_version effect \<noteq> CapabilityVersion_V1
          then Inl (''unsupported capability version: CapabilityVersion(''
                    @ nat_to_string (unat (effect_version effect)) @ '')'')
          else if effect_origin effect \<noteq> action_origin (effect_action effect)
          then Inl ''effect origin does not match normalized action origin''
          else (case action_target (effect_action effect) of
            None \<Rightarrow> Inl ''effect has no target''
          | Some target \<Rightarrow>
              (case effect_capability effect of
                 EffectCapability.WorkspaceRead \<Rightarrow>
                   if action_kind (effect_action effect) \<noteq> ReadFile
                   then Inl ''WorkspaceRead capability requires ReadFile action''
                   else if \<not> scope_contains fs scope target
                   then Inl ''sandbox cannot prove read target is inside workspace scope''
                   else Inr ()
               | EffectCapability.WorkspaceWrite \<Rightarrow>
                   if action_kind (effect_action effect) \<noteq> WriteFile
                   then Inl ''WorkspaceWrite capability requires WriteFile action''
                   else if \<not> contains_write_target fs scope target
                   then Inl ''sandbox cannot prove write target is inside workspace scope''
                   else Inr ()
               | EffectCapability.ProcessSpawn \<Rightarrow>
                   if action_kind (effect_action effect) \<noteq> SpawnProcess
                   then Inl ''ProcessSpawn capability requires SpawnProcess action''
                   else Inr ()
               | EffectCapability.NetworkConnect \<Rightarrow>
                   if action_kind (effect_action effect) \<notin> network_kinds
                   then Inl ''NetworkConnect capability requires network or web action''
                   else if \<not> allow_network scope
                   then Inl ''network is disabled in this sandbox scope''
                   else Inr ())))"

section \<open>Admission\<close>

record EffectSeam =
  seam_policy :: PolicyEngine
  seam_sandbox :: Sandbox
  seam_mode :: ExecutionMode
  seam_risk_gate :: "RiskContext \<Rightarrow> RiskGateDecision"

record 'u seam_context =
  context_fs :: file_system
  context_url :: "'u url_api"
  context_overrides :: policy_heap
  context_externals :: externals

definition with_admission ::
    "PolicyEngine \<Rightarrow> Sandbox \<Rightarrow> ExecutionMode \<Rightarrow> (RiskContext \<Rightarrow> RiskGateDecision) \<Rightarrow> EffectSeam" where
  "with_admission policy sandbox mode gate =
     \<lparr>seam_policy = policy, seam_sandbox = sandbox, seam_mode = mode, seam_risk_gate = gate\<rparr>"

definition with_sandbox :: "PolicyEngine \<Rightarrow> Sandbox \<Rightarrow> EffectSeam" where
  "with_sandbox policy sandbox = with_admission policy sandbox Ask classify"

definition seam_workspace_full :: "string \<Rightarrow> policy_heap \<Rightarrow> EffectSeam \<times> policy_heap" where
  "seam_workspace_full root h =
     (let (engine, h') = policy_new (local_workspace root) h
      in (with_admission engine (sandbox_workspace root) Ask classify, h'))"

definition with_execution_mode :: "EffectSeam \<Rightarrow> ExecutionMode \<Rightarrow> EffectSeam" where
  "with_execution_mode seam mode = seam\<lparr>seam_mode := mode\<rparr>"

definition policy_decision :: "'u seam_context \<Rightarrow> EffectSeam \<Rightarrow> Action \<Rightarrow> PolicyDecision" where
  "policy_decision C seam action =
     evaluate (context_fs C) (context_url C) (context_overrides C) (seam_policy seam) action"

fun risk_auto_allows_policy_deferral :: "ExecutionMode \<Rightarrow> NormalizedEffect \<Rightarrow> bool" where
  "risk_auto_allows_policy_deferral AcceptEdits _ = True"
| "risk_auto_allows_policy_deferral Auto _ = True"
| "risk_auto_allows_policy_deferral Bypass _ = True"
| "risk_auto_allows_policy_deferral Ask effect = is_read_only_effect effect"
| "risk_auto_allows_policy_deferral ExecutionMode.Plan _ = False"

definition combine ::
    "EffectSeam \<Rightarrow> PolicyDecision \<Rightarrow> RiskGateDecision \<Rightarrow> NormalizedEffect \<Rightarrow> EffectDecision" where
  "combine seam policy risk effect =
     (case risk of
        RiskGateDecision.Deny reason \<Rightarrow> EffectDecision.Deny reason
      | _ \<Rightarrow>
          (case policy of
             PolicyDecision.Deny reason \<Rightarrow> EffectDecision.Deny reason
           | PolicyDecision.Allow \<Rightarrow> EffectDecision.Allow
           | PolicyDecision.NeedsApproval reason \<Rightarrow>
               (case risk of
                  NeedsHumanApproval risk_reason \<Rightarrow> EffectDecision.NeedsApproval risk_reason
                | RiskGateDecision.Allow \<Rightarrow>
                    if risk_auto_allows_policy_deferral (seam_mode seam) effect
                    then EffectDecision.Allow else EffectDecision.NeedsApproval reason
                | RiskGateDecision.Deny r \<Rightarrow> EffectDecision.Deny r)))"

definition admit :: "'u seam_context \<Rightarrow> EffectSeam \<Rightarrow> NormalizedEffect \<Rightarrow> string list option \<Rightarrow> EffectDecision" where
  "admit C seam effect argv =
     (case sandbox_admit (context_fs C) (seam_sandbox seam) effect of
        Inl reason \<Rightarrow> EffectDecision.Deny reason
      | Inr _ \<Rightarrow>
          (case policy_decision C seam (effect_action effect) of
             PolicyDecision.Deny reason \<Rightarrow> EffectDecision.Deny reason
           | policy \<Rightarrow>
               if \<not> is_mutating_tool_allowed (seam_mode seam) \<and> is_mutating_effect effect
               then EffectDecision.Deny ''execution mode PLAN denies mutating effects''
               else combine seam policy
                      (seam_risk_gate seam
                         \<lparr>risk_mode = seam_mode seam, risk_effect = effect, risk_argv = argv\<rparr>)
                      effect))"

definition decide_with_argv ::
    "'u seam_context \<Rightarrow> EffectSeam \<Rightarrow> NormalizedEffect \<Rightarrow> string list option \<Rightarrow> EffectDecision" where
  "decide_with_argv C seam effect argv = admit C seam effect argv"

definition decide :: "'u seam_context \<Rightarrow> EffectSeam \<Rightarrow> NormalizedEffect \<Rightarrow> EffectDecision" where
  "decide C seam effect = decide_with_argv C seam effect None"

definition request_with_argv ::
    "'u seam_context \<Rightarrow> EffectSeam \<Rightarrow> uuid \<Rightarrow> NormalizedEffect \<Rightarrow> nat \<Rightarrow> string list option \<Rightarrow> EffectAdmission" where
  "request_with_argv C seam new_id effect intent_revision argv =
     (case admit C seam effect argv of
        EffectDecision.Allow \<Rightarrow>
          EffectAdmission.Allow \<lparr>admitted_effect = effect, admitted_intent_revision = intent_revision\<rparr>
      | EffectDecision.NeedsApproval reason \<Rightarrow>
          EffectAdmission.NeedsApproval
            \<lparr>deferred_effect = effect,
             deferred_approval =
               pending_with_version (context_externals C) new_id (effect_action effect) reason
                 intent_revision (Some (effect_version effect))\<rparr>
      | EffectDecision.Deny reason \<Rightarrow> EffectAdmission.Deny reason)"

definition request ::
    "'u seam_context \<Rightarrow> EffectSeam \<Rightarrow> uuid \<Rightarrow> NormalizedEffect \<Rightarrow> nat \<Rightarrow> EffectAdmission" where
  "request C seam new_id effect intent_revision =
     request_with_argv C seam new_id effect intent_revision None"

section \<open>Execution\<close>

type_synonym ('s, 'w, 'e, 't) closure = "'s \<Rightarrow> 'w \<Rightarrow> ('e + 't) \<times> 's \<times> 'w"

text \<open>
  What a call under the fence draws from its environment: the order of the hash map, the id of the
  invocation, and the stamps of the events it appends.
\<close>

record fence_draws =
  draw_order :: values_order
  draw_effect_id :: uuid
  draw_prepared :: stamp
  draw_started :: stamp
  draw_finished :: stamp
  draw_unknown :: stamp

fun fence_error_text :: "EffectFenceError \<Rightarrow> string" where
  "fence_error_text (Store e) = ''effect fence store error: '' @ e"
| "fence_error_text (RefuseReplay e) = ''effect fence refuse replay: '' @ e"

definition fence_prepare ::
    "externals \<Rightarrow> 's EventStore \<Rightarrow> uuid \<Rightarrow> fence_draws \<Rightarrow> NormalizedEffect \<Rightarrow> 's
     \<Rightarrow> (string + EffectInvocationIdentity) \<times> 's" where
  "fence_prepare X S sid D effect s =
     (case check_replay_safe S sid (draw_order D) s (args_digest_for_effect X effect) of
        Inl err \<Rightarrow> (Inl (fence_error_text err), s)
      | Inr (AlreadyObserved _) \<Rightarrow>
          (Inl (''effect fence already Observed '' @ em_dash @ '' refuse blind replay''), s)
      | Inr (AlreadyFailed reason) \<Rightarrow>
          (Inl (''effect fence already Failed '' @ em_dash @ '' refuse blind replay (''
                @ unwrap_or reason [] @ '')''), s)
      | Inr (Refuse reason) \<Rightarrow> (Inl reason, s)
      | Inr AllowFresh \<Rightarrow>
          (let identity = identity_from_effect X (draw_effect_id D) effect in
           sbind (smap_err fence_error_text
                    (prepare_and_start S sid (draw_prepared D, draw_started D) identity s))
             (\<lambda>_ s'. (Inr identity, s'))))"

definition run_under_fence ::
    "externals \<Rightarrow> 's EventStore \<Rightarrow> uuid \<Rightarrow> fence_draws \<Rightarrow> NormalizedEffect
     \<Rightarrow> ('s, 'w, 'e, 't) closure \<Rightarrow> 's \<Rightarrow> 'w \<Rightarrow> ('e + 't EffectExecution) \<times> 's \<times> 'w" where
  "run_under_fence X S sid D effect execution s w =
     (case fence_prepare X S sid D effect s of
        (Inl reason, s1) \<Rightarrow> (Inr (Denied reason), s1, w)
      | (Inr identity, s1) \<Rightarrow>
          (case execution s1 w of
             (Inr v, s2, w2) \<Rightarrow>
               (case observe S sid (draw_finished D) identity ''executed'' s2 of
                  (Inr _, s3) \<Rightarrow> (Inr (Executed v), s3, w2)
                | (Inl err, s3) \<Rightarrow>
                    let s4 = snd (mark_unknown S sid (draw_unknown D) identity
                               (''observe persist failed after execution: '' @ fence_error_text err) s3)
                    in (Inr (Denied (''effect executed but fence observe failed: ''
                                     @ fence_error_text err)), s4, w2))
           | (Inl err, s2, w2) \<Rightarrow>
               (Inl err, snd (mark_failed S sid (draw_finished D) identity ''execution error'' s2), w2)))"

definition seam_execute ::
    "'u seam_context \<Rightarrow> EffectSeam \<Rightarrow> NormalizedEffect \<Rightarrow> ('s, 'w, 'e, 't) closure \<Rightarrow> 's \<Rightarrow> 'w
     \<Rightarrow> ('e + 't EffectExecution) \<times> 's \<times> 'w" where
  "seam_execute C seam effect execution s w =
     (case decide C seam effect of
        EffectDecision.Allow \<Rightarrow>
          (case execution s w of
             (Inr v, s', w') \<Rightarrow> (Inr (Executed v), s', w')
           | (Inl err, s', w') \<Rightarrow> (Inl err, s', w'))
      | EffectDecision.NeedsApproval reason \<Rightarrow> (Inr (EffectExecution.NeedsApproval reason), s, w)
      | EffectDecision.Deny reason \<Rightarrow> (Inr (Denied reason), s, w))"

definition execute_with_fence ::
    "'u seam_context \<Rightarrow> EffectSeam \<Rightarrow> 's EventStore \<Rightarrow> uuid \<Rightarrow> fence_draws \<Rightarrow> NormalizedEffect
     \<Rightarrow> ('s, 'w, 'e, 't) closure \<Rightarrow> 's \<Rightarrow> 'w \<Rightarrow> ('e + 't EffectExecution) \<times> 's \<times> 'w" where
  "execute_with_fence C seam S sid D effect execution s w =
     (case decide C seam effect of
        EffectDecision.NeedsApproval reason \<Rightarrow> (Inr (EffectExecution.NeedsApproval reason), s, w)
      | EffectDecision.Deny reason \<Rightarrow> (Inr (Denied reason), s, w)
      | EffectDecision.Allow \<Rightarrow>
          run_under_fence (context_externals C) S sid D effect execution s w)"

definition approval_current ::
    "externals \<Rightarrow> DeferredEffect \<Rightarrow> ApprovalResolution \<Rightarrow> nat \<Rightarrow> bool" where
  "approval_current X deferred resolution current_intent_revision \<longleftrightarrow>
     (let approval = deferred_approval deferred;
          expected = for_action_with_version X (request_action approval)
                       (request_capability_version approval)
      in \<not> (request_state approval \<noteq> Pending
            \<or> resolution_resolver resolution \<noteq> ApprovalResolver.User
            \<or> \<not> resolution_accepted resolution
            \<or> resolution_id resolution \<noteq> request_id approval
            \<or> resolution_fingerprint resolution \<noteq> expected
            \<or> resolution_fingerprint resolution \<noteq> request_fingerprint approval
            \<or> resolution_intent_revision resolution \<noteq> request_intent_revision approval
            \<or> current_intent_revision \<noteq> request_intent_revision approval
            \<or> effect_action (deferred_effect deferred) \<noteq> request_action approval))"

definition execute_after_approval_admitted ::
    "'u seam_context \<Rightarrow> EffectSeam \<Rightarrow> DeferredEffect \<Rightarrow> ApprovalResolution \<Rightarrow> nat
     \<Rightarrow> ('s EventStore \<times> uuid \<times> fence_draws) option
     \<Rightarrow> (AdmittedOperation \<Rightarrow> ('s, 'w, 'e, 't) closure) \<Rightarrow> 's \<Rightarrow> 'w
     \<Rightarrow> ('e + 't EffectExecution) \<times> 's \<times> 'w" where
  "execute_after_approval_admitted C seam deferred resolution current_intent_revision ledger execution s w =
     (let effect = deferred_effect deferred in
      if request_capability_version (deferred_approval deferred) \<noteq> Some (effect_version effect)
      then (Inr (Denied ''capability version mismatch''), s, w)
      else if \<not> approval_current (context_externals C) deferred resolution current_intent_revision
      then (Inr (Denied ''approval is missing, rejected, or stale''), s, w)
      else (case policy_decision C seam (effect_action effect) of
        PolicyDecision.Deny reason \<Rightarrow> (Inr (Denied reason), s, w)
      | PolicyDecision.Allow \<Rightarrow>
          (Inr (Denied ''policy decision changed before approved execution''), s, w)
      | PolicyDecision.NeedsApproval _ \<Rightarrow>
          (case sandbox_admit (context_fs C) (seam_sandbox seam) effect of
             Inl reason \<Rightarrow> (Inr (Denied reason), s, w)
           | Inr _ \<Rightarrow>
               (let admission = \<lparr>admitted_effect = effect,
                                 admitted_intent_revision = current_intent_revision\<rparr> in
                case ledger of
                  Some (S, sid, D) \<Rightarrow>
                    run_under_fence (context_externals C) S sid D effect (execution admission) s w
                | None \<Rightarrow>
                    (case execution admission s w of
                       (Inr v, s', w') \<Rightarrow> (Inr (Executed v), s', w')
                     | (Inl err, s', w') \<Rightarrow> (Inl err, s', w'))))))"

definition execute_after_approval_with_admission ::
    "'u seam_context \<Rightarrow> EffectSeam \<Rightarrow> DeferredEffect \<Rightarrow> ApprovalResolution \<Rightarrow> nat
     \<Rightarrow> (AdmittedOperation \<Rightarrow> ('s, 'w, 'e, 't) closure) \<Rightarrow> 's \<Rightarrow> 'w
     \<Rightarrow> ('e + 't EffectExecution) \<times> 's \<times> 'w" where
  "execute_after_approval_with_admission C seam deferred resolution current execution s w =
     execute_after_approval_admitted C seam deferred resolution current None execution s w"

definition execute_after_approval ::
    "'u seam_context \<Rightarrow> EffectSeam \<Rightarrow> DeferredEffect \<Rightarrow> ApprovalResolution \<Rightarrow> nat
     \<Rightarrow> ('s, 'w, 'e, 't) closure \<Rightarrow> 's \<Rightarrow> 'w \<Rightarrow> ('e + 't EffectExecution) \<times> 's \<times> 'w" where
  "execute_after_approval C seam deferred resolution current execution s w =
     execute_after_approval_with_admission C seam deferred resolution current (\<lambda>_. execution) s w"

definition execute_after_approval_with_admission_and_fence ::
    "'u seam_context \<Rightarrow> EffectSeam \<Rightarrow> DeferredEffect \<Rightarrow> ApprovalResolution \<Rightarrow> nat
     \<Rightarrow> 's EventStore \<Rightarrow> uuid \<Rightarrow> fence_draws
     \<Rightarrow> (AdmittedOperation \<Rightarrow> ('s, 'w, 'e, 't) closure) \<Rightarrow> 's \<Rightarrow> 'w
     \<Rightarrow> ('e + 't EffectExecution) \<times> 's \<times> 'w" where
  "execute_after_approval_with_admission_and_fence C seam deferred resolution current S sid D execution s w =
     execute_after_approval_admitted C seam deferred resolution current (Some (S, sid, D)) execution s w"

definition execute_after_approval_with_fence ::
    "'u seam_context \<Rightarrow> EffectSeam \<Rightarrow> DeferredEffect \<Rightarrow> ApprovalResolution \<Rightarrow> nat
     \<Rightarrow> 's EventStore \<Rightarrow> uuid \<Rightarrow> fence_draws
     \<Rightarrow> ('s, 'w, 'e, 't) closure \<Rightarrow> 's \<Rightarrow> 'w \<Rightarrow> ('e + 't EffectExecution) \<times> 's \<times> 'w" where
  "execute_after_approval_with_fence C seam deferred resolution current S sid D execution s w =
     execute_after_approval_with_admission_and_fence C seam deferred resolution current S sid D
       (\<lambda>_. execution) s w"

text \<open>\<open>prepare_fence_for_allowed\<close> is \<open>fence_prepare\<close> for callers outside the seam.\<close>

definition prepare_fence_for_allowed ::
    "externals \<Rightarrow> 's EventStore \<Rightarrow> uuid \<Rightarrow> fence_draws \<Rightarrow> NormalizedEffect \<Rightarrow> 's
     \<Rightarrow> (string + EffectInvocationIdentity) \<times> 's" where
  "prepare_fence_for_allowed X S sid D effect s = fence_prepare X S sid D effect s"

section \<open>Facts about admission\<close>

lemma admit_Allow:
  "admit C seam effect argv = EffectDecision.Allow \<longleftrightarrow>
     is_ok (sandbox_admit (context_fs C) (seam_sandbox seam) effect)
     \<and> \<not> (seam_mode seam = ExecutionMode.Plan \<and> is_mutating_effect effect)
     \<and> (let policy = policy_decision C seam (effect_action effect);
            risk = seam_risk_gate seam \<lparr>risk_mode = seam_mode seam, risk_effect = effect, risk_argv = argv\<rparr>
        in policy = PolicyDecision.Allow \<and> (risk = RiskGateDecision.Allow \<or> (\<exists>r. risk = NeedsHumanApproval r))
           \<or> (\<exists>r. policy = PolicyDecision.NeedsApproval r) \<and> risk = RiskGateDecision.Allow
              \<and> risk_auto_allows_policy_deferral (seam_mode seam) effect)"
  by (auto simp: admit_def combine_def Let_def is_mutating_tool_allowed_def is_ok_def
      split: sum.splits PolicyDecision.splits RiskGateDecision.splits if_splits)

lemma admit_NeedsApproval:
  "admit C seam effect argv = EffectDecision.NeedsApproval reason \<Longrightarrow>
   sandbox_admit (context_fs C) (seam_sandbox seam) effect = Inr ()
   \<and> (\<exists>r. policy_decision C seam (effect_action effect) = PolicyDecision.NeedsApproval r)"
  by (auto simp: admit_def combine_def split: sum.splits PolicyDecision.splits RiskGateDecision.splits if_splits)

lemma request_NeedsApproval:
  assumes "request_with_argv C seam new_id effect revision argv = EffectAdmission.NeedsApproval d"
  shows "sandbox_admit (context_fs C) (seam_sandbox seam) effect = Inr ()"
    and "\<exists>r. policy_decision C seam (effect_action effect) = PolicyDecision.NeedsApproval r"
    and "\<exists>reason. d = \<lparr>deferred_effect = effect, deferred_approval =
           pending_with_version (context_externals C) new_id (effect_action effect) reason revision
             (Some (effect_version effect))\<rparr>"
  using assms admit_NeedsApproval [of C seam effect argv]
  by (auto simp: request_with_argv_def split: EffectDecision.splits)

lemma policy_decision_mode [simp]:
  "policy_decision C (with_execution_mode seam mode) = policy_decision C seam"
  by (simp add: policy_decision_def with_execution_mode_def fun_eq_iff)

lemma sandbox_of_mode [simp]: "seam_sandbox (with_execution_mode seam mode) = seam_sandbox seam"
  by (simp add: with_execution_mode_def)

section \<open>The fence as a log\<close>

fun fence_event_state :: "EffectFenceEvent \<Rightarrow> FenceState" where
  "fence_event_state (EffectFenceEvent.Prepared _ _ _ _) = FenceState.Prepared"
| "fence_event_state (EffectFenceEvent.Started _ _) = FenceState.Started"
| "fence_event_state (EffectFenceEvent.Observed _ _ _) = FenceState.Observed"
| "fence_event_state (EffectFenceEvent.Failed _ _ _) = FenceState.Failed"
| "fence_event_state (EffectFenceEvent.Unknown _ _ _) = FenceState.Unknown"

definition states_except :: "Event list \<Rightarrow> uuid \<Rightarrow> ArgsDigest \<Rightarrow> FenceState set" where
  "states_except es i digest =
     {record_state r |j r. j \<noteq> i \<and> map_of (records_from_events es) j = Some r
                           \<and> identity_args_digest (record_identity r) = digest}"

lemma states_except_fence:
  "payload e = EffectFence f \<Longrightarrow> fence_effect_id f = i \<Longrightarrow>
   states_except (es @ [e]) i d = states_except es i d"
  unfolding states_except_def
  by (rule Collect_cong, simp add: records_snoc apply_event_def, metis apply_fence_event_other)

lemma states_except_fresh:
  "map_of (records_from_events es) i = None \<Longrightarrow> states_except es i d = digest_states es d"
  unfolding states_except_def digest_states_def by force

lemma digest_states_fence:
  assumes "payload e = EffectFence f"
  shows "digest_states (es @ [e]) d = states_except es (fence_effect_id f) d
    \<union> (if fence_args_digest f = d then {fence_event_state f} else {})"
proof -
  let ?m = "map_of (apply_fence_event f (records_from_events es))"
  obtain r where r: "?m (fence_effect_id f) = Some r" "identity_args_digest (record_identity r) = fence_args_digest f"
    using apply_fence_event_digest by blast
  have st: "record_state r = fence_event_state f"
    using apply_fence_event_state [OF r(1)] by (cases f) simp_all
  have "digest_states (es @ [e]) d =
      {record_state x |j x. ?m j = Some x \<and> identity_args_digest (record_identity x) = d}"
    by (simp add: digest_states_def records_snoc apply_event_def assms)
  also have "\<dots> = {record_state x |j x. j \<noteq> fence_effect_id f \<and> ?m j = Some x
        \<and> identity_args_digest (record_identity x) = d}
      \<union> (if fence_args_digest f = d then {fence_event_state f} else {})"
    using r st by force
  also have "{record_state x |j x. j \<noteq> fence_effect_id f \<and> ?m j = Some x
        \<and> identity_args_digest (record_identity x) = d} = states_except es (fence_effect_id f) d"
    unfolding states_except_def by (rule Collect_cong) (metis apply_fence_event_other)
  finally show ?thesis .
qed

lemma fence_three_states:
  assumes "payload e1 = EffectFence f1" "payload e2 = EffectFence f2" "payload e3 = EffectFence f3"
    and "fence_effect_id f1 = i" "fence_effect_id f2 = i" "fence_effect_id f3 = i"
    and "map_of (records_from_events es) i = None"
  shows "digest_states (es @ [e1, e2, e3]) d
    = digest_states es d \<union> (if fence_args_digest f3 = d then {fence_event_state f3} else {})"
  using digest_states_fence [OF assms(3), of "es @ [e1, e2]" d]
    states_except_fence [OF assms(2,5), of "es @ [e1]" d] states_except_fence [OF assms(1,4), of es d]
    states_except_fresh [OF assms(7), of d] assms(6)
  by simp

lemma memory_prepare_and_start:
  assumes "store_wf s" "store_healthy s"
  shows "\<exists>r s' e1 e2. prepare_and_start (memory_ops err) sid t i s = (Inr r, s') \<and> store_wf s' \<and> store_healthy s'
    \<and> visible s' sid = visible s sid @ [e1, e2]
    \<and> payload e1 = EffectFence (EffectFenceEvent.Prepared (identity_effect_id i) (identity_args_digest i)
                                  (identity_kind i) (identity_target_label i))
    \<and> payload e2 = EffectFence (EffectFenceEvent.Started (identity_effect_id i) (identity_args_digest i))"
proof -
  let ?p = "EffectFenceEvent.Prepared (identity_effect_id i) (identity_args_digest i) (identity_kind i)
    (identity_target_label i)"
  let ?q = "EffectFenceEvent.Started (identity_effect_id i) (identity_args_digest i)"
  obtain e1 s1 where a: "ledger_append (memory_ops err) sid (fst t) ?p s = (Inr (), s1)"
    "payload e1 = EffectFence ?p" "store_wf s1" "store_healthy s1" "visible s1 sid = visible s sid @ [e1]"
    using memory_ledger_append [OF assms, of err sid "fst t" ?p] by auto
  obtain e2 s2 where b: "ledger_append (memory_ops err) sid (snd t) ?q s1 = (Inr (), s2)"
    "payload e2 = EffectFence ?q" "store_wf s2" "store_healthy s2" "visible s2 sid = visible s1 sid @ [e2]"
    using memory_ledger_append [OF a(3,4), of err sid "snd t" ?q] by auto
  have "prepare_and_start (memory_ops err) sid t i s =
      (Inr \<lparr>record_identity = i, record_state = FenceState.Started, record_summary = None\<rparr>, s2)"
    by (simp add: prepare_and_start_def ledger_prepare_def mark_started_def a(1) b(1))
  then show ?thesis using a(2,5) b(2,3,4,5) by fastforce
qed

text \<open>
  One call under the fence, on a healthy store and with an unused id. When the check lets it pass,
  the closure starts in a store whose log already ends with \<open>Prepared\<close> and \<open>Started\<close> of this
  invocation, and the log ends with \<open>Observed\<close> or \<open>Failed\<close> when the call returns.
\<close>

lemma run_under_fence_passed:
  assumes "store_wf s" "store_healthy s"
    and "check_replay_safe (memory_ops err) sid (draw_order D) s (args_digest_for_effect X eff) = Inr AllowFresh"
    and "run_under_fence X (memory_ops err) sid D eff (\<lambda>s w. (res, s, w @ [m])) s w = (out, s', w')"
  shows "\<exists>e1 e2 e3 f3. w' = w @ [m] \<and> store_wf s' \<and> store_healthy s'
    \<and> visible s' sid = visible s sid @ [e1, e2, e3]
    \<and> payload e1 = EffectFence (EffectFenceEvent.Prepared (draw_effect_id D) (args_digest_for_effect X eff)
                                  (kind_label_for_effect eff) (action_target (effect_action eff)))
    \<and> payload e2 = EffectFence (EffectFenceEvent.Started (draw_effect_id D) (args_digest_for_effect X eff))
    \<and> payload e3 = EffectFence f3 \<and> fence_effect_id f3 = draw_effect_id D
    \<and> fence_args_digest f3 = args_digest_for_effect X eff
    \<and> fence_event_state f3 = (if is_ok res then FenceState.Observed else FenceState.Failed)
    \<and> out = map_sum id Executed res"
proof -
  let ?i = "identity_from_effect X (draw_effect_id D) eff"
  obtain r s1 e1 e2 where a: "prepare_and_start (memory_ops err) sid (draw_prepared D, draw_started D) ?i s = (Inr r, s1)"
    "store_wf s1" "store_healthy s1" "visible s1 sid = visible s sid @ [e1, e2]"
    "payload e1 = EffectFence (EffectFenceEvent.Prepared (draw_effect_id D) (args_digest_for_effect X eff)
                                  (kind_label_for_effect eff) (action_target (effect_action eff)))"
    "payload e2 = EffectFence (EffectFenceEvent.Started (draw_effect_id D) (args_digest_for_effect X eff))"
    using memory_prepare_and_start [OF assms(1,2), of err sid "(draw_prepared D, draw_started D)" ?i]
    by (auto simp: identity_from_effect_def)
  have fp: "fence_prepare X (memory_ops err) sid D eff s = (Inr ?i, s1)"
    by (simp add: fence_prepare_def assms(3) a(1) Let_def)
  let ?f = "\<lambda>ev. ev (draw_effect_id D) (args_digest_for_effect X eff)"
  show ?thesis
  proof (cases res)
    case (Inr v)
    let ?f3 = "?f EffectFenceEvent.Observed (bound_fence_summary ''executed'')"
    obtain e3 s3 where b: "ledger_append (memory_ops err) sid (draw_finished D) ?f3 s1 = (Inr (), s3)"
      "payload e3 = EffectFence ?f3" "store_wf s3" "store_healthy s3" "visible s3 sid = visible s1 sid @ [e3]"
      using memory_ledger_append [OF a(2,3), of err sid "draw_finished D" ?f3] by auto
    have "out = Inr (Executed v)" "s' = s3" "w' = w @ [m]"
      using assms(4) Inr b(1) by (simp_all add: run_under_fence_def fp observe_def identity_from_effect_def Let_def)
    then show ?thesis using a b Inr by (intro exI [of _ e1] exI [of _ e2] exI [of _ e3] exI [of _ ?f3]) simp
  next
    case (Inl x)
    let ?f3 = "?f EffectFenceEvent.Failed (bound_fence_summary ''execution error'')"
    obtain e3 s3 where b: "ledger_append (memory_ops err) sid (draw_finished D) ?f3 s1 = (Inr (), s3)"
      "payload e3 = EffectFence ?f3" "store_wf s3" "store_healthy s3" "visible s3 sid = visible s1 sid @ [e3]"
      using memory_ledger_append [OF a(2,3), of err sid "draw_finished D" ?f3] by auto
    have "out = Inl x" "s' = s3" "w' = w @ [m]"
      using assms(4) Inl b(1) by (simp_all add: run_under_fence_def fp mark_failed_def identity_from_effect_def Let_def)
    then show ?thesis using a b Inl by (intro exI [of _ e1] exI [of _ e2] exI [of _ e3] exI [of _ ?f3]) simp
  qed
qed

lemma run_under_fence_refused:
  assumes "check_replay_safe S sid (draw_order D) s (args_digest_for_effect X eff) \<noteq> Inr AllowFresh"
  shows "\<exists>reason. run_under_fence X S sid D eff execution s w = (Inr (Denied reason), s, w)"
  using assms
  by (auto simp: run_under_fence_def fence_prepare_def split: sum.splits FenceReplayDecision.splits)

section \<open>Sequences of fenced effects\<close>

text \<open>
  The state is the store and the digests of the effects whose closure ran, in order. A step appends
  an event of another kind to any session, or runs an effect under the fence of session \<open>sid\<close>,
  with any outcome, any order of the hash map, and an id that no record of the log has.
\<close>

inductive fence_step ::
    "externals \<Rightarrow> (StoreError \<Rightarrow> string) \<Rightarrow> uuid
     \<Rightarrow> MemoryEventStore \<times> ArgsDigest list \<Rightarrow> MemoryEventStore \<times> ArgsDigest list \<Rightarrow> bool"
  for X err sid where
  other: "fence_step X err sid (s, w) (s', w)"
    if "memory_append_next s t sid' p = (r, s')" "\<And>f. p \<noteq> EffectFence f"
| run: "fence_step X err sid (s, w) (s', w')"
    if "run_under_fence X (memory_ops err) sid D eff
          (\<lambda>s w. (res :: string + unit, s, w @ [args_digest_for_effect X eff])) s w = (out, s', w')"
      "permutes_values (draw_order D)"
      "map_of (records_from_events (visible s sid)) (draw_effect_id D) = None"

inductive fence_run ::
    "externals \<Rightarrow> (StoreError \<Rightarrow> string) \<Rightarrow> uuid
     \<Rightarrow> MemoryEventStore \<times> ArgsDigest list \<Rightarrow> MemoryEventStore \<times> ArgsDigest list \<Rightarrow> bool"
  for X err sid where
  refl: "fence_run X err sid c c"
| step: "fence_run X err sid c c''" if "fence_run X err sid c c'" "fence_step X err sid c' c''"

definition fence_inv :: "uuid \<Rightarrow> MemoryEventStore \<times> ArgsDigest list \<Rightarrow> bool" where
  "fence_inv sid c \<longleftrightarrow>
     store_wf (fst c) \<and> distinct (snd c)
     \<and> (store_healthy (fst c) \<longrightarrow>
          (\<forall>d. FenceState.Prepared \<notin> digest_states (visible (fst c) sid) d)
          \<and> (\<forall>d \<in> set (snd c). digest_states (visible (fst c) sid) d \<noteq> {}))"

lemma fence_inv_other:
  assumes "fence_inv sid (s, w)" "memory_append_next s t sid' p = (r, s')" "\<And>f. p \<noteq> EffectFence f"
  shows "fence_inv sid (s', w)"
proof (cases r)
  case (Inl e)
  then have "s' = s" using memory_append_next_wf(2) [of s t sid' p r s'] assms by (simp add: fence_inv_def)
  then show ?thesis using assms(1) by simp
next
  case (Inr e)
  have wf: "store_wf s" using assms(1) by (simp add: fence_inv_def)
  note facts = memory_append_next_wf [OF wf assms(2), unfolded Inr sum.case]
  have "payload e = p" using facts(2) by simp
  then have "digest_states (visible s' sid) d = digest_states (visible s sid) d" for d
    using facts(2) assms(3) digest_states_snoc_other [of e "visible s sid" d] by auto
  then show ?thesis using assms(1) facts by (simp add: fence_inv_def)
qed

lemma fence_inv_run:
  assumes "fence_inv sid (s, w)" "permutes_values (draw_order D)"
    and "map_of (records_from_events (visible s sid)) (draw_effect_id D) = None"
    and "run_under_fence X (memory_ops err) sid D eff
          (\<lambda>s w. (res :: string + unit, s, w @ [args_digest_for_effect X eff])) s w = (out, s', w')"
  shows "fence_inv sid (s', w')"
proof (cases "check_replay_safe (memory_ops err) sid (draw_order D) s (args_digest_for_effect X eff) = Inr AllowFresh")
  case False
  then have "s' = s" "w' = w"
    using run_under_fence_refused [OF False, of "\<lambda>s w. (res, s, w @ [args_digest_for_effect X eff])" w] assms(4)
    by auto
  then show ?thesis using assms(1) by simp
next
  case True
  let ?d = "args_digest_for_effect X eff"
  have wf: "store_wf s" using assms(1) by (simp add: fence_inv_def)
  have h: "store_healthy s"
    using True by (auto simp: check_replay_safe_def latest_for_digest_def load_all_def
        memory_list_visible [OF wf] split: if_splits)
  have l: "so_list (memory_ops err) s sid = Inr (visible s sid)"
    using wf h by (simp add: memory_list_visible)
  have new: "digest_states (visible s sid) ?d = {}"
    using check_replay_fresh [OF l assms(2) True] assms(1) h by (auto simp: fence_inv_def)
  obtain e1 e2 e3 f3 where r: "w' = w @ [?d]" "store_wf s'" "store_healthy s'"
      "visible s' sid = visible s sid @ [e1, e2, e3]"
      "payload e1 = EffectFence (EffectFenceEvent.Prepared (draw_effect_id D) ?d
          (kind_label_for_effect eff) (action_target (effect_action eff)))"
      "payload e2 = EffectFence (EffectFenceEvent.Started (draw_effect_id D) ?d)"
      "payload e3 = EffectFence f3" "fence_effect_id f3 = draw_effect_id D" "fence_args_digest f3 = ?d"
      "fence_event_state f3 = (if is_ok res then FenceState.Observed else FenceState.Failed)"
    using run_under_fence_passed [OF wf h True assms(4)] by blast
  have "digest_states (visible s' sid) d = digest_states (visible s sid) d
      \<union> (if ?d = d then {fence_event_state f3} else {})" for d
    using fence_three_states [OF r(5,6,7) _ _ r(8) assms(3), of d] r(4,9) by simp
  then show ?thesis using assms(1) h new r(1,2,3,10) by (auto simp: fence_inv_def)
qed

lemma fence_inv_runs: "fence_run X err sid c c' \<Longrightarrow> fence_inv sid c \<Longrightarrow> fence_inv sid c'"
proof (induction rule: fence_run.induct)
  case (step c c' c'')
  from step.hyps(2) step.IH [OF step.prems] show ?case
    by (cases rule: fence_step.cases) (use fence_inv_other fence_inv_run in blast)+
qed

section \<open>Properties\<close>

text \<open>
  C22. The seam allows an effect exactly when the sandbox admits it, the plan mode does not forbid it,
  the risk gate does not deny it, and either the policy allows it outright or the policy defers, the
  risk gate allows, and the mode lets the gate decide. This holds for every risk gate.
\<close>

theorem admission_allow_iff:
  "decide_with_argv C seam effect argv = EffectDecision.Allow \<longleftrightarrow>
     is_ok (sandbox_admit (context_fs C) (seam_sandbox seam) effect)
     \<and> \<not> (seam_mode seam = ExecutionMode.Plan \<and> is_mutating_effect effect)
     \<and> (let policy = policy_decision C seam (effect_action effect);
            risk = seam_risk_gate seam \<lparr>risk_mode = seam_mode seam, risk_effect = effect, risk_argv = argv\<rparr>
        in policy = PolicyDecision.Allow \<and> (risk = RiskGateDecision.Allow \<or> (\<exists>r. risk = NeedsHumanApproval r))
           \<or> (\<exists>r. policy = PolicyDecision.NeedsApproval r) \<and> risk = RiskGateDecision.Allow
              \<and> risk_auto_allows_policy_deferral (seam_mode seam) effect)"
  unfolding decide_with_argv_def by (rule admit_Allow)



text \<open>
  C1. Under the fence an effect runs at most once: in every sequence of fenced calls and other appends
  that starts from a session without fence events, no digest is executed twice, whatever the calls
  return and however the hash map is ordered. Two effects have one digest when they agree on
  capability, kind, origin, target and version; what is written does not enter it, so the second write
  of a file is refused.
\<close>

theorem fence_at_most_once:
  assumes "store_run memory_default s0" and "records_from_events (visible s0 sid) = []"
    and "fence_run X err sid (s0, []) (s, w)"
  shows "distinct w"
proof -
  have "fence_inv sid (s0, [])"
    using assms(2) store_run_wf [OF assms(1) store_wf_default] by (simp add: fence_inv_def digest_states_def)
  then show ?thesis using fence_inv_runs [OF assms(3)] by (simp add: fence_inv_def)
qed

text \<open>A seam in the ask mode and a command it defers, for the witnesses.\<close>

definition demo_context :: "string seam_context" where
  "demo_context = \<lparr>context_fs = empty_fs, context_url = plain_host_api, context_overrides = [Map.empty],
     context_externals = demo_externals\<rparr>"

definition demo_seam :: EffectSeam where
  "demo_seam = with_sandbox shell_engine (sandbox_workspace ''/w'')"

definition demo_effect :: NormalizedEffect where
  "demo_effect = process_spawn ActionOrigin.Agent ''make'' ''make''"

definition demo_deferred :: DeferredEffect where
  "demo_deferred = \<lparr>deferred_effect = demo_effect, deferred_approval =
     pending_with_version demo_externals 9 (effect_action demo_effect)
       ''process spawn requires human approval in ASK mode'' 3 (Some 1)\<rparr>"

lemma demo_classify:
  "classify \<lparr>risk_mode = Ask, risk_effect = demo_effect, risk_argv = None\<rparr>
   = NeedsHumanApproval ''process spawn requires human approval in ASK mode''"
  by code_simp

lemma demo_sandbox: "sandbox_admit empty_fs (sandbox_workspace ''/w'') demo_effect = Inr ()"
  by (simp add: sandbox_admit_def sandbox_workspace_def demo_effect_def process_spawn_def normalized_def)

lemma demo_policy:
  "\<exists>r. policy_decision demo_context demo_seam (effect_action demo_effect) = PolicyDecision.NeedsApproval r"
  by (simp add: policy_decision_def demo_context_def demo_seam_def with_sandbox_def with_admission_def
      shell_engine_def demo_effect_def process_spawn_def normalized_def evaluate_def scope_deny_def
      network_deny_def default_decision_def)

lemma demo_request:
  "request_with_argv demo_context demo_seam 9 demo_effect 3 None = EffectAdmission.NeedsApproval demo_deferred"
proof -
  obtain r where "policy_decision demo_context demo_seam (effect_action demo_effect) = PolicyDecision.NeedsApproval r"
    using demo_policy by blast
  then have "admit demo_context demo_seam demo_effect None
      = EffectDecision.NeedsApproval ''process spawn requires human approval in ASK mode''"
    by (simp add: admit_def demo_sandbox demo_context_def demo_seam_def with_sandbox_def with_admission_def
        is_mutating_tool_allowed_def combine_def demo_classify)
  moreover have "effect_version demo_effect = 1"
    by (simp add: demo_effect_def process_spawn_def normalized_def CapabilityVersion_V1_def)
  ultimately show ?thesis
    by (simp add: request_with_argv_def demo_deferred_def demo_context_def)
qed



theorem fence_at_most_once_witness:
  "\<exists>s w. fence_run demo_externals (\<lambda>_. []) 1 (demo_store1, []) (s, w) \<and> w \<noteq> [] \<and> distinct w"
proof -
  let ?D = "\<lparr>draw_order = id, draw_effect_id = 7, draw_prepared = (200, 9), draw_started = (201, 9),
    draw_finished = (202, 9), draw_unknown = (203, 9)\<rparr>"
  let ?x = "\<lambda>s w. (Inr () :: string + unit, s, w @ [args_digest_for_effect demo_externals demo_effect])"
  have none: "records_from_events (visible demo_store1 1) = []"
    by (simp add: demo_visible1 demo_event_def records_from_events_def apply_event_def)
  have wf: "store_wf demo_store1" using store_run_wf [OF demo_store1_run store_wf_default] .
  have id: "permutes_values id" by (simp add: permutes_values_def)
  obtain out s w where run: "run_under_fence demo_externals (memory_ops (\<lambda>_. [])) 1 ?D demo_effect ?x demo_store1 []
      = (out, s, w)"
    by (metis prod.exhaust)
  have ok: "check_replay_safe (memory_ops (\<lambda>_. [])) 1 (draw_order ?D) demo_store1
      (args_digest_for_effect demo_externals demo_effect) = Inr AllowFresh"
    using check_replay_new [of "memory_ops (\<lambda>_. [])" demo_store1 1 "visible demo_store1 1" id] wf demo_healthy1 none id
    by (simp add: memory_list_visible digest_states_def)
  have ne: "w \<noteq> []" using run_under_fence_passed [OF wf demo_healthy1 ok run] by auto
  have "fence_step demo_externals (\<lambda>_. []) 1 (demo_store1, []) (s, w)"
    using fence_step.run [OF run] none id by simp
  then have "fence_run demo_externals (\<lambda>_. []) 1 (demo_store1, []) (s, w)"
    by (blast intro: fence_run.intros)
  then show ?thesis using fence_at_most_once [OF demo_store1_run none] ne by blast
qed

end
