(* ===== verification/Completion.thy ===== *)
theory Completion
  imports Events
begin

text \<open>
  When a run may be recorded as completed: the evidence gate of
  \<open>crates/impetus-core/src/completion_gate.rs\<close>, the ledger of open obligations
  (\<open>obligation_ledger.rs\<close>) and the bounded loop around the gate (\<open>gap_loop.rs\<close>).

  The text of an id, of which the uuid crate is in charge, is the argument \<open>uuid_text\<close>. The two
  callbacks of the gap loop are functions on a state; an error is its text.
\<close>

section \<open>Obligations\<close>

datatype ObligationStatus = Open | Fulfilled | Cancelled

definition status_is_open :: "ObligationStatus \<Rightarrow> bool" where
  "status_is_open s \<longleftrightarrow> s = Open"

record Obligation =
  obligation_id :: string
  obligation_kind :: string
  obligation_summary :: string
  obligation_status :: ObligationStatus

datatype ObligationLedgerError = NotFound string | NotOpen string ObligationStatus | Duplicate string

type_synonym ObligationLedger = "Obligation list"

definition ledger_new :: ObligationLedger where
  "ledger_new = []"

definition ledger_get :: "ObligationLedger \<Rightarrow> string \<Rightarrow> Obligation option" where
  "ledger_get items i = List.find (\<lambda>o1. obligation_id o1 = i) items"

definition open_required :: "ObligationLedger \<Rightarrow> Obligation list" where
  "open_required items = filter (\<lambda>o1. status_is_open (obligation_status o1)) items"

definition has_open_required :: "ObligationLedger \<Rightarrow> bool" where
  "has_open_required items \<longleftrightarrow> list_ex (\<lambda>o1. status_is_open (obligation_status o1)) items"

definition missing_labels :: "ObligationLedger \<Rightarrow> string list" where
  "missing_labels items = map (\<lambda>o1. ''obligation:'' @ obligation_id o1) (open_required items)"

definition register ::
    "string \<Rightarrow> string \<Rightarrow> string \<Rightarrow> ObligationLedger \<Rightarrow> (ObligationLedgerError + Obligation) \<times> ObligationLedger" where
  "register i kind summary items =
     (if list_ex (\<lambda>o1. obligation_id o1 = i) items then (Inl (ObligationLedgerError.Duplicate i), items)
      else let o1 = \<lparr>obligation_id = i, obligation_kind = kind, obligation_summary = summary,
                     obligation_status = Open\<rparr>
           in (Inr o1, items @ [o1]))"

text \<open>\<open>register_new\<close> panics when the new id is taken; \<open>None\<close> is the panic.\<close>

definition register_new ::
    "(uuid \<Rightarrow> string) \<Rightarrow> uuid \<Rightarrow> string \<Rightarrow> string \<Rightarrow> ObligationLedger \<Rightarrow> Obligation option \<times> ObligationLedger" where
  "register_new uuid_text new_id kind summary items =
     (case register (uuid_text new_id) kind summary items of
        (Inr o1, items') \<Rightarrow> (Some o1, items')
      | (Inl _, items') \<Rightarrow> (None, items'))"

fun set_status ::
    "string \<Rightarrow> ObligationStatus \<Rightarrow> ObligationLedger \<Rightarrow> (ObligationLedgerError + Obligation) \<times> ObligationLedger" where
  "set_status i st [] = (Inl (NotFound i), [])"
| "set_status i st (item # items) =
     (if obligation_id item = i
      then (if \<not> status_is_open (obligation_status item)
            then (Inl (NotOpen i (obligation_status item)), item # items)
            else let item' = item\<lparr>obligation_status := st\<rparr> in (Inr item', item' # items))
      else let (r, items') = set_status i st items in (r, item # items'))"

definition fulfill :: "string \<Rightarrow> ObligationLedger \<Rightarrow> (ObligationLedgerError + Obligation) \<times> ObligationLedger" where
  "fulfill i = set_status i Fulfilled"

definition cancel_obligation ::
    "string \<Rightarrow> ObligationLedger \<Rightarrow> (ObligationLedgerError + Obligation) \<times> ObligationLedger" where
  "cancel_obligation i = set_status i ObligationStatus.Cancelled"

section \<open>Evidence\<close>

record Evidence =
  evidence_kind :: string
  evidence_id :: string
  evidence_summary :: string
  evidence_artifact_or_path :: "string option"
  evidence_sequence :: "nat option"

datatype CompletionVerdict = Accepted | Rejected string | Insufficient "string list"

record CompletionClaim =
  claim_goal :: string
  claim_side_effects :: bool

record EvidenceBag =
  bag_items :: "Evidence list"
  bag_side_effects :: bool

definition bag_new :: EvidenceBag where
  "bag_new = \<lparr>bag_items = [], bag_side_effects = False\<rparr>"

definition bag_push :: "Evidence \<Rightarrow> EvidenceBag \<Rightarrow> EvidenceBag" where
  "bag_push e b = b\<lparr>bag_side_effects := True, bag_items := bag_items b @ [e]\<rparr>"

definition note_side_effect :: "EvidenceBag \<Rightarrow> EvidenceBag" where
  "note_side_effect b = b\<lparr>bag_side_effects := True\<rparr>"

definition side_effects_occurred :: "EvidenceBag \<Rightarrow> bool" where
  "side_effects_occurred b \<longleftrightarrow> bag_side_effects b \<or> bag_items b \<noteq> []"

definition bound_summary :: "string \<Rightarrow> string" where
  "bound_summary input =
     (let trimmed = trim input in
      if length trimmed \<le> 200 then trimmed
      else take (floor_char_boundary trimmed 200) trimmed @ ellipsis)"

fun observation_kind :: "ToolEventOutcome \<Rightarrow> string" where
  "observation_kind Success = ''tool_observation''"
| "observation_kind Error = ''tool_observation_failed''"
| "observation_kind ToolEventOutcome.Denied = ''tool_observation_failed''"
| "observation_kind ApprovalRequired = ''tool_observation_pending''"

definition observation_summary :: "string \<Rightarrow> string \<Rightarrow> string option \<Rightarrow> string" where
  "observation_summary name preview err =
     (let summary = name @ '': '' @ bound_summary preview in
      case err of
        Some e \<Rightarrow> if e = [] then summary else summary @ '' ('' @ bound_summary e @ '')''
      | None \<Rightarrow> summary)"

text \<open>The body of the loop of \<open>from_session_events\<close>, and the loop up to its \<open>break\<close>.\<close>

definition collect_event :: "Event \<Rightarrow> EvidenceBag \<Rightarrow> EvidenceBag" where
  "collect_event e b =
     (case payload e of
        Tool (ToolEvent.Observed call name _ result preview artifact err) \<Rightarrow>
          bag_push \<lparr>evidence_kind = observation_kind result, evidence_id = call,
                    evidence_summary = observation_summary name preview err,
                    evidence_artifact_or_path = map_option artifact_id artifact,
                    evidence_sequence = Some (sequence e)\<rparr> b
      | Tool _ \<Rightarrow> note_side_effect b
      | EventPayload.Sandbox _ \<Rightarrow> note_side_effect b
      | _ \<Rightarrow> b)"

definition is_run_event :: "Event \<Rightarrow> bool" where
  "is_run_event e \<longleftrightarrow> (case payload e of Run _ \<Rightarrow> True | _ \<Rightarrow> False)"

definition is_start_of :: "uuid \<Rightarrow> Event \<Rightarrow> bool" where
  "is_start_of run_id e \<longleftrightarrow> payload e = Run (RunEvent.Started run_id)"

fun collect_loop :: "Event list \<Rightarrow> EvidenceBag \<Rightarrow> EvidenceBag" where
  "collect_loop [] b = b"
| "collect_loop (e # es) b = (if is_run_event e then b else collect_loop es (collect_event e b))"

text \<open>\<open>Iterator::rposition\<close>.\<close>

fun rposition :: "('a \<Rightarrow> bool) \<Rightarrow> 'a list \<Rightarrow> nat option" where
  "rposition p [] = None"
| "rposition p (x # xs) =
     (case rposition p xs of Some n \<Rightarrow> Some (Suc n) | None \<Rightarrow> if p x then Some 0 else None)"

definition from_session_events :: "Event list \<Rightarrow> uuid \<Rightarrow> EvidenceBag" where
  "from_session_events events run_id =
     (case rposition (is_start_of run_id) events of
        None \<Rightarrow> bag_new
      | Some start \<Rightarrow> collect_loop (drop (start + 1) events) bag_new)"

section \<open>The gate\<close>

definition evaluate_evidence :: "CompletionClaim \<Rightarrow> Evidence list \<Rightarrow> CompletionVerdict" where
  "evaluate_evidence claim evidence =
     (if \<not> claim_side_effects claim then Accepted
      else if evidence = [] then Insufficient [''tool_observation'']
      else if list_ex (\<lambda>e. evidence_kind e = ''tool_observation'') evidence then Accepted
      else if list_all (\<lambda>e. evidence_kind e = ''tool_observation_pending'') evidence
      then Insufficient [''tool_observation_success'']
      else CompletionVerdict.Rejected ''no successful tool observation for side-effecting turn'')"

definition check_obligations :: "ObligationLedger \<Rightarrow> CompletionVerdict" where
  "check_obligations ledger =
     (if \<not> has_open_required ledger then Accepted else Insufficient (missing_labels ledger))"

definition evaluate_with_obligations ::
    "CompletionClaim \<Rightarrow> Evidence list \<Rightarrow> ObligationLedger \<Rightarrow> CompletionVerdict" where
  "evaluate_with_obligations claim evidence ledger =
     (case evaluate_evidence claim evidence of
        Accepted \<Rightarrow> check_obligations ledger
      | other \<Rightarrow> other)"

definition gate_evaluate :: "CompletionClaim \<Rightarrow> Evidence list \<Rightarrow> CompletionVerdict" where
  "gate_evaluate claim evidence = evaluate_with_obligations claim evidence ledger_new"

definition evaluate_run_with_obligations ::
    "(uuid \<Rightarrow> string) \<Rightarrow> Event list \<Rightarrow> uuid \<Rightarrow> ObligationLedger \<Rightarrow> CompletionVerdict" where
  "evaluate_run_with_obligations uuid_text events run_id ledger =
     (let bag = from_session_events events run_id;
          claim = \<lparr>claim_goal = ''run:'' @ uuid_text run_id,
                   claim_side_effects = side_effects_occurred bag\<rparr>
      in evaluate_with_obligations claim (bag_items bag) ledger)"

definition evaluate_run :: "(uuid \<Rightarrow> string) \<Rightarrow> Event list \<Rightarrow> uuid \<Rightarrow> CompletionVerdict" where
  "evaluate_run uuid_text events run_id =
     evaluate_run_with_obligations uuid_text events run_id ledger_new"

section \<open>The gap loop\<close>

definition GAP_LOOP_MAX_ITERATIONS :: nat where
  "GAP_LOOP_MAX_ITERATIONS = 3"

datatype GapLoopOutcome =
    Accepted
  | Rejected string
  | Exhausted "string list" nat
  | Failed string

fun fail_reason :: "GapLoopOutcome \<Rightarrow> string option" where
  "fail_reason GapLoopOutcome.Accepted = None"
| "fail_reason (GapLoopOutcome.Rejected reason) = Some (''completion gate rejected: '' @ reason)"
| "fail_reason (Exhausted missing iterations) =
     Some (''GapLoopExhausted after '' @ nat_to_string iterations
           @ '': NeedsEvidence: missing '' @ str_join '', '' missing)"
| "fail_reason (GapLoopOutcome.Failed reason) = Some reason"

definition is_accepted :: "GapLoopOutcome \<Rightarrow> bool" where
  "is_accepted out \<longleftrightarrow> out = GapLoopOutcome.Accepted"

function gap_loop ::
    "('s \<Rightarrow> (string + CompletionVerdict) \<times> 's) \<Rightarrow> (string list \<Rightarrow> 's \<Rightarrow> (string + bool) \<times> 's)
     \<Rightarrow> nat \<Rightarrow> 's \<Rightarrow> GapLoopOutcome \<times> 's" where
  "gap_loop evaluate fill iterations s =
     (case evaluate s of
        (Inl err, s1) \<Rightarrow> (GapLoopOutcome.Failed (''completion gate error: '' @ err), s1)
      | (Inr CompletionVerdict.Accepted, s1) \<Rightarrow> (GapLoopOutcome.Accepted, s1)
      | (Inr (CompletionVerdict.Rejected reason), s1) \<Rightarrow> (GapLoopOutcome.Rejected reason, s1)
      | (Inr (Insufficient missing), s1) \<Rightarrow>
          if GAP_LOOP_MAX_ITERATIONS \<le> iterations then (Exhausted missing iterations, s1)
          else (case fill missing s1 of
            (Inr True, s2) \<Rightarrow> gap_loop evaluate fill (iterations + 1) s2
          | (Inr False, s2) \<Rightarrow> (Exhausted missing (iterations + 1), s2)
          | (Inl err, s2) \<Rightarrow> (GapLoopOutcome.Failed (''gap fill error: '' @ err), s2)))"
  by pat_completeness auto
termination
  by (relation "measure (\<lambda>(_, _, n, _). GAP_LOOP_MAX_ITERATIONS - n)") auto

declare gap_loop.simps [simp del]

definition run_gap_loop ::
    "('s \<Rightarrow> (string + CompletionVerdict) \<times> 's) \<Rightarrow> (string list \<Rightarrow> 's \<Rightarrow> (string + bool) \<times> 's)
     \<Rightarrow> 's \<Rightarrow> GapLoopOutcome \<times> 's" where
  "run_gap_loop evaluate fill s = gap_loop evaluate fill 0 s"

section \<open>Facts\<close>

text \<open>The events of a run: from its last start to the next event of any run.\<close>

definition run_segment :: "Event list \<Rightarrow> uuid \<Rightarrow> Event list" where
  "run_segment events run_id =
     (case rposition (is_start_of run_id) events of
        None \<Rightarrow> []
      | Some start \<Rightarrow> takeWhile (\<lambda>e. \<not> is_run_event e) (drop (start + 1) events))"

definition is_effect :: "Event \<Rightarrow> bool" where
  "is_effect e \<longleftrightarrow> (case payload e of Tool _ \<Rightarrow> True | EventPayload.Sandbox _ \<Rightarrow> True | _ \<Rightarrow> False)"

definition is_success :: "Event \<Rightarrow> bool" where
  "is_success e \<longleftrightarrow> (case payload e of Tool (ToolEvent.Observed _ _ _ Success _ _ _) \<Rightarrow> True | _ \<Rightarrow> False)"

lemma collect_loop_fold:
  "collect_loop es b = fold collect_event (takeWhile (\<lambda>e. \<not> is_run_event e) es) b"
  by (induction es arbitrary: b) simp_all

lemma from_session_events_segment:
  "from_session_events events run_id = fold collect_event (run_segment events run_id) bag_new"
  by (simp add: from_session_events_def run_segment_def collect_loop_fold split: option.split)

lemma collect_event_effects:
  "side_effects_occurred (collect_event e b) \<longleftrightarrow> side_effects_occurred b \<or> is_effect e"
  by (auto simp: side_effects_occurred_def collect_event_def is_effect_def bag_push_def note_side_effect_def
      split: EventPayload.splits ToolEvent.splits)

lemma collect_event_success:
  "list_ex (\<lambda>e. evidence_kind e = ''tool_observation'') (bag_items (collect_event e b)) \<longleftrightarrow>
   list_ex (\<lambda>e. evidence_kind e = ''tool_observation'') (bag_items b) \<or> is_success e"
proof -
  have "observation_kind r = ''tool_observation'' \<longleftrightarrow> r = Success" for r by (cases r) simp_all
  then show ?thesis
    by (auto simp: collect_event_def is_success_def bag_push_def note_side_effect_def
        split: EventPayload.splits ToolEvent.splits ToolEventOutcome.splits)
qed

lemma collect_fold_effects:
  "side_effects_occurred (fold collect_event es b) \<longleftrightarrow> side_effects_occurred b \<or> list_ex is_effect es"
  by (induction es arbitrary: b) (auto simp: collect_event_effects)

lemma collect_fold_success:
  "list_ex (\<lambda>e. evidence_kind e = ''tool_observation'') (bag_items (fold collect_event es b)) \<longleftrightarrow>
   list_ex (\<lambda>e. evidence_kind e = ''tool_observation'') (bag_items b) \<or> list_ex is_success es"
  by (induction es arbitrary: b) (auto simp: collect_event_success)

lemma bag_new_empty [simp]: "\<not> side_effects_occurred bag_new" "bag_items bag_new = []"
  by (simp_all add: bag_new_def side_effects_occurred_def)

lemma evaluate_evidence_Accepted:
  "evaluate_evidence claim evidence = CompletionVerdict.Accepted \<longleftrightarrow>
     \<not> claim_side_effects claim \<or> list_ex (\<lambda>e. evidence_kind e = ''tool_observation'') evidence"
  by (auto simp: evaluate_evidence_def)

lemma evaluate_with_obligations_Accepted:
  "evaluate_with_obligations claim evidence ledger = CompletionVerdict.Accepted \<longleftrightarrow>
     evaluate_evidence claim evidence = CompletionVerdict.Accepted \<and> \<not> has_open_required ledger"
  by (auto simp: evaluate_with_obligations_def check_obligations_def split: CompletionVerdict.splits)

text \<open>The callbacks with a record of what the evaluations returned and a count of the fills.\<close>

definition logged_eval ::
    "('s \<Rightarrow> (string + CompletionVerdict) \<times> 's) \<Rightarrow> 's \<times> (string + CompletionVerdict) list \<times> nat
     \<Rightarrow> (string + CompletionVerdict) \<times> 's \<times> (string + CompletionVerdict) list \<times> nat" where
  "logged_eval evaluate c =
     (case c of (s, log, fills) \<Rightarrow> (let (r, s') = evaluate s in (r, s', log @ [r], fills)))"

definition counted_fill ::
    "(string list \<Rightarrow> 's \<Rightarrow> (string + bool) \<times> 's) \<Rightarrow> string list \<Rightarrow> 's \<times> (string + CompletionVerdict) list \<times> nat
     \<Rightarrow> (string + bool) \<times> 's \<times> (string + CompletionVerdict) list \<times> nat" where
  "counted_fill fill missing c =
     (case c of (s, log, fills) \<Rightarrow> (let (r, s') = fill missing s in (r, s', log, fills + 1)))"

lemma logged_eval_apply:
  "ev s = (r, s1) \<Longrightarrow> logged_eval ev (s, log, k) = (r, s1, log @ [r], k)"
  by (simp add: logged_eval_def)

lemma counted_fill_apply:
  "fill m s = (q, s1) \<Longrightarrow> counted_fill fill m (s, log, k) = (q, s1, log, k + 1)"
  by (simp add: counted_fill_def)

definition insufficient :: "string + CompletionVerdict \<Rightarrow> bool" where
  "insufficient r \<longleftrightarrow> (case r of Inr (Insufficient _) \<Rightarrow> True | _ \<Rightarrow> False)"

definition loop_ok :: "GapLoopOutcome \<times> 's \<times> (string + CompletionVerdict) list \<times> nat \<Rightarrow> bool" where
  "loop_ok res =
     (case res of (out, s, log, fills) \<Rightarrow>
        log \<noteq> [] \<and> length log \<le> GAP_LOOP_MAX_ITERATIONS + 1 \<and> fills \<le> GAP_LOOP_MAX_ITERATIONS
        \<and> is_accepted out = (last log = Inr CompletionVerdict.Accepted)
        \<and> list_all insufficient (butlast log))"

lemma gap_loop_ok:
  assumes "list_all insufficient log" "length log = n" "n \<le> GAP_LOOP_MAX_ITERATIONS"
  shows "loop_ok (gap_loop (logged_eval ev) (counted_fill fill) n (s, log, n))"
  using assms
proof (induction "GAP_LOOP_MAX_ITERATIONS - n" arbitrary: n s log rule: less_induct)
  case less
  obtain r s1 where e: "ev s = (r, s1)" by (rule prod.exhaust)
  note step = gap_loop.simps [of "logged_eval ev" "counted_fill fill" n "(s, log, n)",
      unfolded logged_eval_apply [of ev, OF e]]
  show ?case
  proof (cases "\<exists>m. r = Inr (Insufficient m) \<and> n < GAP_LOOP_MAX_ITERATIONS")
    case True
    then obtain m where m: "r = Inr (Insufficient m)" and n: "n < GAP_LOOP_MAX_ITERATIONS" by blast
    obtain q s2 where f: "fill m s1 = (q, s2)" by (rule prod.exhaust)
    have rec: "loop_ok (gap_loop (logged_eval ev) (counted_fill fill) (Suc n) (s2, log @ [r], Suc n))"
      using less.hyps [of "Suc n" "log @ [r]" s2] n less.prems by (simp add: insufficient_def m)
    show ?thesis
      using less.prems n rec unfolding step m
      by (auto simp: counted_fill_apply [of fill, OF f] loop_ok_def is_accepted_def
          split: sum.split bool.split)
  next
    case False
    then show ?thesis
      using less.prems unfolding step
      by (auto simp: loop_ok_def is_accepted_def split: sum.split CompletionVerdict.split)
  qed
qed

section \<open>Properties\<close>

text \<open>
  C25. A run is accepted exactly when no obligation is open and, between its last start and the next
  event of any run, either no tool or sandbox event occurred or some tool observation succeeded.
\<close>

theorem completion_accepted_iff:
  "evaluate_run_with_obligations uuid_text events run_id ledger = CompletionVerdict.Accepted \<longleftrightarrow>
     \<not> has_open_required ledger
     \<and> (list_all (\<lambda>e. \<not> is_effect e) (run_segment events run_id) \<or> list_ex is_success (run_segment events run_id))"
proof -
  have "list_all (\<lambda>e. \<not> is_effect e) es \<longleftrightarrow> \<not> list_ex is_effect es" for es
    by (auto simp: list_all_iff list_ex_iff)
  then show ?thesis
    by (auto simp: evaluate_run_with_obligations_def Let_def evaluate_with_obligations_Accepted
        evaluate_evidence_Accepted from_session_events_segment collect_fold_effects collect_fold_success)
qed

text \<open>
  C24. For every evaluator and every way to fill gaps the loop ends, after at most four evaluations
  and three fills, and it accepts exactly when the last evaluation accepted. Only an insufficient
  verdict is ever followed by another evaluation.
\<close>

theorem gap_loop_fail_closed:
  "case run_gap_loop (logged_eval evaluate) (counted_fill fill) (s, [], 0) of
     (out, s', log, fills) \<Rightarrow>
       log \<noteq> [] \<and> length log \<le> 4 \<and> fills \<le> 3
       \<and> is_accepted out = (last log = Inr CompletionVerdict.Accepted)
       \<and> list_all insufficient (butlast log)"
  using gap_loop_ok [of "[]" 0 evaluate fill s]
  by (auto simp: run_gap_loop_def loop_ok_def GAP_LOOP_MAX_ITERATIONS_def split: prod.splits)

end
