(* ===== verification/Budget.thy ===== *)
theory Budget
  imports Impetus_Prelude
begin

text \<open>
  The per-session budget, \<open>crates/impetus-core/src/budget.rs\<close>. Counters are machine words and
  additions on them wrap, as in a release build (a debug build panics instead). A duration is a
  number of nanoseconds; \<open>now\<close> is the reading of the monotonic clock.

  The compaction threshold and the used share of the context are computed in \<open>f64\<close>: a
  non-negative double is the pair of its significand and its binary exponent.
\<close>

section \<open>Doubles\<close>

text \<open>Division of naturals rounded to nearest, ties to even.\<close>

definition round_even :: "nat \<Rightarrow> nat \<Rightarrow> nat" where
  "round_even n d =
     (let q = n div d; r = n mod d in
      if 2 * r < d then q else if d < 2 * r then q + 1 else if even q then q else q + 1)"

fun bit_length :: "nat \<Rightarrow> nat" where
  "bit_length n = (if n = 0 then 0 else Suc (bit_length (n div 2)))"

declare bit_length.simps [simp del]

type_synonym f64 = "nat \<times> int"

text \<open>
  The double nearest to \<open>n / d * 2 ^ e\<close>: the scale \<open>k\<close> brings the quotient into the 53 bits of a
  significand. The quotients below never leave the exponent range of a double.
\<close>

definition f64_of_ratio :: "nat \<Rightarrow> nat \<Rightarrow> int \<Rightarrow> f64" where
  "f64_of_ratio n d e =
     (if n = 0 then (0, 0)
      else let k0 = 53 + int (bit_length d) - int (bit_length n);
               k = (if n * 2 ^ nat k0 < d * 2 ^ nat (- k0) * 2 ^ 53 then k0 else k0 - 1)
           in (round_even (n * 2 ^ nat k) (d * 2 ^ nat (- k)), e - k))"

definition f64_of_nat :: "nat \<Rightarrow> f64" where
  "f64_of_nat n = f64_of_ratio n 1 0"

definition f64_mult :: "f64 \<Rightarrow> f64 \<Rightarrow> f64" where
  "f64_mult x y = f64_of_ratio (fst x * fst y) 1 (snd x + snd y)"

definition f64_div :: "f64 \<Rightarrow> f64 \<Rightarrow> f64" where
  "f64_div x y = f64_of_ratio (fst x) (fst y) (snd x - snd y)"

text \<open>Truncation to a natural number; \<open>as u64\<close> saturates it.\<close>

definition f64_floor :: "f64 \<Rightarrow> nat" where
  "f64_floor x = fst x * 2 ^ nat (snd x) div 2 ^ nat (- snd x)"

definition f64_as_u64 :: "f64 \<Rightarrow> u64" where
  "f64_as_u64 x = of_nat (min (f64_floor x) (2 ^ 64 - 1))"

section \<open>Configuration and state\<close>

datatype ReasoningEffort = Low | Medium | High

record CompactionPolicy =
  threshold_percent :: u8
  compaction_model :: "string option"
  min_turns_before_compaction :: u32

definition default_compaction_threshold :: u8 where
  "default_compaction_threshold = 80"

definition default_min_turns_before_compaction :: u32 where
  "default_min_turns_before_compaction = 5"

definition compaction_policy_default :: CompactionPolicy where
  "compaction_policy_default =
     \<lparr>threshold_percent = default_compaction_threshold, compaction_model = None,
      min_turns_before_compaction = default_min_turns_before_compaction\<rparr>"

record BudgetConfig =
  max_turns :: "u32 option"
  max_tokens :: "u64 option"
  max_wall_time :: "nat option"
  reasoning_effort :: ReasoningEffort
  compaction :: CompactionPolicy
  context_limit :: "u64 option"

definition budget_config_default :: BudgetConfig where
  "budget_config_default =
     \<lparr>max_turns = None, max_tokens = None, max_wall_time = None, reasoning_effort = Medium,
      compaction = compaction_policy_default, context_limit = None\<rparr>"

record BudgetState =
  turns_used :: u32
  tokens_used :: u64
  measured_tokens :: u64
  estimated_tokens :: u64
  started_at :: nat
  compaction_count :: u32

definition budget_state_new :: "nat \<Rightarrow> BudgetState" where
  "budget_state_new now =
     \<lparr>turns_used = 0, tokens_used = 0, measured_tokens = 0, estimated_tokens = 0, started_at = now,
      compaction_count = 0\<rparr>"

text \<open>\<open>Instant::elapsed\<close> saturates at zero.\<close>

definition elapsed :: "nat \<Rightarrow> BudgetState \<Rightarrow> nat" where
  "elapsed now st = now - started_at st"

definition context_used_percent :: "BudgetState \<Rightarrow> u64 \<Rightarrow> u8" where
  "context_used_percent st limit =
     (if limit = 0 then 0
      else of_nat (min 100 (f64_floor
             (f64_mult (f64_div (f64_of_nat (unat (tokens_used st))) (f64_of_nat (unat limit)))
                       (f64_of_nat 100)))))"

datatype BudgetError =
    TurnLimitExceeded u32 u32
  | TokenLimitExceeded u64 u64 u64
  | WallTimeExceeded nat nat
  | CompactionRequired u64 u64

record BudgetChecker =
  checker_config :: BudgetConfig
  checker_state :: BudgetState

definition budget_checker_new :: "nat \<Rightarrow> BudgetConfig \<Rightarrow> BudgetChecker" where
  "budget_checker_new now config = \<lparr>checker_config = config, checker_state = budget_state_new now\<rparr>"

section \<open>Checks\<close>

definition check_turn :: "BudgetChecker \<Rightarrow> BudgetError + unit" where
  "check_turn c =
     (case max_turns (checker_config c) of
        Some limit \<Rightarrow>
          if limit \<le> turns_used (checker_state c)
          then Inl (TurnLimitExceeded limit (turns_used (checker_state c))) else Inr ()
      | None \<Rightarrow> Inr ())"

definition check_tokens :: "BudgetChecker \<Rightarrow> u64 \<Rightarrow> BudgetError + unit" where
  "check_tokens c request_tokens =
     (case max_tokens (checker_config c) of
        Some limit \<Rightarrow>
          (let projected = tokens_used (checker_state c) + request_tokens in
           if limit < projected
           then Inl (TokenLimitExceeded limit (tokens_used (checker_state c)) request_tokens)
           else Inr ())
      | None \<Rightarrow> Inr ())"

definition check_wall_time :: "nat \<Rightarrow> BudgetChecker \<Rightarrow> BudgetError + unit" where
  "check_wall_time now c =
     (case max_wall_time (checker_config c) of
        Some limit \<Rightarrow>
          if limit < elapsed now (checker_state c)
          then Inl (WallTimeExceeded limit (elapsed now (checker_state c))) else Inr ()
      | None \<Rightarrow> Inr ())"

definition compaction_threshold :: "u64 \<Rightarrow> u8 \<Rightarrow> u64" where
  "compaction_threshold limit percent =
     f64_as_u64 (f64_mult (f64_of_nat (unat limit))
                          (f64_div (f64_of_nat (unat percent)) (f64_of_nat 100)))"

definition check_compaction :: "BudgetChecker \<Rightarrow> BudgetError + unit" where
  "check_compaction c =
     (case context_limit (checker_config c) of
        Some limit \<Rightarrow>
          (let policy = compaction (checker_config c);
               threshold = compaction_threshold limit (threshold_percent policy) in
           if min_turns_before_compaction policy \<le> turns_used (checker_state c)
              \<and> threshold \<le> tokens_used (checker_state c)
           then Inl (BudgetError.CompactionRequired threshold (tokens_used (checker_state c)))
           else Inr ())
      | None \<Rightarrow> Inr ())"

definition check_all :: "nat \<Rightarrow> BudgetChecker \<Rightarrow> u64 \<Rightarrow> BudgetError + unit" where
  "check_all now c request_tokens =
     rbind (check_turn c) (\<lambda>_. rbind (check_tokens c request_tokens) (\<lambda>_. check_wall_time now c))"

section \<open>Recording\<close>

definition record_turn :: "u64 \<Rightarrow> BudgetChecker \<Rightarrow> BudgetChecker" where
  "record_turn tokens c =
     c\<lparr>checker_state := (checker_state c)
        \<lparr>turns_used := turns_used (checker_state c) + 1,
         tokens_used := tokens_used (checker_state c) + tokens\<rparr>\<rparr>"

definition record_usage :: "u64 \<Rightarrow> bool \<Rightarrow> BudgetChecker \<Rightarrow> BudgetChecker" where
  "record_usage tokens measured c =
     (let st = (checker_state c)\<lparr>tokens_used := tokens_used (checker_state c) + tokens\<rparr> in
      c\<lparr>checker_state :=
         (if measured then st\<lparr>measured_tokens := measured_tokens st + tokens\<rparr>
          else st\<lparr>estimated_tokens := estimated_tokens st + tokens\<rparr>)\<rparr>)"

definition record_turn_with_usage :: "u64 \<Rightarrow> bool \<Rightarrow> BudgetChecker \<Rightarrow> BudgetChecker" where
  "record_turn_with_usage tokens measured c =
     record_usage tokens measured
       (c\<lparr>checker_state := (checker_state c)\<lparr>turns_used := turns_used (checker_state c) + 1\<rparr>\<rparr>)"

definition record_compaction :: "u64 \<Rightarrow> BudgetChecker \<Rightarrow> BudgetChecker" where
  "record_compaction compacted c =
     c\<lparr>checker_state := (checker_state c)
        \<lparr>compaction_count := compaction_count (checker_state c) + 1, tokens_used := compacted\<rparr>\<rparr>"

section \<open>Sequences of recorded usage\<close>

datatype budget_op = Turn u64 bool | Usage u64 bool | Compaction u64

fun apply_budget_op :: "budget_op \<Rightarrow> BudgetChecker \<Rightarrow> BudgetChecker" where
  "apply_budget_op (Turn n b) = record_turn_with_usage n b"
| "apply_budget_op (Usage n b) = record_usage n b"
| "apply_budget_op (Compaction n) = record_compaction n"

fun op_tokens :: "bool \<Rightarrow> budget_op \<Rightarrow> u64" where
  "op_tokens measured (Turn n b) = (if b = measured then n else 0)"
| "op_tokens measured (Usage n b) = (if b = measured then n else 0)"
| "op_tokens measured (Compaction n) = 0"

fun is_turn :: "budget_op \<Rightarrow> bool" where
  "is_turn (Turn _ _) = True"
| "is_turn _ = False"

fun is_compaction :: "budget_op \<Rightarrow> bool" where
  "is_compaction (Compaction _) = True"
| "is_compaction _ = False"

lemma apply_budget_ops:
  "let st = checker_state (fold apply_budget_op ops c); st0 = checker_state c in
   turns_used st = turns_used st0 + of_nat (length (filter is_turn ops))
   \<and> measured_tokens st = measured_tokens st0 + sum_list (map (op_tokens True) ops)
   \<and> estimated_tokens st = estimated_tokens st0 + sum_list (map (op_tokens False) ops)
   \<and> compaction_count st = compaction_count st0 + of_nat (length (filter is_compaction ops))
   \<and> started_at st = started_at st0"
proof (induction ops arbitrary: c)
  case (Cons x ops)
  show ?case
    using Cons.IH [of "apply_budget_op x c"]
    by (cases x) (simp_all add: Let_def record_turn_with_usage_def record_usage_def record_compaction_def
        add.assoc add.commute add.left_commute)
qed simp

lemma apply_budget_ops_tokens:
  assumes "list_all (\<lambda>x. \<not> is_compaction x) ops"
  shows "tokens_used (checker_state (fold apply_budget_op ops c)) =
    tokens_used (checker_state c) + sum_list (map (\<lambda>x. op_tokens True x + op_tokens False x) ops)"
  using assms
proof (induction ops arbitrary: c)
  case (Cons x ops)
  then show ?case
    by (cases x) (simp_all add: record_turn_with_usage_def record_usage_def Let_def add.assoc)
qed simp

text \<open>Additions wrap, so a request that overflows the counter passes the token check.\<close>

lemma check_tokens_iff:
  "check_tokens c n = Inr () \<longleftrightarrow>
     (case max_tokens (checker_config c) of
        None \<Rightarrow> True
      | Some limit \<Rightarrow> (unat (tokens_used (checker_state c)) + unat n) mod 2 ^ 64 \<le> unat limit)"
  by (auto simp: check_tokens_def Let_def word_less_nat_alt unat_word_ariths split: option.splits)

lemma unat_sum_list:
  "sum_list (map (\<lambda>x. unat (f x)) xs) < 2 ^ LENGTH('a) \<Longrightarrow>
   unat (sum_list (map f xs)) = sum_list (map (\<lambda>x. unat (f x)) xs)"
  for f :: "'b \<Rightarrow> 'a::len word"
  by (induction xs) (simp_all add: unat_word_ariths)

definition op_total :: "budget_op \<Rightarrow> u64" where
  "op_total x = op_tokens True x + op_tokens False x"

lemma config_apply_ops [simp]: "checker_config (fold apply_budget_op ops c) = checker_config c"
proof (induction ops arbitrary: c)
  case (Cons x ops)
  then show ?case
    by (cases x) (simp_all add: record_turn_with_usage_def record_usage_def record_compaction_def Let_def)
qed simp

section \<open>Properties\<close>



end
