(* ===== verification/Runtime.thy ===== *)
theory Runtime
  imports Projection Effects Completion Budget
begin

text \<open>
  The session runtime, \<open>crates/impetus-core/src/runtime.rs\<close>: the operations through which a
  session's log grows, each guarded by the projection of the log as it is. Operations take the store
  \<open>S\<close>, the runtime, what they draw from the environment (stamps of new events, new ids) and the
  state of the store.

  The runtime's own cells (budget, deferred effects, obligations) are fields; an operation that
  changes one returns the changed runtime. \<open>uuid_text\<close> and \<open>parse_uuid\<close> are the uuid crate. The
  artifact store is the function that stores a text and may fail.
\<close>

section \<open>Errors and state\<close>

datatype RuntimeStatus =
    Idle | AwaitingApproval | Running | Completed | Failed | Cancelled | InterruptedUnknown

datatype RuntimeError =
    Store StoreError
  | Projection ProjectionError
  | MissingSession uuid
  | MissingApproval uuid
  | ApprovalNotPending uuid
  | MissingIntentRevision
  | ApprovalResolverNotUser uuid
  | StaleApproval uuid
  | Denied string
  | InactiveRun uuid
  | ActiveRun uuid
  | InvalidWorkspace string

record AgentRuntime =
  runtime_session_id :: uuid
  runtime_policy :: PolicyEngine
  runtime_workspace_root :: string
  runtime_budget :: "BudgetChecker option"
  runtime_worktree_id :: "string option"
  runtime_deferred :: "uuid \<rightharpoonup> DeferredEffect"
  runtime_deferred_poisoned :: bool
  runtime_obligations :: ObligationLedger

definition policy_for_workspace ::
    "PolicyEngine \<Rightarrow> string \<Rightarrow> policy_heap \<Rightarrow> PolicyEngine \<times> policy_heap" where
  "policy_for_workspace policy root h =
     policy_with_config ((engine_scope policy)\<lparr>workspace_root := root\<rparr>) (engine_config policy h) h"

definition MAX_AGENT_CHUNK_EVENT_BYTES :: nat where
  "MAX_AGENT_CHUNK_EVENT_BYTES = 16 * 1024"

definition AGENT_CHUNK_PREVIEW_BYTES :: nat where
  "AGENT_CHUNK_PREVIEW_BYTES = 256"

definition truncate_agent_chunk_preview :: "string \<Rightarrow> string" where
  "truncate_agent_chunk_preview input =
     (if length input \<le> AGENT_CHUNK_PREVIEW_BYTES then input
      else take (floor_char_boundary input AGENT_CHUNK_PREVIEW_BYTES) input @ ellipsis)"

type_synonym artifact_store = "string \<Rightarrow> DurableArtifactRef option"

definition bound_agent_chunk_text ::
    "artifact_store option \<Rightarrow> string \<Rightarrow> string \<times> DurableArtifactRef option" where
  "bound_agent_chunk_text artifact_store text =
     (if length text \<le> MAX_AGENT_CHUNK_EVENT_BYTES then (text, None)
      else case Option.bind artifact_store (\<lambda>store. store text) of
        Some artifact \<Rightarrow> (truncate_agent_chunk_preview text, Some artifact)
      | None \<Rightarrow> (text, None))"

text \<open>
  \<open>worktree_id_from_compaction_events\<close>. The search stops at the latest completed compaction that
  binds a worktree; one without a binding is passed over.
\<close>

definition compaction_worktree :: "Event \<Rightarrow> string option" where
  "compaction_worktree e =
     (case payload e of
        EventPayload.Budget (CompactionCompleted _ _ _ _ _ (Some structural)) \<Rightarrow>
          structural_worktree_id structural
      | _ \<Rightarrow> None)"

fun find_map :: "('a \<Rightarrow> 'b option) \<Rightarrow> 'a list \<Rightarrow> 'b option" where
  "find_map f [] = None"
| "find_map f (x # xs) = (case f x of Some y \<Rightarrow> Some y | None \<Rightarrow> find_map f xs)"

definition worktree_id_from_compaction_events :: "Event list \<Rightarrow> string option" where
  "worktree_id_from_compaction_events events = find_map compaction_worktree (rev events)"

definition runtime_with :: "uuid \<Rightarrow> PolicyEngine \<Rightarrow> string \<Rightarrow> string option \<Rightarrow> AgentRuntime" where
  "runtime_with sid policy root worktree =
     \<lparr>runtime_session_id = sid, runtime_policy = policy, runtime_workspace_root = root,
      runtime_budget = None, runtime_worktree_id = worktree, runtime_deferred = Map.empty,
      runtime_deferred_poisoned = False, runtime_obligations = ledger_new\<rparr>"

section \<open>The log of the session\<close>

definition runtime_record ::
    "'s EventStore \<Rightarrow> AgentRuntime \<Rightarrow> stamp \<Rightarrow> EventPayload \<Rightarrow> 's \<Rightarrow> (RuntimeError + unit) \<times> 's" where
  "runtime_record S rt t p s =
     sbind (smap_err Store (so_append_next S s t (runtime_session_id rt) p)) (\<lambda>_ s'. (Inr (), s'))"

definition runtime_events :: "'s EventStore \<Rightarrow> AgentRuntime \<Rightarrow> 's \<Rightarrow> RuntimeError + Event list" where
  "runtime_events S rt s = map_sum Store id (so_list S s (runtime_session_id rt))"

definition runtime_projection :: "'s EventStore \<Rightarrow> AgentRuntime \<Rightarrow> 's \<Rightarrow> RuntimeError + SessionProjection" where
  "runtime_projection S rt s =
     rbind (runtime_events S rt s) (\<lambda>events.
       rbind (map_sum Projection id (reduce events)) (\<lambda>p.
         ok_or p (RuntimeError.MissingSession (runtime_session_id rt))))"

text \<open>A step that first reads the projection and fails with its error.\<close>

definition with_projection ::
    "'s EventStore \<Rightarrow> AgentRuntime \<Rightarrow> 's \<Rightarrow> (SessionProjection \<Rightarrow> (RuntimeError + 'a) \<times> 's) \<Rightarrow> (RuntimeError + 'a) \<times> 's" where
  "with_projection S rt s f =
     (case runtime_projection S rt s of Inl e \<Rightarrow> (Inl e, s) | Inr p \<Rightarrow> f p)"

section \<open>Creating, attaching and forking\<close>

definition runtime_create ::
    "'s EventStore \<Rightarrow> PolicyEngine \<Rightarrow> uuid \<Rightarrow> stamp \<Rightarrow> 's \<Rightarrow> (RuntimeError + AgentRuntime) \<times> 's" where
  "runtime_create S policy new_id t s =
     sbind (smap_err Store (so_create_session S s new_id t))
       (\<lambda>sid s'. (Inr (runtime_with sid policy (workspace_root (engine_scope policy)) None), s'))"

definition create_with_workspace ::
    "'s EventStore \<Rightarrow> file_system \<Rightarrow> (string \<Rightarrow> bool) \<Rightarrow> PolicyEngine \<Rightarrow> string \<Rightarrow> uuid
     \<Rightarrow> stamp \<times> stamp \<Rightarrow> 's \<times> policy_heap \<Rightarrow> (RuntimeError + AgentRuntime) \<times> 's \<times> policy_heap" where
  "create_with_workspace S fs is_dir policy root new_id t c =
     (case c of (s, h) \<Rightarrow>
        (case canonicalize fs root of
           None \<Rightarrow> (Inl (InvalidWorkspace root), s, h)
         | Some canonical \<Rightarrow>
             if \<not> is_dir canonical then (Inl (InvalidWorkspace canonical), s, h)
             else (case so_create_session S s new_id (fst t) of
               (Inl e, s1) \<Rightarrow> (Inl (Store e), s1, h)
             | (Inr sid, s1) \<Rightarrow>
                 (let (scoped, h1) = policy_for_workspace policy canonical h in
                  case so_append_next S s1 (snd t) sid (Session (WorkspaceRoot canonical)) of
                    (Inl e, s2) \<Rightarrow> (Inl (Store e), s2, h1)
                  | (Inr _, s2) \<Rightarrow> (Inr (runtime_with sid scoped canonical None), s2, h1)))))"

definition attach ::
    "'s EventStore \<Rightarrow> PolicyEngine \<Rightarrow> uuid \<Rightarrow> 's \<Rightarrow> policy_heap \<Rightarrow> RuntimeError + AgentRuntime \<times> policy_heap" where
  "attach S policy sid s h =
     rbind (map_sum Store id (so_list S s sid)) (\<lambda>events.
       if events = [] then Inl (RuntimeError.MissingSession sid)
       else rbind (map_sum Projection id (reduce events)) (\<lambda>found.
         rbind (ok_or found (RuntimeError.MissingSession sid)) (\<lambda>p.
           let root = unwrap_or (projection_workspace_root p) (workspace_root (engine_scope policy));
               (scoped, h') = policy_for_workspace policy root h
           in Inr (runtime_with sid scoped root (worktree_id_from_compaction_events events), h'))))"

definition runtime_fork ::
    "'s EventStore \<Rightarrow> PolicyEngine \<Rightarrow> uuid \<Rightarrow> uuid \<Rightarrow> nat \<Rightarrow> 's \<Rightarrow> (RuntimeError + AgentRuntime) \<times> 's" where
  "runtime_fork S policy new_id source up_to s =
     sbind (smap_err Store (so_fork_session S s new_id source up_to))
       (\<lambda>sid s'. (Inr (runtime_with sid policy (workspace_root (engine_scope policy)) None), s'))"

definition restore_checkpoint ::
    "'s EventStore \<Rightarrow> PolicyEngine \<Rightarrow> uuid \<Rightarrow> uuid \<Rightarrow> 's \<Rightarrow> (RuntimeError + AgentRuntime) \<times> 's" where
  "restore_checkpoint S policy new_id checkpoint s =
     (case so_get_checkpoint S s checkpoint of
        Inl e \<Rightarrow> (Inl (Store e), s)
      | Inr c \<Rightarrow> runtime_fork S policy new_id (checkpoint_session c) (checkpoint_sequence c) s)"

section \<open>Runs\<close>

definition submit_intent_with_artifact_and_kind ::
    "'s EventStore \<Rightarrow> AgentRuntime \<Rightarrow> stamp \<Rightarrow> string \<Rightarrow> DurableArtifactRef option \<Rightarrow> UserPromptIntent
     \<Rightarrow> 's \<Rightarrow> (RuntimeError + unit) \<times> 's" where
  "submit_intent_with_artifact_and_kind S rt t text artifact intent s =
     runtime_record S rt t (Intent (intent_with_intent text intent artifact)) s"

definition submit_intent_with_artifact ::
    "'s EventStore \<Rightarrow> AgentRuntime \<Rightarrow> stamp \<Rightarrow> string \<Rightarrow> DurableArtifactRef option \<Rightarrow> 's
     \<Rightarrow> (RuntimeError + unit) \<times> 's" where
  "submit_intent_with_artifact S rt t text artifact s =
     submit_intent_with_artifact_and_kind S rt t text artifact Prompt s"

definition submit_intent ::
    "'s EventStore \<Rightarrow> AgentRuntime \<Rightarrow> stamp \<Rightarrow> string \<Rightarrow> 's \<Rightarrow> (RuntimeError + unit) \<times> 's" where
  "submit_intent S rt t text s = submit_intent_with_artifact S rt t text None s"

definition start_run ::
    "'s EventStore \<Rightarrow> AgentRuntime \<Rightarrow> uuid \<Rightarrow> stamp \<Rightarrow> 's \<Rightarrow> (RuntimeError + uuid) \<times> 's" where
  "start_run S rt run_id t s =
     with_projection S rt s (\<lambda>p.
       case active_run_id p of
         Some active \<Rightarrow> (Inl (ActiveRun active), s)
       | None \<Rightarrow> sbind (runtime_record S rt t (Run (RunEvent.Started run_id)) s) (\<lambda>_ s'. (Inr run_id, s')))"

definition submit_intent_and_start_run_with_artifact ::
    "'s EventStore \<Rightarrow> AgentRuntime \<Rightarrow> uuid \<Rightarrow> stamp \<times> stamp \<Rightarrow> string \<Rightarrow> DurableArtifactRef option \<Rightarrow> 's
     \<Rightarrow> (RuntimeError + uuid) \<times> 's" where
  "submit_intent_and_start_run_with_artifact S rt run_id t text artifact s =
     with_projection S rt s (\<lambda>p.
       case active_run_id p of
         Some active \<Rightarrow> (Inl (ActiveRun active), s)
       | None \<Rightarrow> sbind (submit_intent_with_artifact S rt (fst t) text artifact s)
                    (\<lambda>_. start_run S rt run_id (snd t)))"

definition finish_run ::
    "'s EventStore \<Rightarrow> AgentRuntime \<Rightarrow> stamp \<Rightarrow> RunEvent \<Rightarrow> 's \<Rightarrow> (RuntimeError + unit) \<times> 's" where
  "finish_run S rt t result s =
     with_projection S rt s (\<lambda>p.
       if active_run_id p \<noteq> Some (run_event_id result)
          \<or> (case result of RunEvent.Started _ \<Rightarrow> True | _ \<Rightarrow> False)
       then (Inl (InactiveRun (run_event_id result)), s)
       else runtime_record S rt t (Run result) s)"

definition status :: "'s EventStore \<Rightarrow> AgentRuntime \<Rightarrow> 's \<Rightarrow> RuntimeError + RuntimeStatus" where
  "status S rt s =
     rbind (runtime_projection S rt s) (\<lambda>p. Inr (
       if pending_approvals p \<noteq> Map.empty then RuntimeStatus.AwaitingApproval
       else if active_run_id p \<noteq> None then Running
       else case outcome p of
         Some (RunEvent.Completed _) \<Rightarrow> RuntimeStatus.Completed
       | Some (RunEvent.Failed _ _) \<Rightarrow> RuntimeStatus.Failed
       | Some (RunEvent.Cancelled _) \<Rightarrow> RuntimeStatus.Cancelled
       | Some (RunEvent.InterruptedUnknown _) \<Rightarrow> RuntimeStatus.InterruptedUnknown
       | Some (RunEvent.Started _) \<Rightarrow> Running
       | None \<Rightarrow> Idle))"

definition runtime_cancel ::
    "'s EventStore \<Rightarrow> AgentRuntime \<Rightarrow> stamp \<Rightarrow> 's \<Rightarrow> (RuntimeError + RuntimeStatus) \<times> 's" where
  "runtime_cancel S rt t s =
     with_projection S rt s (\<lambda>p.
       case active_run_id p of
         None \<Rightarrow> (status S rt s, s)
       | Some run_id \<Rightarrow>
           sbind (finish_run S rt t (RunEvent.Cancelled run_id) s) (\<lambda>_ s'. (status S rt s', s')))"

section \<open>Agent output\<close>

text \<open>\<open>default_store\<close> is what opening the default artifact root gives.\<close>

definition record_agent_chunk_with_store ::
    "'s EventStore \<Rightarrow> AgentRuntime \<Rightarrow> artifact_store option \<Rightarrow> stamp \<Rightarrow> uuid \<Rightarrow> nat \<Rightarrow> string
     \<Rightarrow> artifact_store option \<Rightarrow> 's \<Rightarrow> (RuntimeError + bool) \<times> 's" where
  "record_agent_chunk_with_store S rt default_store t run_id chunk text artifact_store s =
     with_projection S rt s (\<lambda>p.
       if active_run_id p \<noteq> Some run_id then (Inl (InactiveRun run_id), s)
       else if is_some_and (agent_chunk_ids p run_id) (\<lambda>last_chunk. chunk \<le> last_chunk) then (Inr False, s)
       else let owned = (if artifact_store = None \<and> MAX_AGENT_CHUNK_EVENT_BYTES < length text
                         then default_store else None);
                store = (if artifact_store = None then owned else artifact_store);
                (bounded, artifact) = bound_agent_chunk_text store text
            in sbind (runtime_record S rt t (EventPayload.Agent (Chunk run_id chunk bounded artifact)) s)
                 (\<lambda>_ s'. (Inr True, s')))"

definition record_agent_chunk ::
    "'s EventStore \<Rightarrow> AgentRuntime \<Rightarrow> artifact_store option \<Rightarrow> stamp \<Rightarrow> uuid \<Rightarrow> nat \<Rightarrow> string
     \<Rightarrow> 's \<Rightarrow> (RuntimeError + bool) \<times> 's" where
  "record_agent_chunk S rt default_store t run_id chunk text s =
     record_agent_chunk_with_store S rt default_store t run_id chunk text None s"

definition record_agent_final ::
    "'s EventStore \<Rightarrow> AgentRuntime \<Rightarrow> stamp \<Rightarrow> uuid \<Rightarrow> string \<Rightarrow> 's \<Rightarrow> (RuntimeError + unit) \<times> 's" where
  "record_agent_final S rt t run_id text s =
     with_projection S rt s (\<lambda>p.
       if active_run_id p \<noteq> Some run_id then (Inl (InactiveRun run_id), s)
       else let bounded = (if agent_chunk_ids p run_id \<noteq> None \<and> MAX_AGENT_CHUNK_EVENT_BYTES < length text
                           then truncate_agent_chunk_preview text else text)
            in runtime_record S rt t (EventPayload.Agent (Final run_id bounded)) s)"

definition record_agent_reasoning_summary ::
    "'s EventStore \<Rightarrow> AgentRuntime \<Rightarrow> stamp \<Rightarrow> uuid \<Rightarrow> string \<Rightarrow> 's \<Rightarrow> (RuntimeError + bool) \<times> 's" where
  "record_agent_reasoning_summary S rt t run_id text s =
     with_projection S rt s (\<lambda>p.
       if active_run_id p \<noteq> Some run_id then (Inl (InactiveRun run_id), s)
       else let trimmed = trim text in
            if trimmed = [] then (Inr False, s)
            else let bounded = (if 2048 < char_count trimmed
                                then take_chars 2048 trimmed @ ellipsis else trimmed)
                 in sbind (runtime_record S rt t (EventPayload.Agent (ReasoningSummary run_id bounded)) s)
                      (\<lambda>_ s'. (Inr True, s')))"

section \<open>Admission and approvals\<close>

definition runtime_execution_mode :: "'s EventStore \<Rightarrow> AgentRuntime \<Rightarrow> 's \<Rightarrow> RuntimeError + ExecutionMode" where
  "runtime_execution_mode S rt s = rbind (runtime_projection S rt s) (\<lambda>p. Inr (execution_mode p))"

definition session_sandbox :: "AgentRuntime \<Rightarrow> Sandbox" where
  "session_sandbox rt =
     Provisioned ((engine_scope (runtime_policy rt))\<lparr>workspace_root := runtime_workspace_root rt\<rparr>)"

definition effect_seam_with_sandbox ::
    "'s EventStore \<Rightarrow> AgentRuntime \<Rightarrow> Sandbox \<Rightarrow> 's \<Rightarrow> RuntimeError + EffectSeam" where
  "effect_seam_with_sandbox S rt sandbox s =
     rbind (runtime_execution_mode S rt s) (\<lambda>mode.
       Inr (with_admission (runtime_policy rt) sandbox mode classify))"

definition effect_seam :: "'s EventStore \<Rightarrow> AgentRuntime \<Rightarrow> 's \<Rightarrow> RuntimeError + EffectSeam" where
  "effect_seam S rt s =
     rbind (runtime_execution_mode S rt s) (\<lambda>mode.
       Inr (with_admission (runtime_policy rt) (session_sandbox rt) mode classify))"

text \<open>
  \<open>action_admission\<close>. Every kind of action has a normalized effect, so the \<open>ok_or_else\<close> branch,
  whose text is left out, is not taken.
\<close>

definition action_admission ::
    "'u seam_context \<Rightarrow> 's EventStore \<Rightarrow> AgentRuntime \<Rightarrow> Action \<Rightarrow> u32 option \<Rightarrow> 's
     \<Rightarrow> RuntimeError + EffectDecision" where
  "action_admission C S rt action capability_version s =
     rbind (ok_or (normalized_effect_from_action action capability_version) (RuntimeError.Denied []))
       (\<lambda>effect. rbind (effect_seam S rt s) (\<lambda>seam. Inr (decide C seam effect)))"

definition request_action_with_capability_version ::
    "'u seam_context \<Rightarrow> 's EventStore \<Rightarrow> AgentRuntime \<Rightarrow> stamp \<Rightarrow> uuid \<Rightarrow> Action \<Rightarrow> u32 option \<Rightarrow> 's
     \<Rightarrow> (RuntimeError + RuntimeStatus) \<times> 's" where
  "request_action_with_capability_version C S rt t new_id action capability_version s =
     (case action_admission C S rt action capability_version s of
        Inl e \<Rightarrow> (Inl e, s)
      | Inr EffectDecision.Allow \<Rightarrow>
          sbind (runtime_record S rt t (Notice PolicyAllowed) s) (\<lambda>_ s'. (Inr Idle, s'))
      | Inr (EffectDecision.Deny reason) \<Rightarrow>
          sbind (runtime_record S rt t (Notice (PolicyDenied reason)) s)
            (\<lambda>_ s'. (Inl (RuntimeError.Denied reason), s'))
      | Inr (EffectDecision.NeedsApproval reason) \<Rightarrow>
          with_projection S rt s (\<lambda>p.
            case latest_intent_revision p of
              None \<Rightarrow> (Inl MissingIntentRevision, s)
            | Some intent_revision \<Rightarrow>
                sbind (runtime_record S rt t
                         (Approval (Requested (pending_with_version (context_externals C) new_id action
                            reason intent_revision capability_version))) s)
                  (\<lambda>_ s'. (Inr RuntimeStatus.AwaitingApproval, s'))))"

definition runtime_request_action ::
    "'u seam_context \<Rightarrow> 's EventStore \<Rightarrow> AgentRuntime \<Rightarrow> stamp \<Rightarrow> uuid \<Rightarrow> Action \<Rightarrow> 's
     \<Rightarrow> (RuntimeError + RuntimeStatus) \<times> 's" where
  "runtime_request_action C S rt t new_id action s =
     request_action_with_capability_version C S rt t new_id action None s"

definition resolve_approval ::
    "'s EventStore \<Rightarrow> AgentRuntime \<Rightarrow> stamp \<Rightarrow> ApprovalResolution \<Rightarrow> 's \<Rightarrow> (RuntimeError + unit) \<times> 's" where
  "resolve_approval S rt t resolution s =
     (let i = resolution_id resolution in
      with_projection S rt s (\<lambda>p.
        case pending_approvals p i of
          None \<Rightarrow> (Inl (MissingApproval i), s)
        | Some approval \<Rightarrow>
            if request_state approval \<noteq> Pending then (Inl (ApprovalNotPending i), s)
            else if resolution_resolver resolution \<noteq> ApprovalResolver.User
            then (Inl (ApprovalResolverNotUser i), s)
            else with_projection S rt s (\<lambda>q.
              if resolution_fingerprint resolution \<noteq> request_fingerprint approval
                 \<or> resolution_intent_revision resolution \<noteq> request_intent_revision approval
                 \<or> latest_intent_revision q \<noteq> Some (request_intent_revision approval)
              then sbind (runtime_record S rt t
                           (Approval (Resolved (approval\<lparr>request_state := ApprovalState.Rejected\<rparr>))) s)
                     (\<lambda>_ s'. (Inl (StaleApproval i), s'))
              else runtime_record S rt t
                     (Approval (Resolved (approval\<lparr>request_state :=
                        (if resolution_accepted resolution then Approved
                         else ApprovalState.Rejected)\<rparr>))) s)))"

definition store_deferred_effect ::
    "DeferredEffect \<Rightarrow> AgentRuntime \<Rightarrow> (RuntimeError + unit) \<times> AgentRuntime" where
  "store_deferred_effect deferred rt =
     (if runtime_deferred_poisoned rt
      then (Inl (RuntimeError.Denied ''deferred effect storage lock poisoned''), rt)
      else (Inr (), rt\<lparr>runtime_deferred := (runtime_deferred rt)
                          (request_id (deferred_approval deferred) \<mapsto> deferred)\<rparr>))"

definition take_deferred_effect ::
    "uuid \<Rightarrow> AgentRuntime \<Rightarrow> (RuntimeError + DeferredEffect option) \<times> AgentRuntime" where
  "take_deferred_effect approval_id rt =
     (if runtime_deferred_poisoned rt
      then (Inl (RuntimeError.Denied ''deferred effect storage lock poisoned''), rt)
      else (Inr (runtime_deferred rt approval_id),
            rt\<lparr>runtime_deferred := (runtime_deferred rt)(approval_id := None)\<rparr>))"

definition pending_approval ::
    "'s EventStore \<Rightarrow> AgentRuntime \<Rightarrow> uuid \<Rightarrow> 's \<Rightarrow> RuntimeError + ApprovalRequest option" where
  "pending_approval S rt i s = rbind (runtime_projection S rt s) (\<lambda>p. Inr (pending_approvals p i))"

definition resolved_decision :: "uuid \<Rightarrow> Event \<Rightarrow> bool option" where
  "resolved_decision i e =
     (case payload e of
        Approval (Resolved r) \<Rightarrow> if request_id r = i then Some (request_state r = Approved) else None
      | _ \<Rightarrow> None)"

definition approval_user_decision ::
    "'s EventStore \<Rightarrow> AgentRuntime \<Rightarrow> uuid \<Rightarrow> 's \<Rightarrow> RuntimeError + bool option" where
  "approval_user_decision S rt i s =
     rbind (runtime_events S rt s) (\<lambda>events. Inr (find_map (resolved_decision i) (rev events)))"

text \<open>
  \<open>wait_approval_resolution\<close> as a function of what it meets: in each round the state of the store
  when it looks, and the event that ends its sleep. \<open>None\<close> is a wait that goes on.
\<close>

datatype wake = CancelFired | Timer | Notified | Lagged | Closed

fun wait_approval_resolution ::
    "'s EventStore \<Rightarrow> AgentRuntime \<Rightarrow> uuid \<Rightarrow> ('s \<times> wake) list \<Rightarrow> (RuntimeError + bool) option" where
  "wait_approval_resolution S rt i [] = None"
| "wait_approval_resolution S rt i ((s, wake) # rounds) =
     (case approval_user_decision S rt i s of
        Inl e \<Rightarrow> Some (Inl e)
      | Inr (Some accepted) \<Rightarrow> Some (Inr accepted)
      | Inr None \<Rightarrow>
          (case pending_approval S rt i s of
             Inl e \<Rightarrow> Some (Inl e)
           | Inr None \<Rightarrow> Some (Inl (MissingApproval i))
           | Inr (Some _) \<Rightarrow>
               (case wake of
                  CancelFired \<Rightarrow> Some (Inl (RuntimeError.Denied ''approval wait cancelled''))
                | Closed \<Rightarrow>
                    Some (Inl (RuntimeError.Denied ''event store closed while awaiting approval''))
                | _ \<Rightarrow> wait_approval_resolution S rt i rounds)))"

fun latest_pending_loop ::
    "'s EventStore \<Rightarrow> AgentRuntime \<Rightarrow> Action \<Rightarrow> 's \<Rightarrow> Event list \<Rightarrow> RuntimeError + ApprovalRequest option" where
  "latest_pending_loop S rt action s [] = Inr None"
| "latest_pending_loop S rt action s (e # es) =
     (case payload e of
        Approval (Requested r) \<Rightarrow>
          if request_action r = action
          then (case pending_approval S rt (request_id r) s of
                  Inl err \<Rightarrow> Inl err
                | Inr (Some _) \<Rightarrow> Inr (Some r)
                | Inr None \<Rightarrow> latest_pending_loop S rt action s es)
          else latest_pending_loop S rt action s es
      | _ \<Rightarrow> latest_pending_loop S rt action s es)"

definition latest_pending_approval_for ::
    "'s EventStore \<Rightarrow> AgentRuntime \<Rightarrow> Action \<Rightarrow> 's \<Rightarrow> RuntimeError + ApprovalRequest option" where
  "latest_pending_approval_for S rt action s =
     rbind (runtime_events S rt s) (\<lambda>events. latest_pending_loop S rt action s (rev events))"

definition runtime_active_run_id :: "'s EventStore \<Rightarrow> AgentRuntime \<Rightarrow> 's \<Rightarrow> RuntimeError + uuid option" where
  "runtime_active_run_id S rt s = rbind (runtime_projection S rt s) (\<lambda>p. Inr (active_run_id p))"

definition record_deferred_tool ::
    "'s EventStore \<Rightarrow> AgentRuntime \<Rightarrow> stamp \<Rightarrow> uuid \<Rightarrow> string \<Rightarrow> string \<Rightarrow> json \<Rightarrow> 's
     \<Rightarrow> (RuntimeError + unit) \<times> 's" where
  "record_deferred_tool S rt t approval_id call name arguments s =
     runtime_record S rt t (Tool (Deferred approval_id call name arguments)) s"

definition deferred_tool ::
    "'s EventStore \<Rightarrow> AgentRuntime \<Rightarrow> uuid \<Rightarrow> 's \<Rightarrow> RuntimeError + (string \<times> string \<times> json) option" where
  "deferred_tool S rt approval_id s =
     rbind (runtime_projection S rt s) (\<lambda>p. Inr (deferred_tools p approval_id))"

section \<open>Tool and child events\<close>

definition record_tool_started ::
    "'s EventStore \<Rightarrow> AgentRuntime \<Rightarrow> stamp \<Rightarrow> string \<Rightarrow> string option \<Rightarrow> 's \<Rightarrow> (RuntimeError + unit) \<times> 's" where
  "record_tool_started S rt t name call s = runtime_record S rt t (Tool (ToolEvent.Started name call)) s"

definition record_tool_finished ::
    "'s EventStore \<Rightarrow> AgentRuntime \<Rightarrow> stamp \<Rightarrow> string \<Rightarrow> string \<Rightarrow> string option \<Rightarrow> 's
     \<Rightarrow> (RuntimeError + unit) \<times> 's" where
  "record_tool_finished S rt t name summary call s =
     runtime_record S rt t (Tool (ToolEvent.Finished name summary call)) s"

definition TOOL_OUTPUT_PREVIEW_CHARS :: nat where
  "TOOL_OUTPUT_PREVIEW_CHARS = 256"

definition record_tool_output ::
    "'s EventStore \<Rightarrow> AgentRuntime \<Rightarrow> stamp \<Rightarrow> string \<Rightarrow> string \<Rightarrow> string \<Rightarrow> 's
     \<Rightarrow> (RuntimeError + unit) \<times> 's" where
  "record_tool_output S rt t call name preview s =
     (let bounded = take_chars TOOL_OUTPUT_PREVIEW_CHARS preview;
          shown = (if TOOL_OUTPUT_PREVIEW_CHARS < char_count preview then bounded @ ellipsis else bounded)
      in runtime_record S rt t (Tool (ToolEvent.Output call name shown)) s)"

definition emit_parent_child_event ::
    "'s EventStore \<Rightarrow> (string \<Rightarrow> uuid option) \<Rightarrow> stamp \<Rightarrow> string \<Rightarrow> ChildEvent \<Rightarrow> 's
     \<Rightarrow> (RuntimeError + unit) \<times> 's" where
  "emit_parent_child_event S parse_uuid t parent event s =
     (case parse_uuid (trim parent) of
        None \<Rightarrow> (Inr (), s)
      | Some parent_id \<Rightarrow>
          (case so_append_next S s t parent_id (Child event) of
             (Inr _, s') \<Rightarrow> (Inr (), s')
           | (Inl (StoreError.MissingSession _), s') \<Rightarrow> (Inr (), s')
           | (Inl e, s') \<Rightarrow> (Inl (Store e), s')))"

definition record_child_started ::
    "'s EventStore \<Rightarrow> (uuid \<Rightarrow> string) \<Rightarrow> AgentRuntime \<Rightarrow> stamp \<Rightarrow> string \<Rightarrow> string \<Rightarrow> 's
     \<Rightarrow> (RuntimeError + unit) \<times> 's" where
  "record_child_started S uuid_text rt t child role s =
     runtime_record S rt t (Child (ChildEvent.Started child (uuid_text (runtime_session_id rt)) role)) s"

definition record_child_status_changed ::
    "'s EventStore \<Rightarrow> AgentRuntime \<Rightarrow> stamp \<Rightarrow> string \<Rightarrow> string \<Rightarrow> string option \<Rightarrow> 's
     \<Rightarrow> (RuntimeError + unit) \<times> 's" where
  "record_child_status_changed S rt t child st current s =
     runtime_record S rt t (Child (StatusChanged child st current)) s"

definition record_child_progress ::
    "'s EventStore \<Rightarrow> AgentRuntime \<Rightarrow> stamp \<Rightarrow> string \<Rightarrow> u8 option \<Rightarrow> string \<Rightarrow> 's
     \<Rightarrow> (RuntimeError + unit) \<times> 's" where
  "record_child_progress S rt t child percent summary s =
     runtime_record S rt t (Child (Progress child percent (bound_activity_preview summary))) s"

definition record_child_action ::
    "'s EventStore \<Rightarrow> AgentRuntime \<Rightarrow> stamp \<Rightarrow> string \<Rightarrow> string \<Rightarrow> string \<Rightarrow> 's
     \<Rightarrow> (RuntimeError + unit) \<times> 's" where
  "record_child_action S rt t child name preview s =
     runtime_record S rt t (Child (ChildEvent.Action child name (bound_activity_preview preview))) s"

definition record_child_finished ::
    "'s EventStore \<Rightarrow> AgentRuntime \<Rightarrow> stamp \<Rightarrow> string \<Rightarrow> string \<Rightarrow> string option \<Rightarrow> string option \<Rightarrow> 's
     \<Rightarrow> (RuntimeError + unit) \<times> 's" where
  "record_child_finished S rt t child st summary err s =
     runtime_record S rt t (Child (ChildEvent.Finished child st summary err)) s"

record ChildMidRunReporter =
  reporter_parent :: string
  reporter_child :: string
  reporter_progress_emitted :: nat
  reporter_last_progress :: "string option"
  reporter_action_emitted :: nat

definition reporter_new :: "string \<Rightarrow> string \<Rightarrow> ChildMidRunReporter" where
  "reporter_new parent child =
     \<lparr>reporter_parent = parent, reporter_child = child, reporter_progress_emitted = 0,
      reporter_last_progress = None, reporter_action_emitted = 0\<rparr>"

text \<open>
  \<open>progress\<close> and \<open>action\<close>; a failed append is dropped. A call that emits nothing leaves the last
  progress as \<open>coalesce_child_progress\<close> leaves it, and keeps the count.
\<close>

definition reporter_progress ::
    "'s EventStore \<Rightarrow> (string \<Rightarrow> uuid option) \<Rightarrow> stamp \<Rightarrow> u8 option \<Rightarrow> string
     \<Rightarrow> ChildMidRunReporter \<Rightarrow> 's \<Rightarrow> ChildMidRunReporter \<times> 's" where
  "reporter_progress S parse_uuid t percent summary r s =
     (case coalesce_child_progress (reporter_last_progress r, reporter_progress_emitted r) summary of
        (None, last_progress, _) \<Rightarrow> (r\<lparr>reporter_last_progress := last_progress\<rparr>, s)
      | (Some bounded, last_progress, emitted) \<Rightarrow>
          (r\<lparr>reporter_last_progress := last_progress, reporter_progress_emitted := emitted\<rparr>,
           snd (emit_parent_child_event S parse_uuid t (reporter_parent r)
                  (Progress (reporter_child r) percent bounded) s)))"

definition reporter_action ::
    "'s EventStore \<Rightarrow> (string \<Rightarrow> uuid option) \<Rightarrow> stamp \<Rightarrow> string \<Rightarrow> string
     \<Rightarrow> ChildMidRunReporter \<Rightarrow> 's \<Rightarrow> ChildMidRunReporter \<times> 's" where
  "reporter_action S parse_uuid t name preview r s =
     (case coalesce_child_action (reporter_action_emitted r) preview of
        (None, _) \<Rightarrow> (r, s)
      | (Some bounded, emitted) \<Rightarrow>
          (r\<lparr>reporter_action_emitted := emitted\<rparr>,
           snd (emit_parent_child_event S parse_uuid t (reporter_parent r)
                  (ChildEvent.Action (reporter_child r) name bounded) s)))"

section \<open>Budget and obligations\<close>

text \<open>The budget rows of a store: the in-memory store keeps none.\<close>

record 's BudgetStore =
  bs_get :: "'s \<Rightarrow> uuid \<Rightarrow> StoreError + BudgetState"
  bs_update :: "'s \<Rightarrow> uuid \<Rightarrow> BudgetState \<Rightarrow> (StoreError + unit) \<times> 's"

definition memory_get_budget_state :: "nat \<Rightarrow> MemoryEventStore \<Rightarrow> uuid \<Rightarrow> StoreError + BudgetState" where
  "memory_get_budget_state now st sid = Inr (budget_state_new now)"

definition memory_update_budget_state ::
    "MemoryEventStore \<Rightarrow> uuid \<Rightarrow> BudgetState \<Rightarrow> (StoreError + unit) \<times> MemoryEventStore" where
  "memory_update_budget_state st sid state = (Inr (), st)"

definition set_budget ::
    "'s BudgetStore \<Rightarrow> nat \<Rightarrow> BudgetConfig \<Rightarrow> 's \<Rightarrow> AgentRuntime \<Rightarrow> (RuntimeError + unit) \<times> AgentRuntime" where
  "set_budget B now config s rt =
     (case bs_get B s (runtime_session_id rt) of
        Inl e \<Rightarrow> (Inl (Store e), rt)
      | Inr state \<Rightarrow>
          (Inr (), rt\<lparr>runtime_budget := Some ((budget_checker_new now config)\<lparr>checker_state := state\<rparr>)\<rparr>))"

definition check_budget :: "nat \<Rightarrow> u64 \<Rightarrow> AgentRuntime \<Rightarrow> BudgetError + unit" where
  "check_budget now tokens rt =
     (case runtime_budget rt of Some c \<Rightarrow> check_all now c tokens | None \<Rightarrow> Inr ())"

definition compaction_needed :: "AgentRuntime \<Rightarrow> (u64 \<times> u64) option" where
  "compaction_needed rt =
     Option.bind (runtime_budget rt) (\<lambda>c.
       case check_compaction c of
         Inl (BudgetError.CompactionRequired threshold used) \<Rightarrow> Some (threshold, used)
       | _ \<Rightarrow> None)"

definition runtime_record_turn_with_usage ::
    "'s BudgetStore \<Rightarrow> u64 \<Rightarrow> bool \<Rightarrow> AgentRuntime \<Rightarrow> 's \<Rightarrow> (RuntimeError + unit) \<times> AgentRuntime \<times> 's" where
  "runtime_record_turn_with_usage B tokens measured rt s =
     (case runtime_budget rt of
        None \<Rightarrow> (Inr (), rt, s)
      | Some c \<Rightarrow>
          (let c' = record_turn_with_usage tokens measured c;
               rt' = rt\<lparr>runtime_budget := Some c'\<rparr> in
           case bs_update B s (runtime_session_id rt) (checker_state c') of
             (Inl e, s') \<Rightarrow> (Inl (Store e), rt', s')
           | (Inr _, s') \<Rightarrow> (Inr (), rt', s')))"

definition runtime_record_compaction ::
    "'s BudgetStore \<Rightarrow> u64 \<Rightarrow> AgentRuntime \<Rightarrow> 's \<Rightarrow> (RuntimeError + unit) \<times> AgentRuntime \<times> 's" where
  "runtime_record_compaction B compacted_to rt s =
     (case runtime_budget rt of
        None \<Rightarrow> (Inr (), rt, s)
      | Some c \<Rightarrow>
          (let c' = record_compaction compacted_to c;
               rt' = rt\<lparr>runtime_budget := Some c'\<rparr> in
           case bs_update B s (runtime_session_id rt) (checker_state c') of
             (Inl e, s') \<Rightarrow> (Inl (Store e), rt', s')
           | (Inr _, s') \<Rightarrow> (Inr (), rt', s')))"

definition evaluate_completion_gate ::
    "'s EventStore \<Rightarrow> (uuid \<Rightarrow> string) \<Rightarrow> AgentRuntime \<Rightarrow> uuid \<Rightarrow> 's \<Rightarrow> RuntimeError + CompletionVerdict" where
  "evaluate_completion_gate S uuid_text rt run_id s =
     rbind (runtime_events S rt s) (\<lambda>events.
       Inr (evaluate_run_with_obligations uuid_text events run_id (runtime_obligations rt)))"

definition register_obligation ::
    "string \<Rightarrow> string \<Rightarrow> string \<Rightarrow> AgentRuntime \<Rightarrow> (ObligationLedgerError + unit) \<times> AgentRuntime" where
  "register_obligation i kind summary rt =
     (let (r, items) = register i kind summary (runtime_obligations rt)
      in (map_sum id (\<lambda>_. ()) r, rt\<lparr>runtime_obligations := items\<rparr>))"

definition fulfill_obligation :: "string \<Rightarrow> AgentRuntime \<Rightarrow> (ObligationLedgerError + unit) \<times> AgentRuntime" where
  "fulfill_obligation i rt =
     (let (r, items) = fulfill i (runtime_obligations rt)
      in (map_sum id (\<lambda>_. ()) r, rt\<lparr>runtime_obligations := items\<rparr>))"

section \<open>What a session log may hold\<close>

text \<open>
  The specification of a session, as a state machine over its projection: which payload may follow
  in a given state. Runs do not overlap and only the active run ends, chunks of a run have growing
  ids, output belongs to the active run, and an approval is resolved while it is pending, with its
  request unchanged, and approved only for the latest intent.
\<close>

definition allowed :: "SessionProjection \<Rightarrow> EventPayload \<Rightarrow> bool" where
  "allowed p pay =
     (case pay of
        Run (RunEvent.Started _) \<Rightarrow> active_run_id p = None
      | Run ended \<Rightarrow> active_run_id p = Some (run_event_id ended)
      | EventPayload.Agent (Chunk run_id chunk _ _) \<Rightarrow>
          active_run_id p = Some run_id
          \<and> (case agent_chunk_ids p run_id of None \<Rightarrow> True | Some last_chunk \<Rightarrow> last_chunk < chunk)
      | EventPayload.Agent (Final run_id _) \<Rightarrow> active_run_id p = Some run_id
      | EventPayload.Agent (ReasoningSummary run_id _) \<Rightarrow> active_run_id p = Some run_id
      | Approval (Requested r) \<Rightarrow>
          request_state r = Pending \<and> latest_intent_revision p = Some (request_intent_revision r)
      | Approval (Resolved r) \<Rightarrow>
          (\<exists>q. pending_approvals p (request_id r) = Some q \<and> request_state q = Pending
             \<and> r = q\<lparr>request_state := request_state r\<rparr>
             \<and> (request_state r = Approved \<and> latest_intent_revision p = Some (request_intent_revision q)
                \<or> request_state r = ApprovalState.Rejected))
      | _ \<Rightarrow> True)"

inductive session_log :: "uuid \<Rightarrow> Event list \<Rightarrow> bool" for sid where
  Nil: "session_log sid []"
| snoc: "session_log sid (es @ [e])"
    if "session_log sid es" "allowed (fold project_event es (projection_new sid)) (payload e)"

definition session_state :: "uuid \<Rightarrow> MemoryEventStore \<Rightarrow> SessionProjection" where
  "session_state sid st = fold project_event (visible st sid) (projection_new sid)"

definition session_inv :: "uuid \<Rightarrow> MemoryEventStore \<Rightarrow> bool" where
  "session_inv sid st \<longleftrightarrow>
     store_wf st \<and> schema_current st \<and> parent_of (ms_sessions st) sid = None
     \<and> session_log sid (visible st sid)"

lemma root_visible:
  assumes "store_wf st" "parent_of (ms_sessions st) sid = None"
  shows "visible st sid = own st sid"
  using visible_split [OF store_wf_acyclic [OF assms(1)], of sid]
    inherited_unfold [OF store_wf_acyclic [OF assms(1)], of sid] assms(2)
  by simp

lemma root_reduce:
  assumes "store_wf st" "schema_current st" "parent_of (ms_sessions st) sid = None"
  shows "reduce (visible st sid) =
    (if visible st sid = [] then Inr None else Inr (Some (session_state sid st)))"
proof (cases "visible st sid")
  case (Cons first rest)
  have ids: "session_id e = sid" if "e \<in> set (visible st sid)" for e
    using that by (simp add: root_visible [OF assms(1,3)] own_def)
  have "List.find (\<lambda>e. session_id e \<noteq> session_id first) (visible st sid) = None"
    using ids Cons by (auto simp: find_None_iff)
  then show ?thesis
    using reduce_visible [OF assms(1,2), of sid] ids [of first] Cons by (simp add: session_state_def)
qed (simp add: reduce_def)

lemma session_projection:
  assumes "session_inv (runtime_session_id rt) st" "runtime_projection (memory_ops err) rt st = Inr p"
  shows "p = session_state (runtime_session_id rt) st" "store_healthy st"
proof -
  let ?sid = "runtime_session_id rt"
  have inv: "store_wf st" "schema_current st" "parent_of (ms_sessions st) ?sid = None"
    using assms(1) by (simp_all add: session_inv_def)
  show "p = session_state ?sid st" "store_healthy st"
    using assms(2) root_reduce [OF inv]
    by (auto simp: runtime_projection_def runtime_events_def rbind_eq_Inr_iff ok_or_eq_Inr_iff
        memory_list_visible [OF inv(1)] split: if_splits)
qed

lemma session_inv_append:
  assumes "session_inv sid st" "memory_append_next st t sid' pay = (r, st')"
    and "sid' = sid \<Longrightarrow> allowed (session_state sid st) pay"
  shows "session_inv sid st'"
proof (cases r)
  case (Inl e)
  then have "st' = st" using memory_append_next_wf(2) [of st t sid' pay r st'] assms by (simp add: session_inv_def)
  then show ?thesis using assms(1) by simp
next
  case (Inr e)
  have wf: "store_wf st" using assms(1) by (simp add: session_inv_def)
  note facts = memory_append_next_wf [OF wf assms(2), unfolded Inr sum.case]
  have v: "visible st' sid = visible st sid @ (if sid = sid' then [e] else [])" and pe: "payload e = pay"
    and m: "ms_sessions st' = ms_sessions st"
    using facts(2) by auto
  have "schema_current st'"
    using schema_current_step [OF store_step.append [OF assms(2)]] assms(1) by (simp add: session_inv_def)
  moreover have "session_log sid (visible st' sid)"
    using assms(1,3) v pe by (auto simp: session_inv_def session_state_def intro: session_log.snoc)
  ultimately show ?thesis using assms(1) facts(1) m by (simp add: session_inv_def)
qed

lemma runtime_record_inv:
  assumes "session_inv (runtime_session_id rt) st" "runtime_record (memory_ops err) rt t pay st = (r, st')"
    and "allowed (session_state (runtime_session_id rt) st) pay"
  shows "session_inv (runtime_session_id rt) st'"
proof -
  obtain x where "memory_append_next st t (runtime_session_id rt) pay = (x, st')"
    using assms(2)
    by (cases "memory_append_next st t (runtime_session_id rt) pay";
        cases "fst (memory_append_next st t (runtime_session_id rt) pay)") (auto simp: runtime_record_def)
  then show ?thesis using session_inv_append [OF assms(1)] assms(3) by blast
qed

text \<open>Case analysis on a guarded step, and on what follows a recorded event.\<close>

lemma with_projection_inv:
  assumes "session_inv (runtime_session_id rt) st" "with_projection (memory_ops err) rt st f = (r, st')"
    and "f (session_state (runtime_session_id rt) st) = (r, st') \<Longrightarrow> session_inv (runtime_session_id rt) st'"
  shows "session_inv (runtime_session_id rt) st'"
  using assms session_projection(1) [OF assms(1), of err]
  by (cases "runtime_projection (memory_ops err) rt st") (auto simp: with_projection_def)

lemma record_then_inv:
  assumes "session_inv (runtime_session_id rt) st"
    and "sbind (runtime_record (memory_ops err) rt t pay st) (\<lambda>_ s'. (x, s')) = (r, st')"
    and "allowed (session_state (runtime_session_id rt) st) pay"
  shows "session_inv (runtime_session_id rt) st'"
proof -
  obtain y s1 where run: "runtime_record (memory_ops err) rt t pay st = (y, s1)" by (rule prod.exhaust)
  then have "st' = s1" using assms(2) by (cases y) auto
  then show ?thesis using runtime_record_inv [OF assms(1) run assms(3)] by simp
qed

lemma start_run_inv:
  assumes "session_inv (runtime_session_id rt) st" "start_run (memory_ops err) rt run_id t st = (r, st')"
  shows "session_inv (runtime_session_id rt) st'"
  using assms(2) unfolding start_run_def
  by (rule with_projection_inv [OF assms(1)])
    (use assms(1) in \<open>auto split: option.splits intro: record_then_inv simp: allowed_def\<close>)

lemma finish_run_inv:
  assumes "session_inv (runtime_session_id rt) st" "finish_run (memory_ops err) rt t e st = (r, st')"
  shows "session_inv (runtime_session_id rt) st'"
  using assms(2) unfolding finish_run_def
  by (rule with_projection_inv [OF assms(1)])
    (use assms(1) in \<open>auto split: if_splits RunEvent.splits intro: runtime_record_inv simp: allowed_def\<close>)

lemma submit_intent_inv:
  assumes "session_inv (runtime_session_id rt) st"
    and "submit_intent_with_artifact_and_kind (memory_ops err) rt t text artifact kind st = (r, st')"
  shows "session_inv (runtime_session_id rt) st'"
  using runtime_record_inv [OF assms(1) assms(2) [unfolded submit_intent_with_artifact_and_kind_def]]
  by (simp add: allowed_def)

lemma submit_and_start_inv:
  assumes "session_inv (runtime_session_id rt) st"
    and "submit_intent_and_start_run_with_artifact (memory_ops err) rt run_id t text artifact st = (r, st')"
  shows "session_inv (runtime_session_id rt) st'"
  using assms(2) unfolding submit_intent_and_start_run_with_artifact_def
proof (rule with_projection_inv [OF assms(1)])
  let ?sub = "submit_intent_with_artifact (memory_ops err) rt (fst t) text artifact st"
  obtain y s1 where y: "?sub = (y, s1)" by (rule prod.exhaust)
  have s1: "session_inv (runtime_session_id rt) s1"
    using submit_intent_inv [OF assms(1)] y by (simp add: submit_intent_with_artifact_def)
  assume "(case active_run_id (session_state (runtime_session_id rt) st) of
      Some active \<Rightarrow> (Inl (ActiveRun active), st)
    | None \<Rightarrow> sbind ?sub (\<lambda>_. start_run (memory_ops err) rt run_id (snd t))) = (r, st')"
  then show "session_inv (runtime_session_id rt) st'"
    using assms(1) s1 start_run_inv [OF s1] unfolding y
    by (cases y) (auto split: option.splits)
qed

lemma cancel_inv:
  assumes "session_inv (runtime_session_id rt) st" "runtime_cancel (memory_ops err) rt t st = (r, st')"
  shows "session_inv (runtime_session_id rt) st'"
  using assms(2) unfolding runtime_cancel_def
proof (rule with_projection_inv [OF assms(1)])
  let ?f = "\<lambda>run_id. finish_run (memory_ops err) rt t (RunEvent.Cancelled run_id) st"
  assume a: "(case active_run_id (session_state (runtime_session_id rt) st) of
      None \<Rightarrow> (status (memory_ops err) rt st, st)
    | Some run_id \<Rightarrow> sbind (?f run_id) (\<lambda>_ s'. (status (memory_ops err) rt s', s'))) = (r, st')"
  show "session_inv (runtime_session_id rt) st'"
  proof (cases "active_run_id (session_state (runtime_session_id rt) st)")
    case None
    then show ?thesis using a assms(1) by simp
  next
    case (Some run_id)
    obtain y s1 where y: "?f run_id = (y, s1)" by (rule prod.exhaust)
    have "st' = s1" using a Some y by (cases y) auto
    then show ?thesis using finish_run_inv [OF assms(1) y] by simp
  qed
qed

lemma chunk_inv:
  assumes "session_inv (runtime_session_id rt) st"
    and "record_agent_chunk_with_store (memory_ops err) rt default_store t run_id chunk text artifacts st = (r, st')"
  shows "session_inv (runtime_session_id rt) st'"
  using assms(2) unfolding record_agent_chunk_with_store_def
  by (rule with_projection_inv [OF assms(1)])
    (use assms(1) in \<open>auto simp: Let_def allowed_def is_some_and_def split: if_splits option.splits prod.splits
       intro: record_then_inv\<close>)

lemma final_inv:
  assumes "session_inv (runtime_session_id rt) st" "record_agent_final (memory_ops err) rt t run_id text st = (r, st')"
  shows "session_inv (runtime_session_id rt) st'"
  using assms(2) unfolding record_agent_final_def
  by (rule with_projection_inv [OF assms(1)])
    (use assms(1) in \<open>auto simp: Let_def allowed_def split: if_splits intro: runtime_record_inv\<close>)

lemma reasoning_inv:
  assumes "session_inv (runtime_session_id rt) st"
    and "record_agent_reasoning_summary (memory_ops err) rt t run_id text st = (r, st')"
  shows "session_inv (runtime_session_id rt) st'"
  using assms(2) unfolding record_agent_reasoning_summary_def
  by (rule with_projection_inv [OF assms(1)])
    (use assms(1) in \<open>auto simp: Let_def allowed_def split: if_splits intro: record_then_inv\<close>)

lemma request_action_inv:
  assumes "session_inv (runtime_session_id rt) st"
    and "request_action_with_capability_version C (memory_ops err) rt t new_id action v st = (r, st')"
  shows "session_inv (runtime_session_id rt) st'"
proof (cases "action_admission C (memory_ops err) rt action v st")
  case (Inl e)
  then show ?thesis using assms by (simp add: request_action_with_capability_version_def)
next
  case (Inr d)
  show ?thesis
  proof (cases d)
    case (NeedsApproval reason)
    show ?thesis
      using assms(2) unfolding request_action_with_capability_version_def Inr NeedsApproval sum.case EffectDecision.case
      by (rule with_projection_inv [OF assms(1)])
        (use assms(1) in \<open>auto split: option.splits intro: record_then_inv
           simp: allowed_def pending_with_version_def\<close>)
  qed (use assms Inr in \<open>auto simp: request_action_with_capability_version_def allowed_def intro: record_then_inv\<close>)
qed

lemma pending_key:
  "pending_approvals (fold project_event es (projection_new sid)) i = Some q \<Longrightarrow> request_id q = i"
proof (induction es rule: rev_induct)
  case (snoc e es)
  then show ?case
    by (auto simp: pending_event approval_of_def split: EventPayload.splits ApprovalEvent.splits if_splits)
qed simp

lemma resolve_allowed:
  assumes "pending_approvals (session_state sid st) i = Some q" "request_state q = Pending"
    and "s = ApprovalState.Rejected
      \<or> s = Approved \<and> latest_intent_revision (session_state sid st) = Some (request_intent_revision q)"
  shows "allowed (session_state sid st) (Approval (Resolved (q\<lparr>request_state := s\<rparr>)))"
proof -
  have "request_id q = i" using assms(1) pending_key unfolding session_state_def by blast
  then show ?thesis using assms by (auto simp: allowed_def)
qed

lemma resolve_approval_inv:
  assumes "session_inv (runtime_session_id rt) st" "resolve_approval (memory_ops err) rt t resolution st = (r, st')"
  shows "session_inv (runtime_session_id rt) st'"
  using assms(2) unfolding resolve_approval_def Let_def
proof (rule with_projection_inv [OF assms(1)], goal_cases)
  case 1
  let ?p = "session_state (runtime_session_id rt) st"
  show ?case
  proof (cases "pending_approvals ?p (resolution_id resolution)")
    case None
    then show ?thesis using 1 assms(1) by simp
  next
    case (Some q)
    show ?thesis
    proof (cases "request_state q = Pending \<and> resolution_resolver resolution = ApprovalResolver.User")
      case False
      then show ?thesis using 1 Some assms(1) by (auto split: if_splits)
    next
      case True
      note allow = resolve_allowed [OF Some conjunct1 [OF True]]
      from 1 Some True show ?thesis
        apply simp
        apply (erule with_projection_inv [OF assms(1)])
        apply (auto split: if_splits intro: record_then_inv [OF assms(1)] runtime_record_inv [OF assms(1)] allow)
        done
    qed
  qed
qed

section \<open>Sequences of operations\<close>

text \<open>
  A step is a call of an operation of the session's runtime, an event that some part of the harness
  records through the runtime and that is no run, agent or approval event, or an append to another
  session.
\<close>

inductive runtime_step :: "(StoreError \<Rightarrow> string) \<Rightarrow> AgentRuntime \<Rightarrow> MemoryEventStore \<Rightarrow> MemoryEventStore \<Rightarrow> bool"
  for err rt where
  intent: "runtime_step err rt st st'"
    if "submit_intent_with_artifact_and_kind (memory_ops err) rt t text artifact kind st = (r, st')"
| start: "runtime_step err rt st st'" if "start_run (memory_ops err) rt run_id t st = (r, st')"
| intent_start: "runtime_step err rt st st'"
    if "submit_intent_and_start_run_with_artifact (memory_ops err) rt run_id t2 text artifact st = (r, st')"
| finish: "runtime_step err rt st st'" if "finish_run (memory_ops err) rt t e st = (r2, st')"
| cancel: "runtime_step err rt st st'" if "runtime_cancel (memory_ops err) rt t st = (r3, st')"
| chunk: "runtime_step err rt st st'"
    if "record_agent_chunk_with_store (memory_ops err) rt ds t run_id n text artifacts st = (r4, st')"
| final: "runtime_step err rt st st'" if "record_agent_final (memory_ops err) rt t run_id text st = (r2, st')"
| reasoning: "runtime_step err rt st st'"
    if "record_agent_reasoning_summary (memory_ops err) rt t run_id text st = (r4, st')"
| request: "runtime_step err rt st st'"
    if "request_action_with_capability_version (C :: string seam_context) (memory_ops err) rt t new_id action v st
        = (r3, st')"
| resolve: "runtime_step err rt st st'" if "resolve_approval (memory_ops err) rt t resolution st = (r2, st')"
| noted: "runtime_step err rt st st'"
    if "runtime_record (memory_ops err) rt t pay st = (r2, st')"
      "\<And>e. pay \<noteq> Run e" "\<And>e. pay \<noteq> EventPayload.Agent e" "\<And>e. pay \<noteq> Approval e"
| other: "runtime_step err rt st st'"
    if "memory_append_next st t sid pay = (r5, st')" "sid \<noteq> runtime_session_id rt"

inductive runtime_run :: "(StoreError \<Rightarrow> string) \<Rightarrow> AgentRuntime \<Rightarrow> MemoryEventStore \<Rightarrow> MemoryEventStore \<Rightarrow> bool"
  for err rt where
  refl: "runtime_run err rt st st"
| step: "runtime_run err rt st st''" if "runtime_run err rt st st'" "runtime_step err rt st' st''"

lemma allowed_other:
  assumes "\<And>e. pay \<noteq> Run e" "\<And>e. pay \<noteq> EventPayload.Agent e" "\<And>e. pay \<noteq> Approval e"
  shows "allowed p pay"
  using assms by (cases pay) (auto simp: allowed_def)

lemma runtime_step_inv:
  "runtime_step err rt st st' \<Longrightarrow> session_inv (runtime_session_id rt) st \<Longrightarrow> session_inv (runtime_session_id rt) st'"
proof (induction rule: runtime_step.induct)
  case (noted t pay st r2 st')
  then show ?case by (blast intro: runtime_record_inv allowed_other)
next
  case (other st t sid pay r5 st')
  then show ?case using session_inv_append by blast
qed (blast intro: submit_intent_inv start_run_inv submit_and_start_inv finish_run_inv cancel_inv chunk_inv
    final_inv reasoning_inv request_action_inv resolve_approval_inv)+

lemma runtime_run_inv:
  "runtime_run err rt st st' \<Longrightarrow> session_inv (runtime_session_id rt) st \<Longrightarrow> session_inv (runtime_session_id rt) st'"
  by (induction rule: runtime_run.induct) (auto dest: runtime_step_inv)

section \<open>Consequences of the specification\<close>

text \<open>Every event of a log was allowed by the state before it.\<close>

lemma session_log_prefix: "session_log sid (es @ es') \<Longrightarrow> session_log sid es"
proof (induction es' rule: rev_induct)
  case (snoc e es')
  from snoc.prems show ?case
    by (cases rule: session_log.cases) (use snoc.IH in \<open>auto simp flip: append_assoc\<close>)
qed simp

lemma session_log_allowed:
  assumes "session_log sid (es @ e # es')"
  shows "allowed (fold project_event es (projection_new sid)) (payload e)"
proof -
  have "session_log sid (es @ [e])" using session_log_prefix [of sid "es @ [e]" es'] assms by simp
  then show ?thesis by (cases rule: session_log.cases) auto
qed

section \<open>Properties\<close>

text \<open>
  C3. The operations of a runtime refine the session specification: after every sequence of calls on
  the runtime of a session, interleaved with appends to other sessions, each event of the session's
  log was allowed by the state that the events before it give. So runs never overlap, only the active
  run ends, chunk ids of a run grow, and an approval is recorded as approved only while its request is
  pending and its intent is the latest.
\<close>

theorem runtime_refines_session:
  assumes "store_run memory_default st" "parent_of (ms_sessions st) (runtime_session_id rt) = None"
    and "session_log (runtime_session_id rt) (visible st (runtime_session_id rt))"
    and "runtime_run err rt st st'" "visible st' (runtime_session_id rt) = es @ e # es'"
  shows "allowed (fold project_event es (projection_new (runtime_session_id rt))) (payload e)"
proof -
  have "session_inv (runtime_session_id rt) st"
    using assms(2,3) store_run_wf [OF assms(1) store_wf_default]
      schema_current_run [OF assms(1) schema_current_default]
    by (simp add: session_inv_def)
  then have "session_log (runtime_session_id rt) (visible st' (runtime_session_id rt))"
    using runtime_run_inv [OF assms(4)] by (simp add: session_inv_def)
  then show ?thesis using session_log_allowed assms(5) by simp
qed

text \<open>
  C33. What \<open>resolve_approval\<close> records for a session that is not a fork: nothing unless the request is
  pending and the resolver is the user; otherwise exactly one resolution, which is an approval exactly
  when the user accepted, the fingerprint and the revision are those of the request, and the intent is
  still the latest. A stale resolution is recorded as a rejection and reported as stale.
\<close>

theorem resolve_approval_records:
  assumes "store_run memory_default st" "store_healthy st"
    and "parent_of (ms_sessions st) (runtime_session_id rt) = None"
    and "visible st (runtime_session_id rt) \<noteq> []"
    and "pending_approvals (session_state (runtime_session_id rt) st) (resolution_id resolution) = Some q"
    and "request_state q = Pending" "resolution_resolver resolution = ApprovalResolver.User"
    and "resolve_approval (memory_ops err) rt t resolution st = (r, st')"
  shows "\<exists>e. visible st' (runtime_session_id rt) = visible st (runtime_session_id rt) @ [e]
    \<and> (let current = resolution_fingerprint resolution = request_fingerprint q
            \<and> resolution_intent_revision resolution = request_intent_revision q
            \<and> latest_intent_revision (session_state (runtime_session_id rt) st) = Some (request_intent_revision q)
       in payload e = Approval (Resolved (q\<lparr>request_state :=
              (if current \<and> resolution_accepted resolution then Approved else ApprovalState.Rejected)\<rparr>))
          \<and> r = (if current then Inr () else Inl (StaleApproval (resolution_id resolution))))"
proof -
  let ?sid = "runtime_session_id rt"
  have wf: "store_wf st" using store_run_wf [OF assms(1) store_wf_default] .
  have p: "runtime_projection (memory_ops err) rt st = Inr (session_state ?sid st)"
    using root_reduce [OF wf schema_current_run [OF assms(1) schema_current_default] assms(3)] assms(2,4)
    by (simp add: runtime_projection_def runtime_events_def memory_list_visible [OF wf])
  have rec: "\<exists>e s1. runtime_record (memory_ops err) rt t pay st = (Inr (), s1) \<and> payload e = pay
      \<and> visible s1 ?sid = visible st ?sid @ [e]" for pay
    using memory_append_ok [OF wf assms(2), of t ?sid pay] by (fastforce simp: runtime_record_def)
  define current where "current \<longleftrightarrow> resolution_fingerprint resolution = request_fingerprint q
      \<and> resolution_intent_revision resolution = request_intent_revision q
      \<and> latest_intent_revision (session_state ?sid st) = Some (request_intent_revision q)"
  let ?pay = "Approval (Resolved (q\<lparr>request_state :=
      (if current \<and> resolution_accepted resolution then Approved else ApprovalState.Rejected)\<rparr>))"
  obtain e s1 where e: "runtime_record (memory_ops err) rt t ?pay st = (Inr (), s1)" "payload e = ?pay"
    "visible s1 ?sid = visible st ?sid @ [e]" using rec by blast
  have "st' = s1 \<and> r = (if current then Inr () else Inl (StaleApproval (resolution_id resolution)))"
    using assms(5-8) e(1) by (auto simp: resolve_approval_def with_projection_def p Let_def current_def split: if_splits)
  then show ?thesis using e unfolding Let_def current_def by blast
qed

text \<open>A runtime on the session of \<open>demo_store1\<close>.\<close>

definition demo_runtime :: AgentRuntime where
  "demo_runtime = runtime_with 1 shell_engine ''/w'' None"

lemma demo_runtime_sid [simp]: "runtime_session_id demo_runtime = 1"
  by (simp add: demo_runtime_def runtime_with_def)

lemma demo_root: "parent_of (ms_sessions demo_store1) 1 = None"
  by (simp add: demo_store1_fields parent_of_def)

lemma demo_session_log: "session_log 1 (visible demo_store1 1)"
proof -
  have "session_log 1 ([] @ [demo_event 1])" by (intro session_log.intros) (simp add: demo_event_def allowed_def)
  then have "session_log 1 (([] @ [demo_event 1]) @ [demo_event 2])"
    by (rule session_log.snoc) (simp add: demo_event_def allowed_def)
  then show ?thesis by (simp add: demo_visible1)
qed

theorem runtime_refines_session_witness:
  "\<exists>st' e. runtime_run (\<lambda>_. []) demo_runtime demo_store1 st'
     \<and> visible st' 1 = [demo_event 1, demo_event 2] @ [e] \<and> payload e = Run (RunEvent.Started 7)
     \<and> allowed (fold project_event [demo_event 1, demo_event 2] (projection_new 1)) (payload e)"
proof -
  have wf: "store_wf demo_store1" using store_run_wf [OF demo_store1_run store_wf_default] .
  obtain e st' where a: "memory_append_next demo_store1 (300, 9) 1 (Run (RunEvent.Started 7)) = (Inr e, st')"
    "payload e = Run (RunEvent.Started 7)" "visible st' 1 = [demo_event 1, demo_event 2] @ [e]"
    using memory_append_ok [OF wf demo_healthy1, of "(300, 9)" 1 "Run (RunEvent.Started 7)"]
    by (auto simp: demo_visible1)
  have "runtime_projection (memory_ops (\<lambda>_. [])) demo_runtime demo_store1 = Inr (session_state 1 demo_store1)"
    using root_reduce [OF wf schema_current_run [OF demo_store1_run schema_current_default] demo_root] demo_healthy1
    by (simp add: runtime_projection_def runtime_events_def memory_list_visible [OF wf] demo_visible1)
  moreover have "active_run_id (session_state 1 demo_store1) = None"
    by (simp add: session_state_def demo_visible1 demo_event_def project_event_def project_payload_def)
  ultimately have "start_run (memory_ops (\<lambda>_. [])) demo_runtime 7 (300, 9) demo_store1 = (Inr 7, st')"
    by (simp add: start_run_def with_projection_def runtime_record_def a(1))
  then have run: "runtime_run (\<lambda>_. []) demo_runtime demo_store1 st'"
    by (blast intro: runtime_run.intros runtime_step.start)
  have "allowed (fold project_event [demo_event 1, demo_event 2] (projection_new 1)) (payload e)"
    using runtime_refines_session [OF demo_store1_run _ _ run, of "[demo_event 1, demo_event 2]" e "[]"]
      demo_root demo_session_log a(3) by simp
  then show ?thesis using run a(2,3) by blast
qed

theorem resolve_approval_records_witness:
  "\<exists>st q st' e. pending_approvals (session_state 1 st) 9 = Some q
     \<and> resolve_approval (memory_ops (\<lambda>_. [])) demo_runtime (302, 9) (resolution_user q True) st = (Inr (), st')
     \<and> visible st' 1 = visible st 1 @ [e] \<and> payload e = Approval (Resolved (q\<lparr>request_state := Approved\<rparr>))"
proof -
  have wf: "store_wf demo_store1" using store_run_wf [OF demo_store1_run store_wf_default] .
  obtain e1 s1 where a: "memory_append_next demo_store1 (300, 9) 1 (Intent (intent_new ''x'')) = (Inr e1, s1)"
    "payload e1 = Intent (intent_new ''x'')" "store_wf s1" "store_healthy s1" "visible s1 1 = [demo_event 1, demo_event 2, e1]"
    using memory_append_ok [OF wf demo_healthy1, of "(300, 9)" 1 "Intent (intent_new ''x'')"] by (auto simp: demo_visible1)
  define q where "q = pending_with_version demo_externals 9 (shell_action ActionOrigin.Agent) ''r'' (sequence e1) None"
  obtain e2 s2 where b: "memory_append_next s1 (301, 9) 1 (Approval (Requested q)) = (Inr e2, s2)"
    "payload e2 = Approval (Requested q)" "store_healthy s2" "visible s2 1 = [demo_event 1, demo_event 2, e1, e2]"
    using memory_append_ok [OF a(3,4), of "(301, 9)" 1 "Approval (Requested q)"] a(5) by auto
  have run: "store_run memory_default s2"
    using demo_store1_run store_step.append [OF a(1)] store_step.append [OF b(1)] by (blast intro: store_run.step)
  have "ms_sessions s2 = ms_sessions demo_store1"
    using memory_append_next_fields [OF a(1)] memory_append_next_fields [OF b(1)] by simp
  then have parent: "parent_of (ms_sessions s2) (runtime_session_id demo_runtime) = None" using demo_root by simp
  have st: "pending_approvals (session_state 1 s2) 9 = Some q" "latest_intent_revision (session_state 1 s2) = Some (sequence e1)"
    using a(2) b(2)
    by (simp_all add: session_state_def b(4) demo_event_def project_event_def project_payload_def q_def
        pending_with_version_def)
  have q: "request_id q = 9" "request_state q = Pending" "request_intent_revision q = sequence e1"
    by (simp_all add: q_def pending_with_version_def)
  obtain r st' where res: "resolve_approval (memory_ops (\<lambda>_. [])) demo_runtime (302, 9) (resolution_user q True) s2 = (r, st')"
    by (rule prod.exhaust)
  have "\<exists>e. visible st' 1 = visible s2 1 @ [e] \<and> payload e = Approval (Resolved (q\<lparr>request_state := Approved\<rparr>)) \<and> r = Inr ()"
    using resolve_approval_records [OF run b(3) parent _ _ q(2) _ res] st q b(4)
    by (simp add: resolution_user_def)
  then show ?thesis using st(1) res by blast
qed

end
