(* ===== verification/Child_Runs.thy ===== *)
theory Child_Runs
  imports Runtime Agent_Scheduler
begin

text \<open>
  Child runs: the durable results of children (\<open>crates/impetus-core/src/child_result_store.rs\<close>), the
  run of a role child (\<open>role_child.rs\<close>) and of an explore child (\<open>explore_child.rs\<close>), and the
  harness-side spawns that put a run under a writer lease. This is where the concurrency gate, the
  lease table, the result store and the parent's event log meet.

  SQLite and \<open>serde_json\<close> are a record of operations on a database state, a parameter. The executor of
  a child is a parameter too: it may act on the parent's event store, through its reporter or
  otherwise, and on a world. A cancellation token that a run polls once is the Boolean it answers. The
  gate is locked for the whole of a run, so nothing else changes it meanwhile; the lease table is not,
  and the world the executor acts on holds it.
\<close>

section \<open>Results of children\<close>

datatype ChildResultStatus = Completed | Failed | Cancelled

fun child_status_str :: "ChildResultStatus \<Rightarrow> string" where
  "child_status_str ChildResultStatus.Completed = ''completed''"
| "child_status_str ChildResultStatus.Failed = ''failed''"
| "child_status_str ChildResultStatus.Cancelled = ''cancelled''"

definition child_status_parse :: "string \<Rightarrow> ChildResultStatus option" where
  "child_status_parse s =
     (if s = ''completed'' then Some ChildResultStatus.Completed
      else if s = ''failed'' then Some ChildResultStatus.Failed
      else if s = ''cancelled'' then Some ChildResultStatus.Cancelled
      else None)"

record ChildResult =
  result_child_id :: string
  result_parent_id :: string
  result_role_label :: string
  result_status :: ChildResultStatus
  result_summary_label :: string
  result_artifact_ref_labels :: "string list"
  result_recorded_unix_ms :: u64

definition child_result_from_metadata ::
    "string \<Rightarrow> ChildRunMetadata \<Rightarrow> ChildResultStatus \<Rightarrow> string \<Rightarrow> ChildResult" where
  "child_result_from_metadata child metadata st summary =
     \<lparr>result_child_id = child, result_parent_id = meta_parent_id metadata,
      result_role_label = role_str (meta_role metadata), result_status = st,
      result_summary_label = summary, result_artifact_ref_labels = [], result_recorded_unix_ms = 0\<rparr>"

definition child_result_role :: "ChildResult \<Rightarrow> SubagentRole option" where
  "child_result_role r =
     (if result_role_label r = ''Explore'' then Some Explore
      else if result_role_label r = ''Research'' then Some Research
      else if result_role_label r = ''Build'' then Some Build
      else if result_role_label r = ''Review'' then Some Review
      else None)"

datatype ChildResultError =
    Sqlite string
  | Io string
  | EmptyChildId
  | EmptyParentId
  | EmptyRoleLabel
  | EmptySummaryLabel
  | UnknownStatus string
  | InvalidArtifactLabels string
  | MissingChildResults string "string list"

text \<open>
  A row of the table \<open>child_results\<close>, its columns as the statements name them, and the operations
  the code uses of the database and of the JSON library: the upsert by \<open>child_id\<close>, the select by
  \<open>child_id\<close>, the select by \<open>parent_id\<close> in the order of \<open>child_id\<close>.
\<close>

record ChildRow =
  row_child_id :: string
  row_parent_id :: string
  row_role_label :: string
  row_status :: string
  row_summary_label :: string
  row_artifact_json :: string
  row_recorded :: u64

record 'd ChildDb =
  db_upsert :: "ChildRow \<Rightarrow> 'd \<Rightarrow> (string + unit) \<times> 'd"
  db_select :: "'d \<Rightarrow> string \<Rightarrow> string + ChildRow option"
  db_select_parent :: "'d \<Rightarrow> string \<Rightarrow> string + ChildRow list"
  json_encode :: "string list \<Rightarrow> string + string"
  json_decode :: "string \<Rightarrow> string + string list"

definition validate_result :: "ChildResult \<Rightarrow> ChildResultError + unit" where
  "validate_result r =
     (if trim (result_child_id r) = [] then Inl ChildResultError.EmptyChildId
      else if trim (result_parent_id r) = [] then Inl ChildResultError.EmptyParentId
      else if trim (result_role_label r) = [] then Inl EmptyRoleLabel
      else if trim (result_summary_label r) = [] then Inl EmptySummaryLabel
      else Inr ())"

definition row_to_result :: "'d ChildDb \<Rightarrow> ChildRow \<Rightarrow> ChildResultError + ChildResult" where
  "row_to_result D row =
     (case child_status_parse (row_status row) of
        None \<Rightarrow> Inl (UnknownStatus (row_status row))
      | Some st \<Rightarrow>
          (case json_decode D (row_artifact_json row) of
             Inl e \<Rightarrow> Inl (InvalidArtifactLabels e)
           | Inr labels \<Rightarrow>
               Inr \<lparr>result_child_id = row_child_id row, result_parent_id = row_parent_id row,
                    result_role_label = row_role_label row, result_status = st,
                    result_summary_label = row_summary_label row, result_artifact_ref_labels = labels,
                    result_recorded_unix_ms = row_recorded row\<rparr>))"

definition record_result ::
    "'d ChildDb \<Rightarrow> u64 \<Rightarrow> ChildResult \<Rightarrow> 'd \<Rightarrow> (ChildResultError + unit) \<times> 'd" where
  "record_result D now r d =
     (case validate_result r of
        Inl e \<Rightarrow> (Inl e, d)
      | Inr _ \<Rightarrow>
          (let recorded = (if result_recorded_unix_ms r = 0 then now else result_recorded_unix_ms r) in
           case json_encode D (result_artifact_ref_labels r) of
             Inl e \<Rightarrow> (Inl (InvalidArtifactLabels e), d)
           | Inr json \<Rightarrow>
               smap_err Sqlite (db_upsert D
                 \<lparr>row_child_id = result_child_id r, row_parent_id = result_parent_id r,
                  row_role_label = result_role_label r, row_status = child_status_str (result_status r),
                  row_summary_label = result_summary_label r, row_artifact_json = json,
                  row_recorded = recorded\<rparr> d)))"

definition load_result :: "'d ChildDb \<Rightarrow> 'd \<Rightarrow> string \<Rightarrow> ChildResultError + ChildResult option" where
  "load_result D d child =
     (if trim child = [] then Inl ChildResultError.EmptyChildId
      else case db_select D d child of
             Inl e \<Rightarrow> Inl (Sqlite e)
           | Inr None \<Rightarrow> Inr None
           | Inr (Some row) \<Rightarrow> rbind (row_to_result D row) (\<lambda>r. Inr (Some r)))"

fun rows_to_results :: "'d ChildDb \<Rightarrow> ChildRow list \<Rightarrow> ChildResultError + ChildResult list" where
  "rows_to_results D [] = Inr []"
| "rows_to_results D (row # rows) =
     rbind (row_to_result D row) (\<lambda>r. rbind (rows_to_results D rows) (\<lambda>rs. Inr (r # rs)))"

definition list_by_parent :: "'d ChildDb \<Rightarrow> 'd \<Rightarrow> string \<Rightarrow> ChildResultError + ChildResult list" where
  "list_by_parent D d parent =
     (if trim parent = [] then Inl ChildResultError.EmptyParentId
      else case db_select_parent D d parent of
             Inl e \<Rightarrow> Inl (Sqlite e)
           | Inr rows \<Rightarrow> rows_to_results D rows)"

fun missing_children :: "'d ChildDb \<Rightarrow> 'd \<Rightarrow> string \<Rightarrow> string list \<Rightarrow> ChildResultError + string list" where
  "missing_children D d parent [] = Inr []"
| "missing_children D d parent (child # children) =
     (if trim child = [] then Inl ChildResultError.EmptyChildId
      else rbind (load_result D d child) (\<lambda>found.
        rbind (missing_children D d parent children) (\<lambda>missing.
          Inr (if is_some_and found (\<lambda>r. result_parent_id r = parent) then missing
               else child # missing))))"

definition gate_parent_resume :: "'d ChildDb \<Rightarrow> 'd \<Rightarrow> string \<Rightarrow> string list \<Rightarrow> ChildResultError + unit" where
  "gate_parent_resume D d parent required =
     (if trim parent = [] then Inl ChildResultError.EmptyParentId
      else rbind (missing_children D d parent required) (\<lambda>missing.
        if missing = [] then Inr () else Inl (MissingChildResults parent missing)))"

section \<open>The run of a child\<close>

text \<open>
  What the runs of role children and of explore children share, word for word in both sources: the
  environment handed to the executor, its output, and everything from the admission on.
\<close>

record child_request =
  req_parent_session_id :: string
  req_child_id :: string
  req_cwd :: string
  req_allowed_tools :: "string list"
  req_context_label :: string
  req_max_tokens :: u64
  req_max_time_ms :: u64
  req_max_depth :: u32

record RoleChildRequest = child_request +
  req_role :: SubagentRole
  req_write_roots :: "string list"
  req_worktree :: "string option"
  req_program :: "string option"
  req_args :: "string list"

type_synonym ExploreChildRequest = child_request

record child_env =
  env_child_id :: string
  env_metadata :: ChildRunMetadata
  env_context_label :: string

record RoleChildEnv = child_env +
  env_program :: "string option"
  env_args :: "string list"

type_synonym ExploreChildEnv = child_env

record executor_output =
  out_summary_label :: string
  out_artifact_ref_labels :: "string list"

datatype executor_error = Cancelled | Failed string

record child_outcome =
  outcome_child_id :: string
  outcome_parent_session_id :: string
  outcome_status :: ChildResultStatus
  outcome_summary_label :: string
  outcome_metadata :: ChildRunMetadata

text \<open>The parent's event log, when the runner has one, and the stamps of the three events of a run.\<close>

record 's parent_log =
  log_store :: "'s EventStore"
  log_parse_uuid :: "string \<Rightarrow> uuid option"
  log_started :: stamp
  log_status :: stamp
  log_finished :: stamp

record ('s, 'd) runner =
  runner_db :: "'d ChildDb"
  runner_now :: u64
  runner_events :: "'s parent_log option"

type_synonym ('e, 's, 'w) executor =
  "'e \<Rightarrow> ChildMidRunReporter option \<Rightarrow> 's \<times> 'w \<Rightarrow> (executor_error + executor_output) \<times> 's \<times> 'w"

type_synonym ('s, 'd, 'w) child_state = "ChildConcurrencyGate \<times> 'd \<times> 's \<times> 'w"

datatype child_failure = GateFailure ChildConcurrencyError | StoreFailure ChildResultError

definition emit_parent_child ::
    "('s, 'd) runner \<Rightarrow> ('s parent_log \<Rightarrow> stamp) \<Rightarrow> string \<Rightarrow> ChildEvent \<Rightarrow> 's \<Rightarrow> 's" where
  "emit_parent_child R stamp_of parent event s =
     (case runner_events R of
        None \<Rightarrow> s
      | Some L \<Rightarrow> snd (emit_parent_child_event (log_store L) (log_parse_uuid L) (stamp_of L) parent event s))"

definition executor_outcome :: "executor_error + executor_output \<Rightarrow> ChildResultStatus \<times> string \<times> string list" where
  "executor_outcome r =
     (case r of
        Inr out \<Rightarrow> (ChildResultStatus.Completed, out_summary_label out, out_artifact_ref_labels out)
      | Inl executor_error.Cancelled \<Rightarrow> (ChildResultStatus.Cancelled, ''cancelled'', [])
      | Inl (executor_error.Failed reason) \<Rightarrow>
          (ChildResultStatus.Failed, if trim reason = [] then ''failed'' else reason, []))"

fun finished_labels :: "ChildResultStatus \<Rightarrow> string \<Rightarrow> string option \<times> string option" where
  "finished_labels ChildResultStatus.Completed l = (Some l, None)"
| "finished_labels ChildResultStatus.Failed l = (None, Some l)"
| "finished_labels ChildResultStatus.Cancelled l = (Some l, None)"

text \<open>The announcement to the parent and the call of the executor.\<close>

definition child_execute ::
    "('s, 'd) runner \<Rightarrow> 'r child_request_scheme \<Rightarrow> ChildRunMetadata \<Rightarrow> bool \<Rightarrow> 'e
     \<Rightarrow> ('e, 's, 'w) executor \<Rightarrow> 's \<times> 'w \<Rightarrow> (executor_error + executor_output) \<times> 's \<times> 'w" where
  "child_execute R req metadata cancelled env execute c =
     (case c of (s, w) \<Rightarrow>
        (let child = req_child_id req;
             parent = req_parent_session_id req;
             s1 = emit_parent_child R log_started parent
                    (ChildEvent.Started child parent (role_str (meta_role metadata))) s;
             s2 = emit_parent_child R log_status parent
                    (StatusChanged child ''running'' (Some (req_context_label req))) s1;
             mid_run = map_option (\<lambda>_. reporter_new parent child) (runner_events R)
         in if cancelled then (Inl executor_error.Cancelled, s2, w) else execute env mid_run (s2, w)))"

definition child_body ::
    "('s, 'd) runner \<Rightarrow> 'r child_request_scheme \<Rightarrow> ChildRunMetadata \<Rightarrow> bool \<Rightarrow> 'e
     \<Rightarrow> ('e, 's, 'w) executor \<Rightarrow> ('s, 'd, 'w) child_state
     \<Rightarrow> (child_failure + child_outcome) \<times> ('s, 'd, 'w) child_state" where
  "child_body R req metadata cancelled env execute c =
     (case c of (gate, d, s, w) \<Rightarrow>
        (case admit_child (req_child_id req) (req_parent_session_id req) gate of
           (Inl e, gate1) \<Rightarrow> (Inl (GateFailure e), gate1, d, s, w)
         | (Inr _, gate1) \<Rightarrow>
             (let child = req_child_id req;
                  parent = req_parent_session_id req;
                  (exec_result, s3, w1) = child_execute R req metadata cancelled env execute (s, w);
                  (st, summary_label, labels) = executor_outcome exec_result;
                  result = (child_result_from_metadata child metadata st summary_label)
                             \<lparr>result_artifact_ref_labels := labels\<rparr>;
                  (record_err, d1) = record_result (runner_db R) (runner_now R) result d;
                  (release_err, gate2) = gate_release child gate1
              in case record_err of
                   Inl e \<Rightarrow> (Inl (StoreFailure e), gate2, d1, s3, w1)
                 | Inr _ \<Rightarrow>
                     (case release_err of
                        Inl e \<Rightarrow> (Inl (GateFailure e), gate2, d1, s3, w1)
                      | Inr _ \<Rightarrow>
                          (case gate_parent_resume (runner_db R) d1 parent [child] of
                             Inl e \<Rightarrow> (Inl (StoreFailure e), gate2, d1, s3, w1)
                           | Inr _ \<Rightarrow>
                               (let (summary, err) = finished_labels st summary_label;
                                    s4 = emit_parent_child R log_finished parent
                                           (ChildEvent.Finished child (child_status_str st) summary err) s3
                                in (Inr \<lparr>outcome_child_id = child, outcome_parent_session_id = parent,
                                         outcome_status = st, outcome_summary_label = summary_label,
                                         outcome_metadata = metadata\<rparr>,
                                    gate2, d1, s4, w1)))))))"

section \<open>Role children\<close>

definition EXPLORE_ALLOWED_TOOLS :: "string list" where
  "EXPLORE_ALLOWED_TOOLS = [''list'', ''read'', ''search'']"

definition RESEARCH_ALLOWED_TOOLS :: "string list" where
  "RESEARCH_ALLOWED_TOOLS = [''list'', ''read'', ''search'', ''web'']"

definition BUILD_ALLOWED_TOOLS :: "string list" where
  "BUILD_ALLOWED_TOOLS = [''list'', ''read'', ''search'', ''write'']"

definition REVIEW_ALLOWED_TOOLS :: "string list" where
  "REVIEW_ALLOWED_TOOLS = [''list'', ''read'', ''search'']"

fun allowed_tools_for :: "SubagentRole \<Rightarrow> string list" where
  "allowed_tools_for Explore = EXPLORE_ALLOWED_TOOLS"
| "allowed_tools_for Research = RESEARCH_ALLOWED_TOOLS"
| "allowed_tools_for Build = BUILD_ALLOWED_TOOLS"
| "allowed_tools_for Review = REVIEW_ALLOWED_TOOLS"

datatype RoleChildError =
    EmptyParentId
  | EmptyChildId
  | UseExploreModule
  | NotConfigured
  | DisallowedTool string
  | Metadata ChildRunMetadataError
  | Concurrency ChildConcurrencyError
  | Store ChildResultError
  | WriteLease WriteSetError

fun validate_role_allowed_tools :: "SubagentRole \<Rightarrow> string list \<Rightarrow> RoleChildError + unit" where
  "validate_role_allowed_tools role [] = Inr ()"
| "validate_role_allowed_tools role (tool # tools) =
     (if tool \<notin> set (allowed_tools_for role) then Inl (DisallowedTool tool)
      else validate_role_allowed_tools role tools)"

definition role_to_metadata :: "RoleChildRequest \<Rightarrow> RoleChildError + ChildRunMetadata" where
  "role_to_metadata req =
     (if trim (req_parent_session_id req) = [] then Inl RoleChildError.EmptyParentId
      else if trim (req_child_id req) = [] then Inl RoleChildError.EmptyChildId
      else if req_role req = Explore then Inl UseExploreModule
      else rbind (validate_role_allowed_tools (req_role req) (req_allowed_tools req)) (\<lambda>_.
        case try_validated
               \<lparr>meta_parent_id = req_parent_session_id req, meta_cwd = req_cwd req,
                meta_worktree = req_worktree req, meta_allowed_tools = req_allowed_tools req,
                meta_write_roots = req_write_roots req, meta_max_tokens = req_max_tokens req,
                meta_max_time = req_max_time_ms req, meta_max_depth = req_max_depth req,
                meta_role = req_role req\<rparr> of
          Inl e \<Rightarrow> Inl (RoleChildError.Metadata e)
        | Inr md \<Rightarrow> Inr md))"

fun role_failure :: "child_failure \<Rightarrow> RoleChildError" where
  "role_failure (GateFailure e) = RoleChildError.Concurrency e"
| "role_failure (StoreFailure e) = RoleChildError.Store e"

definition role_run ::
    "('s, 'd) runner \<Rightarrow> RoleChildRequest \<Rightarrow> bool \<Rightarrow> (RoleChildEnv, 's, 'w) executor
     \<Rightarrow> ('s, 'd, 'w) child_state \<Rightarrow> (RoleChildError + child_outcome) \<times> ('s, 'd, 'w) child_state" where
  "role_run R req cancelled execute c =
     (case role_to_metadata req of
        Inl e \<Rightarrow> (Inl e, c)
      | Inr metadata \<Rightarrow>
          smap_err role_failure
            (child_body R req metadata cancelled
               \<lparr>env_child_id = req_child_id req, env_metadata = metadata,
                env_context_label = req_context_label req, env_program = req_program req,
                env_args = req_args req\<rparr> execute c))"

section \<open>Explore children\<close>

datatype ExploreChildError =
    EmptyParentId
  | EmptyChildId
  | Metadata ChildRunMetadataError
  | EmptyAllowedTools
  | ToolNotAllowed string
  | Concurrency ChildConcurrencyError
  | ResultStore ChildResultError
  | WriteRootsForbidden
  | WrongRole string
  | NotConfigured
  | WriteLease WriteSetError

fun explore_tools_loop :: "string list \<Rightarrow> ExploreChildError + unit" where
  "explore_tools_loop [] = Inr ()"
| "explore_tools_loop (tool # tools) =
     (if trim tool = [] \<or> trim tool \<notin> set EXPLORE_ALLOWED_TOOLS then Inl (ToolNotAllowed tool)
      else explore_tools_loop tools)"

definition validate_explore_allowed_tools :: "string list \<Rightarrow> ExploreChildError + unit" where
  "validate_explore_allowed_tools tools =
     (if tools = [] then Inl EmptyAllowedTools else explore_tools_loop tools)"

definition is_explore_forbidden_tool :: "string \<Rightarrow> bool" where
  "is_explore_forbidden_tool name \<longleftrightarrow> trim name \<notin> set EXPLORE_ALLOWED_TOOLS"

fun intersect_loop :: "string list \<Rightarrow> string list \<Rightarrow> string list \<Rightarrow> ExploreChildError + string list" where
  "intersect_loop ceiling out [] = Inr out"
| "intersect_loop ceiling out (tool # tools) =
     (if trim tool \<notin> set ceiling then Inl (ToolNotAllowed tool)
      else intersect_loop ceiling (if trim tool \<in> set out then out else out @ [trim tool]) tools)"

definition intersect_explore_tools :: "string list option \<Rightarrow> string list \<Rightarrow> ExploreChildError + string list" where
  "intersect_explore_tools parent_allowed requested =
     rbind (validate_explore_allowed_tools requested) (\<lambda>_.
       let ceiling = (case parent_allowed of
             None \<Rightarrow> EXPLORE_ALLOWED_TOOLS
           | Some [] \<Rightarrow> EXPLORE_ALLOWED_TOOLS
           | Some tools \<Rightarrow> filter (\<lambda>t. t \<noteq> [] \<and> t \<in> set EXPLORE_ALLOWED_TOOLS) (map trim tools))
       in rbind (intersect_loop ceiling [] requested) (\<lambda>out.
            if out = [] then Inl EmptyAllowedTools else Inr out))"

definition explore_to_metadata :: "ExploreChildRequest \<Rightarrow> ExploreChildError + ChildRunMetadata" where
  "explore_to_metadata req =
     (if trim (req_parent_session_id req) = [] then Inl ExploreChildError.EmptyParentId
      else if trim (req_child_id req) = [] then Inl ExploreChildError.EmptyChildId
      else rbind (validate_explore_allowed_tools (req_allowed_tools req)) (\<lambda>_.
        case try_validated
               \<lparr>meta_parent_id = req_parent_session_id req, meta_cwd = req_cwd req,
                meta_worktree = None, meta_allowed_tools = req_allowed_tools req,
                meta_write_roots = [], meta_max_tokens = req_max_tokens req,
                meta_max_time = req_max_time_ms req, meta_max_depth = req_max_depth req,
                meta_role = Explore\<rparr> of
          Inl e \<Rightarrow> Inl (ExploreChildError.Metadata e)
        | Inr md \<Rightarrow> Inr md))"

definition enforce_explore_structural :: "ChildRunMetadata \<Rightarrow> ExploreChildError + unit" where
  "enforce_explore_structural metadata =
     (if meta_role metadata \<noteq> Explore then Inl (WrongRole (role_str (meta_role metadata)))
      else if meta_write_roots metadata \<noteq> [] then Inl WriteRootsForbidden
      else validate_explore_allowed_tools (meta_allowed_tools metadata))"

fun explore_failure :: "child_failure \<Rightarrow> ExploreChildError" where
  "explore_failure (GateFailure e) = ExploreChildError.Concurrency e"
| "explore_failure (StoreFailure e) = ResultStore e"

definition explore_run ::
    "('s, 'd) runner \<Rightarrow> ExploreChildRequest \<Rightarrow> bool \<Rightarrow> (ExploreChildEnv, 's, 'w) executor
     \<Rightarrow> ('s, 'd, 'w) child_state \<Rightarrow> (ExploreChildError + child_outcome) \<times> ('s, 'd, 'w) child_state" where
  "explore_run R req cancelled execute c =
     (case rbind (explore_to_metadata req) (\<lambda>md. rbind (enforce_explore_structural md) (\<lambda>_. Inr md)) of
        Inl e \<Rightarrow> (Inl e, c)
      | Inr metadata \<Rightarrow>
          smap_err explore_failure
            (child_body R req metadata cancelled
               \<lparr>env_child_id = req_child_id req, env_metadata = metadata,
                env_context_label = req_context_label req\<rparr> execute c))"

fun load_children ::
    "'d ChildDb \<Rightarrow> 'd \<Rightarrow> string \<Rightarrow> string list \<Rightarrow> ExploreChildError + ChildResult list" where
  "load_children D d parent [] = Inr []"
| "load_children D d parent (child # children) =
     (case load_result D d child of
        Inl e \<Rightarrow> Inl (ResultStore e)
      | Inr None \<Rightarrow> Inl (ResultStore (MissingChildResults parent [child]))
      | Inr (Some r) \<Rightarrow> rbind (load_children D d parent children) (\<lambda>rs. Inr (r # rs)))"

definition resume_parent_after_explore ::
    "'d ChildDb \<Rightarrow> 'd \<Rightarrow> string \<Rightarrow> string list \<Rightarrow> ExploreChildError + ChildResult list" where
  "resume_parent_after_explore D d parent children =
     (case gate_parent_resume D d parent children of
        Inl e \<Rightarrow> Inl (ResultStore e)
      | Inr _ \<Rightarrow> load_children D d parent children)"

section \<open>Spawns under a writer lease\<close>

text \<open>
  The lease table is shared with other spawns and is not locked while the child runs: it is part of
  the world of the executor, which may change it in any way. Both spawns start from a write set and do
  the same with it.
\<close>

definition under_lease ::
    "(WriteSetError \<Rightarrow> 'e) \<Rightarrow> lease_order \<Rightarrow> string \<Rightarrow> WriteSetError + DeclaredWriteSet
     \<Rightarrow> (('s, 'd, WriterLeaseTable option \<times> 'w) child_state
          \<Rightarrow> ('e + 'a) \<times> ('s, 'd, WriterLeaseTable option \<times> 'w) child_state)
     \<Rightarrow> ('s, 'd, WriterLeaseTable option \<times> 'w) child_state
     \<Rightarrow> ('e + 'a) \<times> ('s, 'd, WriterLeaseTable option \<times> 'w) child_state" where
  "under_lease wrap order child write_set run c =
     (case rbind write_set (writer_fence_new child 1) of
        Inl e \<Rightarrow> (Inl (wrap e), c)
      | Inr fence \<Rightarrow>
          (case c of (gate, d, s, leases, w) \<Rightarrow>
             (let admitted = (case leases of
                    None \<Rightarrow> (Inr (), None)
                  | Some table \<Rightarrow> (case lease_admit order fence table of (r, table') \<Rightarrow> (r, Some table')))
              in case admitted of
                   (Inl e, leases1) \<Rightarrow> (Inl (wrap e), gate, d, s, leases1, w)
                 | (Inr _, leases1) \<Rightarrow>
                     (case run (gate, d, s, leases1, w) of (result, gate2, d2, s2, leases2, w2) \<Rightarrow>
                        (result, gate2, d2, s2,
                         map_option (\<lambda>table. snd (lease_release child table)) leases2, w2)))))"

definition harness_spawn_role ::
    "('s, 'd) runner \<Rightarrow> file_system \<Rightarrow> lease_order \<Rightarrow> RoleChildRequest \<Rightarrow> bool
     \<Rightarrow> (RoleChildEnv, 's, WriterLeaseTable option \<times> 'w) executor
     \<Rightarrow> ('s, 'd, WriterLeaseTable option \<times> 'w) child_state
     \<Rightarrow> (RoleChildError + child_outcome) \<times> ('s, 'd, WriterLeaseTable option \<times> 'w) child_state" where
  "harness_spawn_role R fs order req cancelled execute =
     under_lease RoleChildError.WriteLease order (req_child_id req)
       (write_set_from_roots fs (req_cwd req) (req_write_roots req)) (role_run R req cancelled execute)"

definition harness_spawn_explore ::
    "('s, 'd) runner \<Rightarrow> lease_order \<Rightarrow> ExploreChildRequest \<Rightarrow> bool
     \<Rightarrow> (ExploreChildEnv, 's, WriterLeaseTable option \<times> 'w) executor
     \<Rightarrow> ('s, 'd, WriterLeaseTable option \<times> 'w) child_state
     \<Rightarrow> (ExploreChildError + child_outcome) \<times> ('s, 'd, WriterLeaseTable option \<times> 'w) child_state" where
  "harness_spawn_explore R order req cancelled execute =
     under_lease ExploreChildError.WriteLease order (req_child_id req)
       (explore_readonly_write_set (req_child_id req)) (explore_run R req cancelled execute)"

section \<open>The slot of a run\<close>

lemma admit_release:
  assumes inv: "gate_inv g" and ok: "admit_child run parent g = (Inr u, g')"
  shows "gate_release run g' = (Inr (), g)"
proof -
  let ?p = "trim parent" and ?m = "gate_active_by_parent g"
  have m: "?m ?p \<noteq> Some 0" and po: "run \<notin> set (gate_active g) \<Longrightarrow> gate_parent_of g run = None"
    using inv by (auto simp: gate_inv_def)
  have run: "run \<noteq> []" "run \<notin> set (gate_active g)"
    using ok by (auto simp: admit_child_def admit_for_parent_def split: if_splits)
  have g': "g' = g\<lparr>gate_active_by_parent := ?m(?p \<mapsto> unwrap_or (?m ?p) 0 + 1),
      gate_parent_of := (gate_parent_of g)(run \<mapsto> ?p), gate_active := gate_active g @ [run]\<rparr>"
    using ok by (auto simp: admit_child_def admit_for_parent_def Let_def split: if_splits option.splits)
  have "filter (\<lambda>r. r \<noteq> run) (gate_active g) = gate_active g"
    using run(2) by (auto intro: filter_True)
  moreover have "(gate_parent_of g)(run := None) = gate_parent_of g"
    using po [OF run(2)] by (simp add: fun_upd_idem)
  moreover have "?m(?p := if unwrap_or (?m ?p) 0 = 0 then None else Some (unwrap_or (?m ?p) 0)) = ?m"
    using m by (cases "?m ?p") (auto simp: fun_upd_idem)
  ultimately show ?thesis
    using run by (cases "unwrap_or (?m ?p) 0 = 0") (simp_all add: gate_release_def g' Let_def)
qed

lemma child_body_gate:
  assumes "gate_inv gate" and "child_body R req metadata cancelled env execute (gate, d, s, w) = (r, gate', d', s', w')"
  shows "gate' = gate"
proof (cases "admit_child (req_child_id req) (req_parent_session_id req) gate")
  case (Pair res gate1)
  show ?thesis
  proof (cases res)
    case (Inl e)
    then have "gate1 = gate"
      using Pair by (auto simp: admit_child_def admit_for_parent_def Let_def split: if_splits option.splits)
    then show ?thesis using assms(2) Pair Inl by (simp add: child_body_def)
  next
    case (Inr u)
    from admit_release [OF assms(1) Pair [unfolded Inr]]
    have "gate_release (req_child_id req) gate1 = (Inr (), gate)" .
    then show ?thesis
      using assms(2) Pair Inr
      by (auto simp: child_body_def Let_def split: prod.splits sum.splits)
  qed
qed

lemma role_run_gate:
  "gate_inv gate \<Longrightarrow> role_run R req cancelled execute (gate, d, s, w) = (r, gate', d', s', w') \<Longrightarrow> gate' = gate"
  by (auto simp: role_run_def smap_err_def split: sum.splits prod.splits dest: child_body_gate)

lemma explore_run_gate:
  "gate_inv gate \<Longrightarrow> explore_run R req cancelled execute (gate, d, s, w) = (r, gate', d', s', w') \<Longrightarrow> gate' = gate"
  by (auto simp: explore_run_def smap_err_def split: sum.splits prod.splits dest: child_body_gate)

section \<open>The lease of a spawn\<close>

lemma lease_release_gone: "child \<notin> fst ` set (snd (lease_release child table))"
proof -
  have "map_of (snd (lease_release child table)) child = None"
    by (simp add: lease_release_def delete_conv' split: option.split)
  then show ?thesis by (simp add: map_of_eq_None_iff)
qed

lemma lease_admit_result:
  assumes "lease_inv table" "permutes_leases order" "lease_admit order fence table = (r, table')"
  shows "case r of Inl _ \<Rightarrow> table' = table
         | Inr _ \<Rightarrow> lease_inv table' \<and> map_of table' (writer_child_id fence) = Some fence"
proof -
  have "lease_inv table'" using assms by (rule lease_admit_inv)
  moreover have "case r of Inl _ \<Rightarrow> table' = table
      | Inr _ \<Rightarrow> map_of table' (writer_child_id fence) = Some fence"
    using assms(3) by (auto simp: lease_admit_def Let_def update_conv' split: if_splits option.splits)
  ultimately show ?thesis by (simp split: sum.splits)
qed

lemma under_lease_cases:
  assumes "lease_inv table" "permutes_leases order"
    and "under_lease wrap order child ws run (gate, d, s, Some table, w) = (r, gate', d', s', leases', w')"
  obtains (refused) e where "r = Inl (wrap e)" "(gate', d', s', leases', w') = (gate, d, s, Some table, w)"
    | (leased) fence table1 leases2 where "ws = Inr (writer_write_set fence)" "lease_inv table1"
        "map_of table1 child = Some fence"
        "run (gate, d, s, Some table1, w) = (r, gate', d', s', leases2, w')"
        "leases' = map_option (\<lambda>t. snd (lease_release child t)) leases2"
proof (cases "rbind ws (writer_fence_new child 1)")
  case (Inl e)
  then show ?thesis using assms(3) by (intro refused [of e]) (auto simp: under_lease_def)
next
  case (Inr fence)
  then have fence: "ws = Inr (writer_write_set fence)" "writer_child_id fence = child"
    by (auto simp: rbind_eq_Inr_iff writer_fence_new_def split: if_splits)
  obtain res table1 where adm: "lease_admit order fence table = (res, table1)" by (rule prod.exhaust)
  note adm' = lease_admit_result [OF assms(1,2) adm]
  show ?thesis
  proof (cases res)
    case (Inl e)
    then show ?thesis
      using assms(3) Inr adm adm' by (intro refused [of e]) (auto simp: under_lease_def)
  next
    case res: (Inr u)
    obtain r2 g2 d2 s2 l2 w2 where run: "run (gate, d, s, Some table1, w) = (r2, g2, d2, s2, l2, w2)"
      by (metis prod.exhaust)
    show ?thesis
      using assms(3) Inr adm adm' res run fence by (intro leased [of fence table1 l2]) (simp_all add: under_lease_def)
  qed
qed

lemma under_lease_trace:
  assumes "lease_inv table" "permutes_leases order"
    and run: "\<And>l r g' d' s' w'. run (gate, d, s, l, w) = (r, g', d', s', w') \<Longrightarrow> g' = gate"
    and spawn: "under_lease wrap order child ws run (gate, d, s, Some table, w) = (r, gate', d', s', leases', w')"
  shows "gate' = gate
         \<and> ((\<exists>e. r = Inl (wrap e) \<and> (d', s', leases', w') = (d, s, Some table, w))
            \<or> (\<exists>fence table1 leases2. lease_inv table1 \<and> map_of table1 child = Some fence
                 \<and> run (gate, d, s, Some table1, w) = (r, gate', d', s', leases2, w')
                 \<and> (\<forall>t. leases' = Some t \<longrightarrow> child \<notin> fst ` set t)))"
  using assms(1,2) spawn
proof (cases rule: under_lease_cases)
  case (refused e)
  then show ?thesis by auto
next
  case (leased fence table1 leases2)
  have "gate' = gate" by (rule run [OF leased(4)])
  moreover have "\<forall>t. leases' = Some t \<longrightarrow> child \<notin> fst ` set t"
    using lease_release_gone by (auto simp: leased(5))
  ultimately show ?thesis using leased by blast
qed

section \<open>Properties\<close>

text \<open>
  C29. A spawn leaves nothing behind, whatever its executor does and however it ends. For a role child
  and for an explore child alike: when the lease is refused, nothing has changed; otherwise the child
  ran with a lease of its own in a table of pairwise disjoint leases, and afterwards the concurrency
  gate is exactly as before and the child holds no lease.
\<close>

theorem spawn_leaves_no_trace:
  assumes gate: "gate_inv gate" and table: "lease_inv table" and order: "permutes_leases order"
  shows "(harness_spawn_role R fs order req cancelled execute (gate, d, s, Some table, w) =
            (r, gate', d', s', leases', w') \<longrightarrow>
          gate' = gate
          \<and> ((\<exists>e. r = Inl (RoleChildError.WriteLease e) \<and> (d', s', leases', w') = (d, s, Some table, w))
             \<or> (\<exists>fence table1 leases2. lease_inv table1 \<and> map_of table1 (req_child_id req) = Some fence
                  \<and> role_run R req cancelled execute (gate, d, s, Some table1, w) = (r, gate', d', s', leases2, w')
                  \<and> (\<forall>t. leases' = Some t \<longrightarrow> req_child_id req \<notin> fst ` set t))))
         \<and> (harness_spawn_explore R order ereq cancelled eexecute (gate, d, s, Some table, w) =
              (er, gate', d', s', leases', w') \<longrightarrow>
            gate' = gate
            \<and> ((\<exists>e. er = Inl (ExploreChildError.WriteLease e) \<and> (d', s', leases', w') = (d, s, Some table, w))
               \<or> (\<exists>fence table1 leases2. lease_inv table1 \<and> map_of table1 (req_child_id ereq) = Some fence
                    \<and> explore_run R ereq cancelled eexecute (gate, d, s, Some table1, w) =
                        (er, gate', d', s', leases2, w')
                    \<and> (\<forall>t. leases' = Some t \<longrightarrow> req_child_id ereq \<notin> fst ` set t))))"
  unfolding harness_spawn_role_def harness_spawn_explore_def
  by (rule conjI; rule impI; rule under_lease_trace [OF table order])
     (assumption | erule role_run_gate [OF gate] | erule explore_run_gate [OF gate])+

text \<open>What is relied on of the database and the JSON library for a write to be readable afterwards.\<close>

definition db_reliable :: "'d ChildDb \<Rightarrow> bool" where
  "db_reliable D \<longleftrightarrow>
     (\<forall>row d. \<exists>d'. db_upsert D row d = (Inr (), d') \<and> db_select D d' (row_child_id row) = Inr (Some row))
     \<and> (\<forall>ls. \<exists>j. json_encode D ls = Inr j \<and> json_decode D j = Inr ls)"

lemma child_status_parse_str [simp]: "child_status_parse (child_status_str st) = Some st"
  by (cases st) (simp_all add: child_status_parse_def)

lemma trim_role_str: "trim (role_str r) \<noteq> []"
proof (cases r)
  case Explore then show ?thesis by simp code_simp
next
  case Research then show ?thesis by simp code_simp
next
  case Build then show ?thesis by simp code_simp
next
  case Review then show ?thesis by simp code_simp
qed

lemma record_then_load:
  assumes db: "db_reliable D" and r: "trim (result_child_id r) \<noteq> []" "trim (result_parent_id r) \<noteq> []"
    "trim (result_role_label r) \<noteq> []" "trim (result_summary_label r) \<noteq> []"
    "result_recorded_unix_ms r = 0"
  obtains d' where "record_result D now r d = (Inr (), d')"
    "load_result D d' (result_child_id r) = Inr (Some (r\<lparr>result_recorded_unix_ms := now\<rparr>))"
proof -
  obtain j where j: "json_encode D (result_artifact_ref_labels r) = Inr j"
    "json_decode D j = Inr (result_artifact_ref_labels r)"
    using db unfolding db_reliable_def by blast
  let ?row = "\<lparr>row_child_id = result_child_id r, row_parent_id = result_parent_id r,
      row_role_label = result_role_label r, row_status = child_status_str (result_status r),
      row_summary_label = result_summary_label r, row_artifact_json = j, row_recorded = now\<rparr>"
  obtain d' where d': "db_upsert D ?row d = (Inr (), d')" "db_select D d' (result_child_id r) = Inr (Some ?row)"
    using db unfolding db_reliable_def by (metis ChildRow.select_convs(1))
  show ?thesis
  proof (rule that)
    show "record_result D now r d = (Inr (), d')"
      using r j d' by (simp add: record_result_def validate_result_def)
    show "load_result D d' (result_child_id r) = Inr (Some (r\<lparr>result_recorded_unix_ms := now\<rparr>))"
      using r j d' by (simp add: load_result_def row_to_result_def)
  qed
qed

lemma role_to_metadata_fields:
  "role_to_metadata req = Inr md \<Longrightarrow>
   trim (req_parent_session_id req) \<noteq> [] \<and> trim (req_child_id req) \<noteq> []
   \<and> meta_parent_id md = req_parent_session_id req \<and> meta_role md = req_role req
   \<and> set (req_allowed_tools req) \<subseteq> set (allowed_tools_for (req_role req))"
proof -
  have tools: "validate_role_allowed_tools role tools = Inr u \<longleftrightarrow> set tools \<subseteq> set (allowed_tools_for role)"
    for role tools u by (induction tools) auto
  show "role_to_metadata req = Inr md \<Longrightarrow> ?thesis"
    by (auto simp: role_to_metadata_def rbind_eq_Inr_iff try_validated_iff tools split: if_splits sum.splits)
qed

text \<open>
  C30. What a role child run does once its request is valid and the gate has admitted it, over any
  database that keeps what it is given: it announces the child, executes it unless cancelled, gives
  its slot back and, unless the executor reports a blank summary, records the result under the child's
  id, from where it loads again with the status and the summary the run returns, and announces the
  end. A blank summary of a completed child is the one way to fail from here: nothing is recorded and
  the end is not announced.
\<close>

theorem role_child_result_durable:
  assumes db: "db_reliable (runner_db R)" and gate: "gate_inv gate"
    and md: "role_to_metadata req = Inr md"
    and adm: "admit_child (req_child_id req) (req_parent_session_id req) gate = (Inr u, gate1)"
    and exec: "child_execute R req md cancelled
                 \<lparr>env_child_id = req_child_id req, env_metadata = md,
                  env_context_label = req_context_label req, env_program = req_program req,
                  env_args = req_args req\<rparr> execute (s, w) = (res, s1, w1)"
    and out: "executor_outcome res = (st, label, labels)"
  shows "(trim label = [] \<longrightarrow>
            role_run R req cancelled execute (gate, d, s, w) = (Inl (RoleChildError.Store EmptySummaryLabel), gate, d, s1, w1))
         \<and> (trim label \<noteq> [] \<longrightarrow>
              (\<exists>d'. role_run R req cancelled execute (gate, d, s, w) =
                      (Inr \<lparr>outcome_child_id = req_child_id req,
                            outcome_parent_session_id = req_parent_session_id req,
                            outcome_status = st, outcome_summary_label = label, outcome_metadata = md\<rparr>,
                       gate, d',
                       emit_parent_child R log_finished (req_parent_session_id req)
                         (ChildEvent.Finished (req_child_id req) (child_status_str st)
                            (fst (finished_labels st label)) (snd (finished_labels st label))) s1, w1)
                    \<and> load_result (runner_db R) d' (req_child_id req) =
                        Inr (Some \<lparr>result_child_id = req_child_id req,
                                   result_parent_id = req_parent_session_id req,
                                   result_role_label = role_str (req_role req), result_status = st,
                                   result_summary_label = label, result_artifact_ref_labels = labels,
                                   result_recorded_unix_ms = runner_now R\<rparr>)))"
proof -
  note f = role_to_metadata_fields [OF md]
  note rel = admit_release [OF gate adm]
  let ?r = "(child_result_from_metadata (req_child_id req) md st label)\<lparr>result_artifact_ref_labels := labels\<rparr>"
  show ?thesis
  proof (cases "trim label = []")
    case True
    then have "record_result (runner_db R) (runner_now R) ?r d = (Inl EmptySummaryLabel, d)"
      using f trim_role_str [of "req_role req"]
      by (simp add: record_result_def validate_result_def child_result_from_metadata_def)
    then show ?thesis
      using True md adm exec out rel by (simp add: role_run_def child_body_def Let_def)
  next
    case False
    then obtain d' where d': "record_result (runner_db R) (runner_now R) ?r d = (Inr (), d')"
      "load_result (runner_db R) d' (req_child_id req) =
         Inr (Some (?r\<lparr>result_recorded_unix_ms := runner_now R\<rparr>))"
      using f trim_role_str [of "req_role req"] record_then_load [OF db, of ?r "runner_now R" d]
      by (auto simp: child_result_from_metadata_def)
    have "gate_parent_resume (runner_db R) d' (req_parent_session_id req) [req_child_id req] = Inr ()"
      using f d'(2) by (simp add: gate_parent_resume_def child_result_from_metadata_def)
    then have "role_run R req cancelled execute (gate, d, s, w) =
        (Inr \<lparr>outcome_child_id = req_child_id req, outcome_parent_session_id = req_parent_session_id req,
              outcome_status = st, outcome_summary_label = label, outcome_metadata = md\<rparr>,
         gate, d', emit_parent_child R log_finished (req_parent_session_id req)
           (ChildEvent.Finished (req_child_id req) (child_status_str st)
              (fst (finished_labels st label)) (snd (finished_labels st label))) s1, w1)"
      using md adm exec out rel d'(1) by (simp add: role_run_def child_body_def Let_def split_def)
    with False d'(2) f show ?thesis by (simp add: child_result_from_metadata_def)
  qed
qed

text \<open>A database that keeps its rows, with a JSON stand-in that marks every character of a label.\<close>

fun demo_decode :: "string \<Rightarrow> string \<Rightarrow> string list" where
  "demo_decode cur (CHR ''c'' # c # rest) = demo_decode (cur @ [c]) rest"
| "demo_decode cur (CHR ''e'' # rest) = cur # demo_decode [] rest"
| "demo_decode cur rest = []"

definition demo_encode :: "string list \<Rightarrow> string" where
  "demo_encode ls = concat (map (\<lambda>l. concat (map (\<lambda>c. [CHR ''c'', c]) l) @ ''e'') ls)"

lemma demo_decode_encode: "demo_decode [] (demo_encode ls) = ls"
proof -
  have "demo_decode cur (concat (map (\<lambda>c. [CHR ''c'', c]) l) @ rest) = demo_decode (cur @ l) rest" for cur l rest
    by (induction l arbitrary: cur) simp_all
  then show ?thesis by (induction ls) (simp_all add: demo_encode_def)
qed

definition demo_db :: "(string \<rightharpoonup> ChildRow) ChildDb" where
  "demo_db = \<lparr>db_upsert = (\<lambda>row d. (Inr (), d(row_child_id row \<mapsto> row))),
              db_select = (\<lambda>d child. Inr (d child)), db_select_parent = (\<lambda>d parent. Inr []),
              json_encode = (\<lambda>ls. Inr (demo_encode ls)), json_decode = (\<lambda>j. Inr (demo_decode [] j))\<rparr>"

lemma demo_db_reliable: "db_reliable demo_db"
  by (simp add: db_reliable_def demo_db_def demo_decode_encode)

definition demo_runner :: "(unit, string \<rightharpoonup> ChildRow) runner" where
  "demo_runner = \<lparr>runner_db = demo_db, runner_now = 7, runner_events = None\<rparr>"

definition demo_review :: RoleChildRequest where
  "demo_review = \<lparr>req_parent_session_id = ''p'', req_child_id = ''c'', req_cwd = ''/w'',
     req_allowed_tools = [''read''], req_context_label = ''review'', req_max_tokens = 10,
     req_max_time_ms = 10, req_max_depth = 1, req_role = Review, req_write_roots = [],
     req_worktree = None, req_program = None, req_args = []\<rparr>"

definition demo_execute :: "string \<Rightarrow> ('e, 's, 'w) executor" where
  "demo_execute label env mid c = (Inr \<lparr>out_summary_label = label, out_artifact_ref_labels = []\<rparr>, c)"

lemma demo_gate_inv: "gate_inv demo_gate"
  by (rule gate_inv_from_config [of "\<lparr>global_cap = 3, config_per_parent_cap = Some 1\<rparr>"])
     (simp add: gate_from_config_def demo_gate_def)

lemma demo_trims: "trim ''p'' = ''p''" "trim ''c'' = ''c''" "trim ''done'' = ''done''"
  by code_simp+

theorem role_child_result_durable_witness:
  "\<exists>d'. role_run demo_runner demo_review False (demo_execute ''done'') (demo_gate, Map.empty, (), ()) =
          (Inr \<lparr>outcome_child_id = ''c'', outcome_parent_session_id = ''p'',
                outcome_status = ChildResultStatus.Completed, outcome_summary_label = ''done'',
                outcome_metadata = projr (role_to_metadata demo_review)\<rparr>, demo_gate, d', (), ())
        \<and> is_ok (load_result demo_db d' ''c'')"
proof -
  obtain md where md: "role_to_metadata demo_review = Inr md"
    by (simp add: role_to_metadata_def demo_review_def demo_trims try_validated_def metadata_validate_def
        requires_worktree_def may_claim_write_roots_def REVIEW_ALLOWED_TOOLS_def)
  obtain gate1 where adm: "admit_child (req_child_id demo_review) (req_parent_session_id demo_review) demo_gate = (Inr (), gate1)"
    by (simp add: admit_child_def admit_for_parent_def demo_review_def demo_gate_def demo_trims Let_def
        active_count_for_parent_def)
  have db: "db_reliable (runner_db demo_runner)" by (simp add: demo_runner_def demo_db_reliable)
  have label: "trim ''done'' \<noteq> []" by (simp add: demo_trims)
  let ?env = "\<lparr>env_child_id = req_child_id demo_review, env_metadata = md,
      env_context_label = req_context_label demo_review, env_program = req_program demo_review,
      env_args = req_args demo_review\<rparr>"
  have exec: "child_execute demo_runner demo_review md False ?env (demo_execute ''done'') ((), ()) =
      (Inr \<lparr>out_summary_label = ''done'', out_artifact_ref_labels = []\<rparr>, (), ())"
    by (simp add: child_execute_def demo_execute_def)
  have out: "executor_outcome (Inr \<lparr>out_summary_label = ''done'', out_artifact_ref_labels = []\<rparr>) =
      (ChildResultStatus.Completed, ''done'', [])"
    by (simp add: executor_outcome_def)
  show ?thesis
    using role_child_result_durable [OF db demo_gate_inv md adm exec out, of Map.empty] label md
    by (auto simp: demo_review_def demo_runner_def)
qed

theorem spawn_leaves_no_trace_witness:
  "\<forall>fs. \<exists>r d' s' leases' w'.
     harness_spawn_role demo_runner fs (\<lambda>xs. xs) demo_review False (demo_execute ''done'')
       (demo_gate, Map.empty, (), Some [], ()) = (r, demo_gate, d', s', leases', w')"
proof
  fix fs
  obtain r gate' d' s' leases' w' where run:
    "harness_spawn_role demo_runner fs (\<lambda>xs. xs) demo_review False (demo_execute ''done'')
       (demo_gate, Map.empty, (), Some [], ()) = (r, gate', d', s', leases', w')"
    by (metis prod.exhaust)
  have inv: "lease_inv []" "permutes_leases (\<lambda>xs. xs)" by (simp_all add: lease_inv_def permutes_leases_def)
  from conjunct1 [OF spawn_leaves_no_trace [OF demo_gate_inv inv], THEN mp, OF run]
  have "gate' = demo_gate" by (rule conjunct1)
  then show "\<exists>r d' s' leases' w'.
      harness_spawn_role demo_runner fs (\<lambda>xs. xs) demo_review False (demo_execute ''done'')
        (demo_gate, Map.empty, (), Some [], ()) = (r, demo_gate, d', s', leases', w')"
    using run by blast
qed

end
