(* ===== verification/User_Intents.thy ===== *)
theory User_Intents
  imports Policy
begin

text \<open>
  The router of typed user prompts (\<open>crates/impetus-core/src/user_intent.rs\<close>): prompts, steers and
  queued follow-ups per session. The session table is a map, a follow-up queue a list with its front
  first.
\<close>

section \<open>The router\<close>

record UserIntentSubmission =
  submission_session_id :: uuid
  submission_intent :: UserPromptIntent
  submission_text :: string
  submission_origin :: ActionOrigin

record UserIntentAccepted =
  accepted_session_id :: uuid
  accepted_intent :: UserPromptIntent
  accepted_text :: string
  accepted_origin :: ActionOrigin
  accepted_active_run_id :: "uuid option"
  accepted_follow_up_position :: "nat option"

record QueuedFollowUp =
  queued_text :: string
  queued_origin :: ActionOrigin

datatype UserIntentError = UnknownSession uuid | NoActiveRun uuid | EmptyFanout

record UserIntentFanout =
  fanout_intent :: UserPromptIntent
  fanout_text :: string
  fanout_origin :: ActionOrigin

type_synonym FanoutResults = "uuid \<rightharpoonup> UserIntentError + UserIntentAccepted"

record SessionIntentState =
  intent_active_run_id :: "uuid option"
  intent_follow_ups :: "QueuedFollowUp list"

type_synonym UserIntentRouter = "uuid \<rightharpoonup> SessionIntentState"

definition router_new :: UserIntentRouter where
  "router_new = Map.empty"

definition open_session :: "uuid \<Rightarrow> UserIntentRouter \<Rightarrow> UserIntentRouter" where
  "open_session sid R =
     (case R sid of
        None \<Rightarrow> R(sid \<mapsto> \<lparr>intent_active_run_id = None, intent_follow_ups = []\<rparr>)
      | Some _ \<Rightarrow> R)"

definition has_session :: "UserIntentRouter \<Rightarrow> uuid \<Rightarrow> bool" where
  "has_session R sid \<longleftrightarrow> R sid \<noteq> None"

definition set_active_run ::
    "uuid \<Rightarrow> uuid option \<Rightarrow> UserIntentRouter \<Rightarrow> (UserIntentError + unit) \<times> UserIntentRouter" where
  "set_active_run sid run_id R =
     (case R sid of
        None \<Rightarrow> (Inl (UserIntentError.UnknownSession sid), R)
      | Some state \<Rightarrow> (Inr (), R(sid \<mapsto> state\<lparr>intent_active_run_id := run_id\<rparr>)))"

definition router_active_run_id :: "UserIntentRouter \<Rightarrow> uuid \<Rightarrow> UserIntentError + uuid option" where
  "router_active_run_id R sid =
     rbind (ok_or (R sid) (UserIntentError.UnknownSession sid)) (\<lambda>state. Inr (intent_active_run_id state))"

definition follow_ups :: "UserIntentRouter \<Rightarrow> uuid \<Rightarrow> UserIntentError + QueuedFollowUp list" where
  "follow_ups R sid =
     rbind (ok_or (R sid) (UserIntentError.UnknownSession sid)) (\<lambda>state. Inr (intent_follow_ups state))"

definition follow_up_len :: "UserIntentRouter \<Rightarrow> uuid \<Rightarrow> UserIntentError + nat" where
  "follow_up_len R sid =
     rbind (ok_or (R sid) (UserIntentError.UnknownSession sid)) (\<lambda>state. Inr (length (intent_follow_ups state)))"

text \<open>\<open>VecDeque::pop_front\<close>.\<close>

definition pop_front :: "'a list \<Rightarrow> 'a option \<times> 'a list" where
  "pop_front xs = (case xs of [] \<Rightarrow> (None, []) | x # rest \<Rightarrow> (Some x, rest))"

definition pop_follow_up ::
    "uuid \<Rightarrow> UserIntentRouter \<Rightarrow> (UserIntentError + QueuedFollowUp option) \<times> UserIntentRouter" where
  "pop_follow_up sid R =
     (case R sid of
        None \<Rightarrow> (Inl (UserIntentError.UnknownSession sid), R)
      | Some state \<Rightarrow>
          (case pop_front (intent_follow_ups state) of (f, rest) \<Rightarrow>
             (Inr f, R(sid \<mapsto> state\<lparr>intent_follow_ups := rest\<rparr>))))"

definition take_follow_up_on_run_terminal ::
    "uuid \<Rightarrow> uuid \<Rightarrow> UserIntentRouter \<Rightarrow> (UserIntentError + QueuedFollowUp option) \<times> UserIntentRouter" where
  "take_follow_up_on_run_terminal sid finished_run_id R =
     (case R sid of
        None \<Rightarrow> (Inl (UserIntentError.UnknownSession sid), R)
      | Some state \<Rightarrow>
          if intent_active_run_id state = Some finished_run_id
          then (case pop_front (intent_follow_ups state) of (f, rest) \<Rightarrow>
                  (Inr f, R(sid \<mapsto> state\<lparr>intent_active_run_id := None, intent_follow_ups := rest\<rparr>)))
          else (Inr None, R))"

definition submit ::
    "UserIntentSubmission \<Rightarrow> UserIntentRouter \<Rightarrow> (UserIntentError + UserIntentAccepted) \<times> UserIntentRouter" where
  "submit submission R =
     (let sid = submission_session_id submission in
      case R sid of
        None \<Rightarrow> (Inl (UserIntentError.UnknownSession sid), R)
      | Some state \<Rightarrow>
          (case submission_intent submission of
             Prompt \<Rightarrow>
               (Inr \<lparr>accepted_session_id = sid, accepted_intent = Prompt,
                     accepted_text = submission_text submission,
                     accepted_origin = submission_origin submission,
                     accepted_active_run_id = intent_active_run_id state,
                     accepted_follow_up_position = None\<rparr>, R)
           | Steer \<Rightarrow>
               (case intent_active_run_id state of
                  None \<Rightarrow> (Inl (NoActiveRun sid), R)
                | Some run_id \<Rightarrow>
                    (Inr \<lparr>accepted_session_id = sid, accepted_intent = Steer,
                          accepted_text = submission_text submission,
                          accepted_origin = submission_origin submission,
                          accepted_active_run_id = Some run_id,
                          accepted_follow_up_position = None\<rparr>, R))
           | FollowUp \<Rightarrow>
               (Inr \<lparr>accepted_session_id = sid, accepted_intent = FollowUp,
                     accepted_text = submission_text submission,
                     accepted_origin = submission_origin submission,
                     accepted_active_run_id = intent_active_run_id state,
                     accepted_follow_up_position = Some (length (intent_follow_ups state))\<rparr>,
                R(sid \<mapsto> state\<lparr>intent_follow_ups := intent_follow_ups state @
                     [\<lparr>queued_text = submission_text submission,
                       queued_origin = submission_origin submission\<rparr>]\<rparr>))))"

fun fanout_loop ::
    "UserIntentFanout \<Rightarrow> uuid list \<Rightarrow> FanoutResults \<times> UserIntentRouter \<Rightarrow> FanoutResults \<times> UserIntentRouter" where
  "fanout_loop f [] c = c"
| "fanout_loop f (sid # sids) (results, R) =
     (case submit \<lparr>submission_session_id = sid, submission_intent = fanout_intent f,
                   submission_text = fanout_text f, submission_origin = fanout_origin f\<rparr> R of
        (outcome, R') \<Rightarrow> fanout_loop f sids (results(sid \<mapsto> outcome), R'))"

definition fanout ::
    "UserIntentFanout \<Rightarrow> uuid list \<Rightarrow> UserIntentRouter \<Rightarrow> (UserIntentError + FanoutResults) \<times> UserIntentRouter" where
  "fanout f sids R =
     (if sids = [] then (Inl EmptyFanout, R)
      else case fanout_loop f sids (Map.empty, R) of (results, R') \<Rightarrow> (Inr results, R'))"

section \<open>Follow-ups are delivered once and in order\<close>

text \<open>
  A history of the router, with the follow-ups accepted so far and the follow-ups handed out so far,
  per session.
\<close>

type_synonym follow_up_log = "uuid \<Rightarrow> QueuedFollowUp list"

definition queued_by :: "UserIntentSubmission \<Rightarrow> UserIntentError + UserIntentAccepted \<Rightarrow> QueuedFollowUp list" where
  "queued_by s r =
     (if submission_intent s = FollowUp \<and> is_ok r
      then [\<lparr>queued_text = submission_text s, queued_origin = submission_origin s\<rparr>] else [])"

definition handed_out :: "UserIntentError + QueuedFollowUp option \<Rightarrow> QueuedFollowUp list" where
  "handed_out r = (case r of Inr (Some f) \<Rightarrow> [f] | _ \<Rightarrow> [])"

inductive router_run :: "UserIntentRouter \<Rightarrow> follow_up_log \<Rightarrow> follow_up_log \<Rightarrow> bool" where
  ur_new: "router_run router_new (\<lambda>_. []) (\<lambda>_. [])"
| ur_open: "router_run R q h \<Longrightarrow> router_run (open_session sid R) q h"
| ur_active: "router_run R q h \<Longrightarrow> router_run (snd (set_active_run sid run_id R)) q h"
| ur_submit: "router_run R q h \<Longrightarrow> submit s R = (r, R') \<Longrightarrow>
    router_run R' (q(submission_session_id s := q (submission_session_id s) @ queued_by s r)) h"
| ur_pop: "router_run R q h \<Longrightarrow> pop_follow_up sid R = (r, R') \<Longrightarrow>
    router_run R' q (h(sid := h sid @ handed_out r))"
| ur_take: "router_run R q h \<Longrightarrow> take_follow_up_on_run_terminal sid run_id R = (r, R') \<Longrightarrow>
    router_run R' q (h(sid := h sid @ handed_out r))"

definition queue_of :: "UserIntentRouter \<Rightarrow> uuid \<Rightarrow> QueuedFollowUp list" where
  "queue_of R sid = (case R sid of None \<Rightarrow> [] | Some st \<Rightarrow> intent_follow_ups st)"

lemma queue_of_open [simp]: "queue_of (open_session i R) sid = queue_of R sid"
  by (auto simp: queue_of_def open_session_def split: option.splits)

lemma queue_of_set_active [simp]: "queue_of (snd (set_active_run i r R)) sid = queue_of R sid"
  by (auto simp: queue_of_def set_active_run_def split: option.splits)

lemma queue_of_submit:
  "submit s R = (r, R') \<Longrightarrow>
   queue_of R' sid = queue_of R sid @ (if sid = submission_session_id s then queued_by s r else [])"
  by (auto simp: queue_of_def submit_def queued_by_def Let_def
      split: option.splits UserPromptIntent.splits)

lemma queue_of_pop:
  "pop_follow_up i R = (r, R') \<Longrightarrow>
   queue_of R sid = (if sid = i then handed_out r else []) @ queue_of R' sid"
  by (auto simp: queue_of_def pop_follow_up_def pop_front_def handed_out_def
      split: option.splits list.splits prod.splits)

lemma queue_of_take:
  "take_follow_up_on_run_terminal i run R = (r, R') \<Longrightarrow>
   queue_of R sid = (if sid = i then handed_out r else []) @ queue_of R' sid"
  by (auto simp: queue_of_def take_follow_up_on_run_terminal_def pop_front_def handed_out_def
      split: option.splits list.splits prod.splits if_splits)

lemma router_run_queue: "router_run R q h \<Longrightarrow> q sid = h sid @ queue_of R sid"
proof (induction arbitrary: sid rule: router_run.induct)
  case ur_new
  then show ?case by (simp add: queue_of_def router_new_def)
next
  case (ur_submit R q h s r R')
  then show ?case using queue_of_submit [OF ur_submit.hyps(2), of sid] by simp
next
  case (ur_pop R q h i r R')
  then show ?case using queue_of_pop [OF ur_pop.hyps(2), of sid] by (auto split: if_splits)
next
  case (ur_take R q h i run r R')
  then show ?case using queue_of_take [OF ur_take.hyps(2), of sid] by (auto split: if_splits)
qed simp_all

text \<open>
  C31. Follow-ups are delivered at most once and in order: after any history of the router, for every
  session, what was handed out is the beginning of what was queued, with text and origin as submitted,
  and the rest is what still waits. A run that ends twice, when a cancellation races with the end of
  its loop, hands out at most one follow-up: the second end finds nothing and changes nothing.
\<close>

theorem follow_ups_once_in_order:
  assumes "router_run R q h" and "take_follow_up_on_run_terminal sid run_id R = (r, R')"
  shows "q sid = h sid @ queue_of R sid
         \<and> (\<forall>f. r = Inr (Some f) \<longrightarrow> q sid ! length (h sid) = f \<and> length (h sid) < length (q sid))
         \<and> (is_ok r \<longrightarrow> take_follow_up_on_run_terminal sid run_id R' = (Inr None, R'))"
proof -
  have q: "q sid = h sid @ queue_of R sid" by (rule router_run_queue [OF assms(1)])
  have "queue_of R sid = handed_out r @ queue_of R' sid"
    using queue_of_take [OF assms(2), of sid] by simp
  moreover have "is_ok r \<longrightarrow> take_follow_up_on_run_terminal sid run_id R' = (Inr None, R')"
    using assms(2)
    by (auto simp: take_follow_up_on_run_terminal_def split: option.splits if_splits prod.splits)
  ultimately show ?thesis using q by (auto simp: handed_out_def)
qed

theorem follow_ups_once_in_order_witness:
  "\<exists>R q h f R'. router_run R q h
     \<and> take_follow_up_on_run_terminal 1 9 R = (Inr (Some f), R')
     \<and> queued_text f = ''next'' \<and> take_follow_up_on_run_terminal 1 9 R' = (Inr None, R')"
proof -
  let ?s = "\<lparr>submission_session_id = 1, submission_intent = FollowUp, submission_text = ''next'',
      submission_origin = ActionOrigin.User\<rparr>"
  let ?f = "\<lparr>queued_text = ''next'', queued_origin = ActionOrigin.User\<rparr>"
  let ?R1 = "snd (set_active_run 1 (Some 9) (open_session 1 router_new))"
  obtain r R where sub: "submit ?s ?R1 = (r, R)" by (rule prod.exhaust)
  have run: "router_run R ((\<lambda>_. [])(1 := [] @ queued_by ?s r)) (\<lambda>_. [])"
    using ur_submit [OF ur_active [OF ur_open [OF ur_new]] sub] by simp
  have R: "R = [1 \<mapsto> \<lparr>intent_active_run_id = Some 9, intent_follow_ups = [?f]\<rparr>]"
    using sub by (auto simp: submit_def set_active_run_def open_session_def router_new_def Let_def)
  obtain R' where take: "take_follow_up_on_run_terminal 1 9 R = (Inr (Some ?f), R')"
    by (simp add: R take_follow_up_on_run_terminal_def pop_front_def)
  show ?thesis
    using follow_ups_once_in_order [OF run take] run take
    by (intro exI [of _ R] exI [of _ "(\<lambda>_. [])(1 := [] @ queued_by ?s r)"] exI [of _ "\<lambda>_. []"]
        exI [of _ ?f] exI [of _ R']) simp
qed

end
