(* ===== verification/Workflow_Runtime.thy ===== *)
theory Workflow_Runtime
  imports Workflow_Engine Child_Runs User_Intents
begin

text \<open>
  The live workflow runtime (\<open>crates/impetus-core/src/workflow_runtime.rs\<close>): per session a workflow
  engine and its scheduler; every ready step is begun, run as a child under the shared gate and lease
  table, and completed, failed or cancelled by the child's outcome.

  The lock on the session table is released while a child runs. What other threads do to the table
  meanwhile is the argument \<open>interfere\<close>, any function on it. The worktree manager, which drives git
  and a database, is a record of its operations, a parameter; so are the executors, the uuid crate and
  the texts of the derived error types. A cancellation token is its step's key in the table; whether it
  was cancelled when the child polled it is read off the world.
\<close>

section \<open>State\<close>

datatype WorkflowRuntimeError =
    Workflow WorkflowError
  | NoReadyStep
  | NotConfigured
  | RoleChild string
  | ExploreChild string
  | UnknownSession uuid
  | WriteLease WriteSetError

record SessionWorkflow =
  sw_engine :: WorkflowEngine
  sw_scheduler :: InMemoryAgentScheduler
  sw_step_cancels :: "string list"
  sw_cwd :: string

type_synonym sessions = "uuid \<rightharpoonup> SessionWorkflow"

datatype WorktreeLifecycleState = Active | Stopped | Stale | Closed

record WorktreeBinding =
  binding_worktree_id :: string
  binding_path :: string
  binding_state :: WorktreeLifecycleState

record 'm WorktreeManager =
  wm_get_by_session :: "'m \<Rightarrow> uuid \<Rightarrow> string + WorktreeBinding option"
  wm_resume :: "uuid \<Rightarrow> 'm \<Rightarrow> (string + WorktreeBinding) \<times> 'm"
  wm_create_for_build :: "uuid \<Rightarrow> string \<Rightarrow> 'm \<Rightarrow> (string + WorktreeBinding) \<times> 'm"
  wm_stop :: "uuid \<Rightarrow> 'm \<Rightarrow> (string + WorktreeBinding) \<times> 'm"
  wm_close :: "uuid \<Rightarrow> 'm \<Rightarrow> (string + WorktreeBinding) \<times> 'm"

record ('s, 'd, 'm, 'w) runtime_config =
  rc_runner :: "'w \<Rightarrow> ('s, 'd) runner"
  rc_cancelled :: "'w \<Rightarrow> bool"
  rc_role_executor :: "(RoleChildEnv, 's, WriterLeaseTable option \<times> 'w) executor"
  rc_explore_executor :: "(ExploreChildEnv, 's, WriterLeaseTable option \<times> 'w) executor"
  rc_worktrees :: "'m WorktreeManager option"
  rc_fs :: file_system
  rc_lease_order :: lease_order
  rc_id_order :: id_order
  rc_uuid_text :: "uuid \<Rightarrow> string"
  rc_role_error_text :: "RoleChildError \<Rightarrow> string"
  rc_explore_error_text :: "ExploreChildError \<Rightarrow> string"

text \<open>What a spawn works on: the state of a child run and the state of the worktree manager.\<close>

type_synonym ('s, 'd, 'm, 'w) spawn_state =
  "('s, 'd, WriterLeaseTable option \<times> 'w) child_state \<times> 'm"

section \<open>Cancelling and starting\<close>

definition default_budget :: WorkflowBudget where
  "default_budget = \<lparr>wb_max_tokens = None, wb_max_wall_ms = None, wb_max_retries = 0\<rparr>"

definition release_worktree :: "'m WorktreeManager option \<Rightarrow> uuid \<Rightarrow> 'm \<Rightarrow> 'm" where
  "release_worktree M sid m =
     (case M of
        None \<Rightarrow> m
      | Some mgr \<Rightarrow>
          (case wm_get_by_session mgr m sid of
             Inr (Some binding) \<Rightarrow>
               (case binding_state binding of
                  Active \<Rightarrow> snd (wm_stop mgr sid m)
                | Stale \<Rightarrow> snd (wm_close mgr sid m)
                | Stopped \<Rightarrow> m
                | Closed \<Rightarrow> m)
           | _ \<Rightarrow> m))"

text \<open>
  The cancelled engine and scheduler go out with the removed entry; what is left to see is that the
  entry is gone, its tokens are cancelled and the worktree is released. The result names the tokens.
\<close>

definition cancel_session ::
    "'m WorktreeManager option \<Rightarrow> uuid \<Rightarrow> sessions \<times> 'm \<Rightarrow> string list \<times> sessions \<times> 'm" where
  "cancel_session M sid c =
     (case c of (sessions, m) \<Rightarrow>
        (case sessions sid of None \<Rightarrow> [] | Some sw \<Rightarrow> sw_step_cancels sw,
         sessions(sid := None), release_worktree M sid m))"

definition runtime_start ::
    "('s, 'd, 'm, 'w) runtime_config \<Rightarrow> uuid \<Rightarrow> WorkflowRecipe \<Rightarrow> string \<Rightarrow> sessions \<times> 'm
     \<Rightarrow> ((WorkflowRuntimeError + unit) \<times> sessions \<times> 'm) option" where
  "runtime_start C sid recipe cwd c =
     (case snd (cancel_session (rc_worktrees C) sid c) of (sessions, m) \<Rightarrow>
        (case engine_new (rc_id_order C) recipe default_budget of
           None \<Rightarrow> None
         | Some (Inl e) \<Rightarrow> Some (Inl (Workflow e), sessions, m)
         | Some (Inr engine) \<Rightarrow>
             Some (Inr (),
                   sessions(sid \<mapsto> \<lparr>sw_engine = snd (workflow_start engine), sw_scheduler = scheduler_new,
                                    sw_step_cancels = [], sw_cwd = cwd\<rparr>), m)))"

definition runtime_replace ::
    "('s, 'd, 'm, 'w) runtime_config \<Rightarrow> uuid \<Rightarrow> WorkflowRecipe \<Rightarrow> string \<Rightarrow> sessions \<times> 'm
     \<Rightarrow> ((WorkflowRuntimeError + unit) \<times> sessions \<times> 'm) option" where
  "runtime_replace C sid recipe cwd c =
     runtime_start C sid recipe cwd (snd (cancel_session (rc_worktrees C) sid c))"

definition runtime_status :: "sessions \<Rightarrow> uuid \<Rightarrow> WorkflowStatus option" where
  "runtime_status sessions sid = map_option (\<lambda>sw. eng_status (sw_engine sw)) (sessions sid)"

definition on_session_run_terminal ::
    "'m WorktreeManager option \<Rightarrow> uuid \<Rightarrow> uuid \<Rightarrow> UserIntentRouter \<Rightarrow> sessions \<times> 'm
     \<Rightarrow> (WorkflowRuntimeError + QueuedFollowUp option) \<times> UserIntentRouter \<times> sessions \<times> 'm" where
  "on_session_run_terminal M sid finished_run_id intents c =
     (case take_follow_up_on_run_terminal sid finished_run_id intents of
        (Inl _, intents') \<Rightarrow>
          (Inl (WorkflowRuntimeError.UnknownSession sid), intents', snd (cancel_session M sid c))
      | (Inr f, intents') \<Rightarrow> (Inr f, intents', snd (cancel_session M sid c)))"

section \<open>Spawning a step\<close>

text \<open>The worktree of a build step, with the messages of the sources in front of the manager's.\<close>

definition build_worktree ::
    "'m WorktreeManager option \<Rightarrow> uuid \<Rightarrow> string \<Rightarrow> 'm \<Rightarrow> (WorkflowRuntimeError + WorktreeBinding) \<times> 'm" where
  "build_worktree M sid cwd m =
     (case M of
        None \<Rightarrow> (Inl (RoleChild ''Build role requires WorktreeManager; synthetic worktree ids removed''), m)
      | Some mgr \<Rightarrow>
          (let create = smap_err (\<lambda>e. RoleChild (''worktree create_for_role: '' @ e))
                          (wm_create_for_build mgr sid cwd m)
           in case wm_get_by_session mgr m sid of
                Inl e \<Rightarrow> (Inl (RoleChild (''worktree lookup: '' @ e)), m)
              | Inr None \<Rightarrow> create
              | Inr (Some existing) \<Rightarrow>
                  (case binding_state existing of
                     Active \<Rightarrow> (Inr existing, m)
                   | Stopped \<Rightarrow> smap_err (\<lambda>e. RoleChild (''worktree resume: '' @ e)) (wm_resume mgr sid m)
                   | Stale \<Rightarrow> smap_err (\<lambda>e. RoleChild (''worktree resume: '' @ e)) (wm_resume mgr sid m)
                   | Closed \<Rightarrow> create)))"

definition role_request ::
    "(uuid \<Rightarrow> string) \<Rightarrow> uuid \<Rightarrow> string \<Rightarrow> SubagentRole \<Rightarrow> string \<Rightarrow> WorktreeBinding option \<Rightarrow> RoleChildRequest" where
  "role_request uuid_text sid step role cwd binding =
     \<lparr>req_parent_session_id = uuid_text sid, req_child_id = uuid_text sid @ ''-'' @ step,
      req_cwd = (case binding of None \<Rightarrow> cwd | Some b \<Rightarrow> binding_path b),
      req_allowed_tools = allowed_tools_for role, req_context_label = step, req_max_tokens = 1000,
      req_max_time_ms = 30000, req_max_depth = 2, req_role = role,
      req_write_roots = (case binding of None \<Rightarrow> [] | Some b \<Rightarrow> [binding_path b]),
      req_worktree = map_option binding_worktree_id binding, req_program = None, req_args = []\<rparr>"

definition explore_request :: "(uuid \<Rightarrow> string) \<Rightarrow> uuid \<Rightarrow> string \<Rightarrow> string \<Rightarrow> ExploreChildRequest" where
  "explore_request uuid_text sid step cwd =
     \<lparr>req_parent_session_id = uuid_text sid, req_child_id = uuid_text sid @ ''-'' @ step, req_cwd = cwd,
      req_allowed_tools = EXPLORE_ALLOWED_TOOLS, req_context_label = step, req_max_tokens = 1000,
      req_max_time_ms = 30000, req_max_depth = 2\<rparr>"

text \<open>The clock and the token are read from the world as it is when the spawn starts.\<close>

definition spawn_role ::
    "('s, 'd, 'm, 'w) runtime_config \<Rightarrow> uuid \<Rightarrow> string \<Rightarrow> SubagentRole \<Rightarrow> string
     \<Rightarrow> ('s, 'd, 'm, 'w) spawn_state
     \<Rightarrow> (WorkflowRuntimeError + ChildResultStatus \<times> string) \<times> ('s, 'd, 'm, 'w) spawn_state" where
  "spawn_role C sid step role cwd st =
     (case st of (c, m) \<Rightarrow>
        (case (if role = Build then (case build_worktree (rc_worktrees C) sid cwd m of
                  (Inl e, m') \<Rightarrow> (Inl e, m')
                | (Inr b, m') \<Rightarrow> (Inr (Some b), m'))
               else (Inr None, m)) of
           (Inl e, m') \<Rightarrow> (Inl e, c, m')
         | (Inr binding, m') \<Rightarrow>
             (let req = role_request (rc_uuid_text C) sid step role cwd binding;
                  w = snd (snd (snd (snd c)))
              in case under_lease WorkflowRuntimeError.WriteLease (rc_lease_order C) (req_child_id req)
                        (write_set_from_roots (rc_fs C) (req_cwd req) (req_write_roots req))
                        (\<lambda>c'. smap_err (\<lambda>e. RoleChild (rc_role_error_text C e))
                           (role_run (rc_runner C w) req (rc_cancelled C w) (rc_role_executor C) c')) c of
                   (Inl e, c') \<Rightarrow> (Inl e, c', m')
                 | (Inr out, c') \<Rightarrow> (Inr (outcome_status out, outcome_summary_label out), c', m'))))"

definition spawn_explore ::
    "('s, 'd, 'm, 'w) runtime_config \<Rightarrow> uuid \<Rightarrow> string \<Rightarrow> string \<Rightarrow> ('s, 'd, 'm, 'w) spawn_state
     \<Rightarrow> (WorkflowRuntimeError + ChildResultStatus \<times> string) \<times> ('s, 'd, 'm, 'w) spawn_state" where
  "spawn_explore C sid step cwd st =
     (case st of (c, m) \<Rightarrow>
        (let req = explore_request (rc_uuid_text C) sid step cwd;
             w = snd (snd (snd (snd c)))
         in case under_lease WorkflowRuntimeError.WriteLease (rc_lease_order C) (req_child_id req)
                   (explore_readonly_write_set (req_child_id req))
                   (\<lambda>c'. smap_err (\<lambda>e. ExploreChild (rc_explore_error_text C e))
                      (explore_run (rc_runner C w) req (rc_cancelled C w) (rc_explore_executor C) c')) c of
              (Inl e, c') \<Rightarrow> (Inl e, c', m)
            | (Inr out, c') \<Rightarrow> (Inr (outcome_status out, outcome_summary_label out), c', m)))"

definition spawn_step ::
    "('s, 'd, 'm, 'w) runtime_config \<Rightarrow> uuid \<Rightarrow> string \<Rightarrow> SubagentRole option \<Rightarrow> string
     \<Rightarrow> ('s, 'd, 'm, 'w) spawn_state
     \<Rightarrow> (WorkflowRuntimeError + ChildResultStatus \<times> string) \<times> ('s, 'd, 'm, 'w) spawn_state" where
  "spawn_step C sid step role cwd st =
     (case role of
        Some Explore \<Rightarrow> spawn_explore C sid step cwd st
      | Some r \<Rightarrow> spawn_role C sid step r cwd st
      | None \<Rightarrow> (Inr (ChildResultStatus.Completed, ''approval-skip''), st))"

section \<open>Advancing\<close>

text \<open>The part of \<open>run_next_ready_step\<close> before the lock is released.\<close>

definition step_begin ::
    "uuid \<Rightarrow> sessions \<Rightarrow> (WorkflowRuntimeError + string \<times> SubagentRole option \<times> string) \<times> sessions" where
  "step_begin sid sessions =
     (case sessions sid of
        None \<Rightarrow> (Inl (WorkflowRuntimeError.UnknownSession sid), sessions)
      | Some sw \<Rightarrow>
          if eng_status (sw_engine sw) \<in> {WorkflowStatus.Completed, WorkflowStatus.Cancelled,
               WorkflowStatus.Failed, WorkflowStatus.BudgetExhausted}
          then (Inl (Workflow (AlreadyFinished (eng_status (sw_engine sw)))), sessions)
          else (case next_ready_step (sw_engine sw) of
            None \<Rightarrow> (Inl NoReadyStep, sessions)
          | Some s \<Rightarrow>
              (case begin_step_with_scheduler (step_id s) (sw_engine sw, sw_scheduler sw) of
                 (r, e, sch) \<Rightarrow>
                   (let sw1 = sw\<lparr>sw_engine := e, sw_scheduler := sch\<rparr> in
                    case rbind r (\<lambda>_. step_role e (step_id s)) of
                      Inl err \<Rightarrow> (Inl (Workflow err), sessions(sid \<mapsto> sw1))
                    | Inr role \<Rightarrow>
                        (Inr (step_id s, role, sw_cwd sw),
                         sessions(sid \<mapsto> sw1\<lparr>sw_step_cancels :=
                           List.insert (step_id s) (sw_step_cancels sw1)\<rparr>))))))"

definition cancel_opt :: "string option \<Rightarrow> InMemoryAgentScheduler \<Rightarrow> InMemoryAgentScheduler" where
  "cancel_opt sid sch = (case sid of None \<Rightarrow> sch | Some i \<Rightarrow> snd (schedule_cancel i sch))"

text \<open>The part after the child has run, under the lock again.\<close>

definition step_finish ::
    "uuid \<Rightarrow> string \<Rightarrow> ChildResultStatus \<times> string \<Rightarrow> sessions \<Rightarrow> (WorkflowRuntimeError + string) \<times> sessions" where
  "step_finish sid step child_out sessions =
     (case sessions sid of
        None \<Rightarrow> (Inl (WorkflowRuntimeError.UnknownSession sid), sessions)
      | Some sw0 \<Rightarrow>
          (let sw = sw0\<lparr>sw_step_cancels := removeAll step (sw_step_cancels sw0)\<rparr>;
               put = (\<lambda>c. sessions(sid \<mapsto> sw\<lparr>sw_engine := fst c, sw_scheduler := snd c\<rparr>));
               (st, summary) = child_out
           in case st of
                ChildResultStatus.Completed \<Rightarrow>
                  (case complete_step_with_scheduler step summary 1 1 (sw_engine sw, sw_scheduler sw) of
                     (Inl err, c) \<Rightarrow> (Inl (Workflow err), put c)
                   | (Inr _, c) \<Rightarrow> (Inr summary, put c))
              | ChildResultStatus.Failed \<Rightarrow>
                  (let schedule_id = Option.bind (checkpoint (sw_engine sw) step) cp_schedule_id in
                   case fail_step step summary 1 1 (sw_engine sw) of (r, e) \<Rightarrow>
                     (case r of
                        Inl (RetriesExhausted _) \<Rightarrow>
                          (Inr summary, put (e, cancel_opt schedule_id (sw_scheduler sw)))
                      | Inr _ \<Rightarrow> (Inr summary, put (e, cancel_opt schedule_id (sw_scheduler sw)))
                      | Inl err \<Rightarrow> (Inl (Workflow err), put (e, sw_scheduler sw))))
              | ChildResultStatus.Cancelled \<Rightarrow>
                  (Inr summary, put (cancel_with_scheduler (sw_engine sw, sw_scheduler sw)))))"

text \<open>What other threads do to the session table while the child runs may depend on the world.\<close>

definition run_next_ready_step ::
    "('s, 'd, 'm, 'w) runtime_config \<Rightarrow> ('w \<Rightarrow> sessions \<Rightarrow> sessions) \<Rightarrow> uuid
     \<Rightarrow> sessions \<times> ('s, 'd, 'm, 'w) spawn_state
     \<Rightarrow> (WorkflowRuntimeError + string) \<times> sessions \<times> ('s, 'd, 'm, 'w) spawn_state" where
  "run_next_ready_step C interfere sid c =
     (case c of (sessions, st) \<Rightarrow>
        (case step_begin sid sessions of
           (Inl e, sessions1) \<Rightarrow> (Inl e, sessions1, st)
         | (Inr (step, role, cwd), sessions1) \<Rightarrow>
             (case spawn_step C sid step role cwd st of
                (spawned, st1) \<Rightarrow>
                  (let sessions2 = interfere (snd (snd (snd (snd (fst st1))))) sessions1 in
                   case spawned of
                     Inl e \<Rightarrow> (Inl e, sessions2, st1)
                   | Inr out \<Rightarrow>
                       (case step_finish sid step out sessions2 of (r, sessions3) \<Rightarrow> (r, sessions3, st1))))))"

partial_function (option) advance_until_blocked ::
    "('s, 'd, 'm, 'w) runtime_config \<Rightarrow> ('w \<Rightarrow> sessions \<Rightarrow> sessions) \<Rightarrow> uuid
     \<Rightarrow> sessions \<times> ('s, 'd, 'm, 'w) spawn_state
     \<Rightarrow> ((WorkflowRuntimeError + WorkflowStatus) \<times> sessions \<times> ('s, 'd, 'm, 'w) spawn_state) option" where
  "advance_until_blocked C interfere sid c =
     (case run_next_ready_step C interfere sid c of
        (Inr _, c') \<Rightarrow> advance_until_blocked C interfere sid c'
      | (Inl e, c') \<Rightarrow>
          (case e of
             NoReadyStep \<Rightarrow> Some (Inr (unwrap_or (runtime_status (fst c') sid) WorkflowStatus.Completed), c')
           | Workflow (AlreadyFinished finished) \<Rightarrow> Some (Inr finished, c')
           | Workflow (BlockedByDependency _ _) \<Rightarrow>
               Some (Inr (unwrap_or (runtime_status (fst c') sid) WorkflowStatus.Running), c')
           | _ \<Rightarrow> Some (Inl e, c')))"

section \<open>Every engine stays consistent\<close>

definition runtime_inv :: "sessions \<Rightarrow> bool" where
  "runtime_inv sessions \<longleftrightarrow> (\<forall>sid sw. sessions sid = Some sw \<longrightarrow> engine_inv (sw_engine sw))"

lemma runtime_invD: "runtime_inv sessions \<Longrightarrow> sessions sid = Some sw \<Longrightarrow> engine_inv (sw_engine sw)"
  by (simp add: runtime_inv_def)

lemma runtime_inv_put:
  "runtime_inv sessions \<Longrightarrow> engine_inv (sw_engine sw) \<Longrightarrow> runtime_inv (sessions(sid \<mapsto> sw))"
  by (simp add: runtime_inv_def)

lemma runtime_inv_cancel: "runtime_inv (fst c) \<Longrightarrow> runtime_inv (fst (snd (cancel_session M sid c)))"
  by (auto simp: cancel_session_def runtime_inv_def split: prod.splits)

lemma runtime_inv_start:
  assumes perm: "\<forall>xs. mset (rc_id_order C xs) = mset xs" and inv: "runtime_inv (fst c)"
    and start: "runtime_start C sid recipe cwd c = Some (r, c')"
  shows "runtime_inv (fst c')"
proof -
  obtain sessions m where c: "snd (cancel_session (rc_worktrees C) sid c) = (sessions, m)" by (rule prod.exhaust)
  have inv': "runtime_inv sessions" using runtime_inv_cancel [OF inv, of "rc_worktrees C" sid] by (simp add: c)
  obtain v where v: "engine_new (rc_id_order C) recipe default_budget = Some v"
    using start by (cases "engine_new (rc_id_order C) recipe default_budget") (simp_all add: runtime_start_def c)
  show ?thesis
  proof (cases v)
    case (Inl e)
    then have "c' = (sessions, m)" using start by (simp add: runtime_start_def c v)
    then show ?thesis using inv' by simp
  next
    case (Inr engine)
    have "engine_inv (snd (workflow_start engine))"
      using engine_inv_new [OF perm] v Inr by (auto intro: engine_inv_start)
    then have "runtime_inv (sessions(sid \<mapsto> \<lparr>sw_engine = snd (workflow_start engine),
        sw_scheduler = scheduler_new, sw_step_cancels = [], sw_cwd = cwd\<rparr>))"
      using inv' by (simp add: runtime_inv_put)
    then show ?thesis using start Inr by (auto simp: runtime_start_def c v)
  qed
qed

lemma begin_sched_ok:
  "begin_step_with_scheduler i (e, sch) = (Inr adm, e', sch') \<Longrightarrow>
   \<exists>cp. checkpoint e i = Some cp \<and> cp_status cp = StepStatus.Pending \<and>
        e' = put_checkpoint i (cp\<lparr>cp_status := StepStatus.Running,
               cp_schedule_id := Some (admission_schedule_id adm),
               cp_result_slot := Some (admission_result_slot adm)\<rparr>) e"
  by (auto simp: begin_step_with_scheduler_def split: prod.splits sum.splits option.splits dest!: begin_checks_ok)

text \<open>A successful beginning: the chosen step was the next ready one and is running now.\<close>

lemma step_begin_ok:
  assumes inv: "runtime_inv sessions" and ok: "step_begin sid sessions = (Inr (step, role, cwd), sessions')"
  obtains sw sw' s cp cp' where "sessions sid = Some sw" "sessions' = sessions(sid \<mapsto> sw')"
    "unfinished (sw_engine sw)" "next_ready_step (sw_engine sw) = Some s" "step = step_id s"
    "checkpoint (sw_engine sw) step = Some cp" "cp_status cp = StepStatus.Pending"
    "sw_engine sw' = put_checkpoint step cp' (sw_engine sw)"
    "cp_status cp' = StepStatus.Running" "cp_attempts cp' = cp_attempts cp" "engine_inv (sw_engine sw')"
proof -
  obtain sw where sw: "sessions sid = Some sw" using ok by (auto simp: step_begin_def split: option.splits)
  have un: "unfinished (sw_engine sw)"
    using ok sw by (cases "eng_status (sw_engine sw)") (simp_all add: step_begin_def)
  obtain s where s: "next_ready_step (sw_engine sw) = Some s"
    using ok sw un by (auto simp: step_begin_def split: option.splits if_splits)
  obtain r e sch where b: "begin_step_with_scheduler (step_id s) (sw_engine sw, sw_scheduler sw) = (r, e, sch)"
    by (metis prod.exhaust)
  let ?sw = "sw\<lparr>sw_engine := e, sw_scheduler := sch, sw_step_cancels := List.insert (step_id s) (sw_step_cancels sw)\<rparr>"
  have eqs: "step = step_id s" "sessions' = sessions(sid \<mapsto> ?sw)" "\<exists>v. r = Inr v"
    using ok sw un s b by (auto simp: step_begin_def Let_def rbind_eq_Inr_iff split: sum.splits if_splits)
  have inv_e: "engine_inv e"
    using engine_inv_begin_sched [OF runtime_invD [OF inv sw], of "step_id s" "sw_scheduler sw"] b by simp
  from eqs(3) obtain adm where "r = Inr adm" ..
  with b obtain cp where cp: "checkpoint (sw_engine sw) (step_id s) = Some cp" "cp_status cp = StepStatus.Pending"
    "e = put_checkpoint (step_id s) (cp\<lparr>cp_status := StepStatus.Running,
        cp_schedule_id := Some (admission_schedule_id adm), cp_result_slot := Some (admission_result_slot adm)\<rparr>) (sw_engine sw)"
    using begin_sched_ok by blast
  show ?thesis
    by (rule that [OF sw eqs(2) un s eqs(1), of cp "cp\<lparr>cp_status := StepStatus.Running,
        cp_schedule_id := Some (admission_schedule_id adm), cp_result_slot := Some (admission_result_slot adm)\<rparr>"])
      (use cp eqs(1) inv_e in simp_all)
qed

lemma runtime_inv_step_begin:
  assumes inv: "runtime_inv sessions"
  shows "runtime_inv (snd (step_begin sid sessions))"
proof (cases "sessions sid")
  case None
  then show ?thesis using inv by (simp add: step_begin_def)
next
  case (Some sw)
  have "engine_inv (fst (snd (begin_step_with_scheduler i (sw_engine sw, sw_scheduler sw))))" for i
    by (rule engine_inv_begin_sched [OF runtime_invD [OF inv Some]])
  then show ?thesis
    using inv Some
    by (auto simp: step_begin_def Let_def split: option.splits prod.splits sum.splits
        intro!: runtime_inv_put) (metis fst_conv snd_conv)+
qed

lemma runtime_inv_step_finish:
  assumes inv: "runtime_inv sessions"
  shows "runtime_inv (snd (step_finish sid step out sessions))"
proof (cases "sessions sid")
  case None
  then show ?thesis using inv by (simp add: step_finish_def)
next
  case (Some sw)
  note e = runtime_invD [OF inv Some]
  obtain st summary where out: "out = (st, summary)" by (rule prod.exhaust)
  show ?thesis
  proof (cases st)
    case Completed
    obtain r e' sch' where c: "complete_step_with_scheduler step summary 1 1 (sw_engine sw, sw_scheduler sw) = (r, e', sch')"
      by (metis prod.exhaust)
    have "engine_inv e'"
      using complete_with_scheduler_engine [of step summary 1 1 "sw_engine sw" "sw_scheduler sw"] c e
      by (auto intro: engine_inv_complete)
    then show ?thesis
      using inv Some out Completed c by (auto simp: step_finish_def Let_def split: sum.splits intro!: runtime_inv_put)
  next
    case Failed
    obtain r e' where f: "fail_step step summary 1 1 (sw_engine sw) = (r, e')" by (rule prod.exhaust)
    have "engine_inv e'" using engine_inv_fail [OF e, of step summary 1 1] f by simp
    then show ?thesis
      using inv Some out Failed f
      by (auto simp: step_finish_def Let_def split: sum.splits WorkflowError.splits intro!: runtime_inv_put)
  next
    case Cancelled
    then show ?thesis
      using inv Some out engine_inv_cancel [OF e]
      by (auto simp: step_finish_def Let_def cancel_with_scheduler_def intro!: runtime_inv_put)
  qed
qed

lemma runtime_inv_run_next:
  assumes "runtime_inv sessions" and inter: "\<And>w S. runtime_inv S \<Longrightarrow> runtime_inv (interfere w S)"
    and run: "run_next_ready_step C interfere sid (sessions, st) = (r, sessions', st')"
  shows "runtime_inv sessions'"
proof -
  obtain res s1 where b: "step_begin sid sessions = (res, s1)" by (rule prod.exhaust)
  have s1: "runtime_inv s1" using runtime_inv_step_begin [OF assms(1), of sid] b by simp
  show ?thesis
  proof (cases res)
    case (Inl e)
    then show ?thesis using run b s1 by (auto simp: run_next_ready_step_def)
  next
    case (Inr t)
    obtain step role cwd where t: "t = (step, role, cwd)" by (metis prod.exhaust)
    obtain sp st1 where sp: "spawn_step C sid step role cwd st = (sp, st1)" by (rule prod.exhaust)
    have "runtime_inv (snd (step_finish sid step out (interfere w s1)))" for out w
      by (rule runtime_inv_step_finish [OF inter [OF s1]])
    then have "runtime_inv S" if "step_finish sid step out (interfere w s1) = (r', S)" for out w r' S
      using that by (metis snd_conv)
    then show ?thesis
      using run b Inr t sp inter [OF s1]
      by (cases sp) (auto simp: run_next_ready_step_def Let_def split: prod.splits)
  qed
qed

section \<open>Advancing terminates\<close>

text \<open>
  The work left in an engine: for every step that is pending or running the attempts it still has, and
  one more while the workflow has not finished. An iteration that succeeds does some of it.
\<close>

definition step_work :: "WorkflowEngine \<Rightarrow> string \<times> StepCheckpoint \<Rightarrow> nat" where
  "step_work e x =
     (case x of (i, cp) \<Rightarrow>
        if cp_status cp \<in> {StepStatus.Pending, StepStatus.Running}
        then Suc (unat (retries_of e i)) - unat (cp_attempts cp) else 0)"

definition engine_work :: "WorkflowEngine \<Rightarrow> nat" where
  "engine_work e = sum_list (map (step_work e) (eng_checkpoints e)) + (if unfinished e then 1 else 0)"

definition running :: "WorkflowEngine \<Rightarrow> string \<Rightarrow> bool" where
  "running e i \<longleftrightarrow> (\<exists>cp. checkpoint e i = Some cp \<and> cp_status cp = StepStatus.Running)"

definition settles :: "string \<Rightarrow> WorkflowEngine \<Rightarrow> WorkflowEngine \<Rightarrow> bool" where
  "settles i e e' \<longleftrightarrow>
     eng_recipe e' = eng_recipe e \<and> eng_budget e' = eng_budget e \<and> engine_work e' < engine_work e
     \<and> (\<forall>j. running e' j \<longrightarrow> running e j \<and> j \<noteq> i)"

lemma sum_list_update:
  fixes f :: "'a \<times> 'b \<Rightarrow> nat"
  shows "map_of xs i = Some v \<Longrightarrow>
    sum_list (map f (AList.update i v' xs)) + f (i, v) = sum_list (map f xs) + f (i, v')"
  by (induction xs) (auto split: if_splits)

lemma step_work_cong:
  "eng_recipe e' = eng_recipe e \<Longrightarrow> eng_budget e' = eng_budget e \<Longrightarrow> step_work e' = step_work e"
  using retries_of_cong [of e' e] by (simp add: step_work_def fun_eq_iff)

lemma work_put:
  assumes "checkpoint e i = Some cp" "eng_recipe e' = eng_recipe e" "eng_budget e' = eng_budget e"
    "eng_checkpoints e' = AList.update i cp' (eng_checkpoints e)"
  shows "sum_list (map (step_work e') (eng_checkpoints e')) + step_work e (i, cp)
         = sum_list (map (step_work e) (eng_checkpoints e)) + step_work e (i, cp')"
  using sum_list_update [of "eng_checkpoints e" i cp "step_work e" cp'] assms step_work_cong [of e' e]
  by (simp add: checkpoint_def)

lemma running_put:
  "eng_checkpoints e' = AList.update i cp' (eng_checkpoints e) \<Longrightarrow> running e' j \<longleftrightarrow>
    (if j = i then cp_status cp' = StepStatus.Running else running e j)"
  by (auto simp: running_def checkpoint_def update_conv')

lemma settles_put:
  assumes "checkpoint e i = Some cp" "eng_recipe e' = eng_recipe e" "eng_budget e' = eng_budget e"
    "eng_checkpoints e' = AList.update i cp' (eng_checkpoints e)" "unfinished e"
    and less: "step_work e (i, cp') < step_work e (i, cp)" and "cp_status cp' \<noteq> StepStatus.Running"
  shows "settles i e e'"
proof -
  have "engine_work e' < engine_work e"
    using work_put [OF assms(1-4)] less assms(5) by (simp add: engine_work_def)
  then show ?thesis using assms running_put [OF assms(4)] by (auto simp: settles_def)
qed

lemma running_work:
  assumes "engine_inv e" "checkpoint e i = Some cp" "cp_status cp = StepStatus.Running"
  shows "cp_attempts cp \<le> retries_of e i" "step_work e (i, cp) = Suc (unat (retries_of e i)) - unat (cp_attempts cp)"
proof -
  have "cp_ok e i cp" using assms by (simp add: engine_inv_def)
  then show "cp_attempts cp \<le> retries_of e i" using assms(3) by (auto simp: cp_ok_def)
qed (simp add: step_work_def assms)

lemma complete_settles:
  assumes inv: "engine_inv e" and ok: "complete_step i result tokens wall_ms e = (Inr u, e')"
  shows "settles i e e'"
proof -
  have "\<exists>cp. unfinished e \<and> checkpoint e i = Some cp \<and> cp_status cp = StepStatus.Running
        \<and> eng_recipe e' = eng_recipe e \<and> eng_budget e' = eng_budget e
        \<and> eng_checkpoints e' = AList.update i
             (cp\<lparr>cp_status := StepStatus.Completed, cp_result := Some result\<rparr>) (eng_checkpoints e)"
    using ok ensure_runnable_iff [of e]
    by (auto simp: complete_step_def Let_def put_checkpoint_def split: sum.splits option.splits if_splits)
  then obtain cp where cp: "unfinished e" "checkpoint e i = Some cp" "cp_status cp = StepStatus.Running"
    "eng_recipe e' = eng_recipe e" "eng_budget e' = eng_budget e" "eng_checkpoints e' = AList.update i
       (cp\<lparr>cp_status := StepStatus.Completed, cp_result := Some result\<rparr>) (eng_checkpoints e)" by blast
  note w = running_work [OF inv cp(2,3)]
  have "unat (cp_attempts cp) < Suc (unat (retries_of e i))" using w(1) by (simp add: word_le_nat_alt)
  then show ?thesis
    by (intro settles_put [OF cp(2,4-6,1)]) (simp_all add: w(2), simp add: step_work_def)
qed

lemma fail_settles:
  assumes inv: "engine_inv e" and bound: "retries_of e i < -1"
    and f: "fail_step i reason tokens wall_ms e = (r, e')" and r: "r = Inr () \<or> (\<exists>j. r = Inl (RetriesExhausted j))"
  shows "settles i e e'"
  using f
proof (cases rule: fail_step_cases)
  case refused
  then show ?thesis using r by blast
next
  case (failed cp cp')
  note w = running_work [OF inv failed(2,3)]
  have "unat (cp_attempts cp) < unat (- 1 :: u32)"
    using w(1) bound by (simp add: word_le_nat_alt word_less_nat_alt)
  then have "unat (cp_attempts cp') = Suc (unat (cp_attempts cp))"
    by (simp add: failed(8) unat_saturating_add unsigned_minus_1_eq_mask mask_eq_exp_minus_1)
  then have "step_work e (i, cp') < step_work e (i, cp)"
    using w by (auto simp: step_work_def failed(9) word_le_nat_alt)
  moreover have "cp_status cp' \<noteq> StepStatus.Running" by (simp add: failed(9))
  ultimately show ?thesis by (rule settles_put [OF failed(2,4-6,1)])
qed

lemma cancel_settles:
  assumes un: "unfinished e"
  shows "settles i e (workflow_cancel e)"
proof -
  define e' where "e' = e\<lparr>eng_checkpoints := map (\<lambda>(i, cp). (i, cancel_checkpoint cp)) (eng_checkpoints e),
      eng_status := WorkflowStatus.Cancelled\<rparr>"
  have e: "workflow_cancel e = e'" using un by (auto simp: workflow_cancel_def e'_def)
  have gone: "cp_status (cancel_checkpoint cp) \<notin> {StepStatus.Pending, StepStatus.Running}" for cp
    by (simp add: cancel_checkpoint_def)
  have "step_work e' x = 0" if "x \<in> set (eng_checkpoints e')" for x
    using that gone by (auto simp: e'_def step_work_def)
  then have "engine_work e' = 0" by (simp add: engine_work_def e'_def)
  moreover have "\<not> running e' j" for j
    using gone by (auto simp: running_def e'_def checkpoint_def map_of_map)
  moreover have "0 < engine_work e" using un by (simp add: engine_work_def)
  moreover have "eng_recipe e' = eng_recipe e" "eng_budget e' = eng_budget e" by (simp_all add: e'_def)
  ultimately show ?thesis by (simp add: e settles_def)
qed

lemma complete_sched_ok:
  "complete_step_with_scheduler i result tokens wall_ms (e, sch) = (Inr u, e', sch') \<Longrightarrow>
   \<exists>v. complete_step i result tokens wall_ms e = (Inr v, e')"
  by (auto simp: complete_step_with_scheduler_def split: sum.splits prod.splits if_splits)

lemma step_finish_settles:
  assumes inv: "engine_inv (sw_engine sw)" and sw: "sessions sid = Some sw" and un: "unfinished (sw_engine sw)"
    and bound: "retries_of (sw_engine sw) step < -1"
    and ok: "step_finish sid step out sessions = (Inr x, sessions')"
  shows "\<exists>sw'. sessions' = sessions(sid \<mapsto> sw') \<and> settles step (sw_engine sw) (sw_engine sw')"
proof -
  obtain st summary where out: "out = (st, summary)" by (rule prod.exhaust)
  show ?thesis
  proof (cases st)
    case Completed
    obtain r e' sch' where c: "complete_step_with_scheduler step summary 1 1 (sw_engine sw, sw_scheduler sw) = (r, e', sch')"
      by (metis prod.exhaust)
    then obtain u where "r = Inr u" using ok sw out Completed
      by (cases r) (simp_all add: step_finish_def Let_def)
    then have "settles step (sw_engine sw) e'"
      using c complete_sched_ok complete_settles [OF inv] by blast
    then show ?thesis
      using ok sw out Completed c \<open>r = Inr u\<close> by (auto simp: step_finish_def Let_def)
  next
    case Failed
    obtain r e' where f: "fail_step step summary 1 1 (sw_engine sw) = (r, e')" by (rule prod.exhaust)
    have r: "r = Inr () \<or> (\<exists>j. r = Inl (RetriesExhausted j))"
      using ok sw out Failed f
      by (auto simp: step_finish_def Let_def split: sum.splits WorkflowError.splits)
    have "settles step (sw_engine sw) e'" by (rule fail_settles [OF inv bound f r])
    then show ?thesis
      using ok sw out Failed f r by (auto simp: step_finish_def Let_def)
  next
    case Cancelled
    then show ?thesis
      using ok sw out cancel_settles [OF un]
      by (auto simp: step_finish_def Let_def cancel_with_scheduler_def)
  qed
qed

text \<open>One successful iteration of the loop when nothing interferes.\<close>

lemma run_next_settles:
  assumes inv: "runtime_inv sessions" and bound: "\<And>sw i. sessions sid = Some sw \<Longrightarrow> retries_of (sw_engine sw) i < -1"
    and ok: "run_next_ready_step C (\<lambda>_ S. S) sid (sessions, st) = (Inr x, sessions', st')"
  shows "\<exists>sw sw'. sessions sid = Some sw \<and> sessions' sid = Some sw'
     \<and> eng_recipe (sw_engine sw') = eng_recipe (sw_engine sw) \<and> eng_budget (sw_engine sw') = eng_budget (sw_engine sw)
     \<and> engine_work (sw_engine sw') < engine_work (sw_engine sw)
     \<and> (\<forall>j. running (sw_engine sw') j \<longrightarrow> running (sw_engine sw) j)"
proof -
  obtain step role cwd s1 where b: "step_begin sid sessions = (Inr (step, role, cwd), s1)"
    using ok by (cases "step_begin sid sessions"; cases "fst (step_begin sid sessions)")
      (auto simp: run_next_ready_step_def)
  obtain out st1 where f: "step_finish sid step out s1 = (Inr x, sessions')"
    using ok b by (auto simp: run_next_ready_step_def Let_def split: prod.splits sum.splits)
  from inv b show ?thesis
  proof (cases rule: step_begin_ok)
    case (1 sw sw' s cp cp')
    note fields = 1
    have same: "eng_recipe (sw_engine sw') = eng_recipe (sw_engine sw)" "eng_budget (sw_engine sw') = eng_budget (sw_engine sw)"
      "eng_checkpoints (sw_engine sw') = AList.update step cp' (eng_checkpoints (sw_engine sw))"
      "eng_status (sw_engine sw') = eng_status (sw_engine sw)"
      by (simp_all add: fields put_checkpoint_def)
    have "step_work (sw_engine sw) (step, cp') = step_work (sw_engine sw) (step, cp)"
      by (simp add: step_work_def fields)
    then have work: "engine_work (sw_engine sw') = engine_work (sw_engine sw)"
      using work_put [OF fields(6) same(1-3)] same(4) by (simp add: engine_work_def)
    have bound': "retries_of (sw_engine sw') step < -1"
      using bound [OF fields(1)] retries_of_cong [OF same(1,2)] by simp
    have "s1 sid = Some sw'" "unfinished (sw_engine sw')" using fields(2,3) same(4) by simp_all
    from step_finish_settles [OF fields(11) this bound' f]
    obtain sw2 where "sessions' = s1(sid \<mapsto> sw2)" "settles step (sw_engine sw') (sw_engine sw2)" by blast
    then show ?thesis
      using fields(1) same(1,2) work running_put [OF same(3)] by (auto simp: settles_def)
  qed
qed

text \<open>
  What an iteration can fail with when no step was running before it: not with one of the two errors
  that mean the workflow is blocked, and with \<open>AlreadyFinished\<close> only for a status that is final.
\<close>

abbreviation finished_statuses :: "WorkflowStatus set" where
  "finished_statuses \<equiv> {WorkflowStatus.Completed, WorkflowStatus.Failed, WorkflowStatus.Cancelled,
     WorkflowStatus.BudgetExhausted}"

definition clean_error :: "WorkflowRuntimeError \<Rightarrow> bool" where
  "clean_error e \<longleftrightarrow> e \<noteq> NoReadyStep \<and> (\<forall>i ds. e \<noteq> Workflow (BlockedByDependency i ds))
     \<and> (\<forall>s. e = Workflow (AlreadyFinished s) \<longrightarrow> s \<in> finished_statuses)"

definition spawn_error :: "WorkflowRuntimeError \<Rightarrow> bool" where
  "spawn_error e \<longleftrightarrow> (\<exists>m. e = RoleChild m) \<or> (\<exists>m. e = ExploreChild m) \<or> (\<exists>m. e = WorkflowRuntimeError.WriteLease m)"

lemma spawn_error_clean: "spawn_error e \<Longrightarrow> clean_error e"
  by (auto simp: spawn_error_def clean_error_def)

lemma under_lease_error:
  assumes "under_lease WorkflowRuntimeError.WriteLease order child ws f c = (Inl e, c')"
    and "\<And>x e x'. f x = (Inl e, x') \<Longrightarrow> spawn_error e"
  shows "spawn_error e"
  using assms
  by (auto simp: under_lease_def spawn_error_def Let_def split: sum.splits prod.splits option.splits)

lemma smap_err_error: "smap_err g m = (Inl e, s) \<Longrightarrow> \<exists>x. e = g x"
  by (auto simp: smap_err_def split: prod.splits sum.splits)

lemma build_worktree_error: "build_worktree M sid cwd m = (Inl e, m') \<Longrightarrow> \<exists>x. e = RoleChild x"
  by (auto simp: build_worktree_def Let_def dest!: smap_err_error
      split: option.splits sum.splits WorktreeLifecycleState.splits)

lemma spawn_role_error: "spawn_role C sid step role cwd st = (Inl e, st') \<Longrightarrow> spawn_error e"
  by (auto simp: spawn_role_def Let_def spawn_error_def
      split: prod.splits sum.splits if_splits dest!: build_worktree_error smap_err_error
      dest: under_lease_error [unfolded spawn_error_def])

lemma spawn_explore_error: "spawn_explore C sid step cwd st = (Inl e, st') \<Longrightarrow> spawn_error e"
  by (auto simp: spawn_explore_def Let_def spawn_error_def
      split: prod.splits sum.splits if_splits dest!: smap_err_error
      dest: under_lease_error [unfolded spawn_error_def])

lemma spawn_step_error: "spawn_step C sid step role cwd st = (Inl e, st') \<Longrightarrow> spawn_error e"
  by (auto simp: spawn_step_def split: option.splits SubagentRole.splits
      dest: spawn_role_error spawn_explore_error)

definition workflow_clean :: "WorkflowError \<Rightarrow> bool" where
  "workflow_clean e \<longleftrightarrow> (\<forall>i ds. e \<noteq> BlockedByDependency i ds) \<and> (\<forall>s. e = AlreadyFinished s \<longrightarrow> s \<in> finished_statuses)"

lemma clean_Workflow [simp]: "clean_error (Workflow e) \<longleftrightarrow> workflow_clean e"
  by (auto simp: clean_error_def workflow_clean_def)

lemma workflow_clean_simps [simp]:
  "workflow_clean (UnknownStep i)" "workflow_clean (MissingSchedule i)" "workflow_clean (NotRunnable i st)"
  "workflow_clean (WorkflowError.BudgetExhausted kind)" "workflow_clean (RetriesExhausted i)"
  by (simp_all add: workflow_clean_def)

lemma ensure_runnable_clean: "ensure_runnable e = Inl err \<Longrightarrow> workflow_clean err"
  by (auto simp: ensure_runnable_def workflow_clean_def split: WorkflowStatus.splits)

lemma step_role_clean: "step_role e i = Inl err \<Longrightarrow> workflow_clean err"
  by (auto simp: step_role_def parse_step_role_def ok_or_def workflow_clean_def
      split: option.splits sum.splits if_splits)

lemma map_scheduler_err_clean: "workflow_clean (map_scheduler_err x)"
  by (cases x rule: map_scheduler_err.cases) (simp_all add: workflow_clean_def)

lemma begin_checks_clean:
  assumes "engine_inv e" "is_ready e i" "begin_checks i e = (Inl err, e')"
  shows "workflow_clean err"
proof -
  have "\<forall>d \<in> set (deps_of (steps_of e) i). step_completed e d"
    using assms(2) is_ready_iff [OF assms(1)] by blast
  moreover have "blocking_deps e i = filter (\<lambda>d. \<not> step_completed e d) (deps_of (steps_of e) i)"
    by (simp add: blocking_deps_def deps_of_find split: option.split)
  ultimately have "blocking_deps e i = []" by simp
  then show ?thesis
    using assms(3) ensure_runnable_clean [of e]
    by (auto simp: begin_checks_def Let_def split: sum.splits option.splits if_splits)
qed

lemma begin_sched_clean:
  assumes "engine_inv e" "is_ready e i" "begin_step_with_scheduler i (e, sch) = (Inl err, c)"
  shows "workflow_clean err"
  using assms(3) begin_checks_clean [OF assms(1,2)] step_role_clean [of _ i] map_scheduler_err_clean
  by (auto simp: begin_step_with_scheduler_def split: prod.splits sum.splits option.splits)

lemma complete_sched_clean:
  "complete_step_with_scheduler i result tokens wall_ms (e, sch) = (Inl err, c) \<Longrightarrow> workflow_clean err"
  using ensure_runnable_clean [of e] map_scheduler_err_clean
  by (auto simp: complete_step_with_scheduler_def complete_step_def Let_def rbind_eq_Inl_iff ok_or_def
      split: prod.splits sum.splits option.splits if_splits WorkflowError.splits)

lemma fail_step_clean: "fail_step i reason tokens wall_ms e = (Inl err, e') \<Longrightarrow> workflow_clean err"
  using ensure_runnable_clean [of e]
  by (auto simp: fail_step_def Let_def ok_or_def rbind_def
      split: prod.splits sum.splits option.splits if_splits)

lemma step_finish_error:
  "step_finish sid step out sessions = (Inl e, S') \<Longrightarrow>
   clean_error e"
  by (auto simp: step_finish_def Let_def clean_error_def [of "WorkflowRuntimeError.UnknownSession _"]
      split: option.splits prod.splits sum.splits ChildResultStatus.splits WorkflowError.splits
      dest: complete_sched_clean fail_step_clean)

lemma step_begin_error:
  assumes inv: "runtime_inv sessions"
    and idle: "\<And>sw j. sessions sid = Some sw \<Longrightarrow> \<not> running (sw_engine sw) j"
    and err: "step_begin sid sessions = (Inl e, S')"
  shows "clean_error e"
proof (cases "sessions sid")
  case None
  then show ?thesis using err by (auto simp: step_begin_def clean_error_def)
next
  case (Some sw)
  show ?thesis
  proof (cases "unfinished (sw_engine sw)")
    case False
    then show ?thesis
      using err Some by (cases "eng_status (sw_engine sw)") (auto simp: step_begin_def workflow_clean_def)
  next
    case True
    have "\<forall>cp \<in> ran (checkpoint (sw_engine sw)). cp_status cp \<noteq> StepStatus.Running"
      using idle [OF Some] by (auto simp: running_def ran_def)
    then obtain s where s: "next_ready_step (sw_engine sw) = Some s" "is_ready (sw_engine sw) (step_id s)"
      using next_ready_Some some_step_ready runtime_invD [OF inv Some] True by blast
    obtain r e' sch where b: "begin_step_with_scheduler (step_id s) (sw_engine sw, sw_scheduler sw) = (r, e', sch)"
      by (metis prod.exhaust)
    have "workflow_clean x" if "rbind r (\<lambda>_. step_role e' (step_id s)) = Inl x" for x
      using that begin_sched_clean [OF runtime_invD [OF inv Some] s(2)] b step_role_clean by (cases r) auto
    then show ?thesis
      using err Some True s(1) b by (auto simp: step_begin_def Let_def split: sum.splits if_splits)
  qed
qed

lemma run_next_error:
  assumes inv: "runtime_inv sessions"
    and idle: "\<And>sw j. sessions sid = Some sw \<Longrightarrow> \<not> running (sw_engine sw) j"
    and err: "run_next_ready_step C interfere sid (sessions, st) = (Inl e, c')"
  shows "clean_error e"
proof (cases "step_begin sid sessions")
  case (Pair b s1)
  show ?thesis
  proof (cases b)
    case (Inl x)
    then have "e = x" using err Pair by (simp add: run_next_ready_step_def)
    then show ?thesis using step_begin_error [OF inv idle] Pair Inl by blast
  next
    case (Inr t)
    then show ?thesis
      using err Pair
      by (auto simp: run_next_ready_step_def Let_def spawn_error_clean
          split: prod.splits sum.splits dest: spawn_step_error step_finish_error)
  qed
qed

definition retries_bounded :: "sessions \<Rightarrow> uuid \<Rightarrow> bool" where
  "retries_bounded sessions sid \<longleftrightarrow> (\<forall>sw i. sessions sid = Some sw \<longrightarrow> retries_of (sw_engine sw) i < -1)"

definition idle :: "sessions \<Rightarrow> uuid \<Rightarrow> bool" where
  "idle sessions sid \<longleftrightarrow> (\<forall>sw j. sessions sid = Some sw \<longrightarrow> \<not> running (sw_engine sw) j)"

lemma advance_error:
  assumes "run_next_ready_step C interfere sid c = (Inl e, c')" "clean_error e"
  shows "\<exists>r. advance_until_blocked C interfere sid c = Some (r, c') \<and> (\<forall>s. r = Inr s \<longrightarrow> s \<in> finished_statuses)"
  using assms
  by (subst advance_until_blocked.simps)
     (auto simp: clean_error_def split: WorkflowRuntimeError.splits WorkflowError.splits)

lemma advance_ends:
  assumes "runtime_inv sessions" "retries_bounded sessions sid" "idle sessions sid"
    "sessions sid = Some sw" "engine_work (sw_engine sw) = n"
  shows "\<exists>r c'. advance_until_blocked C (\<lambda>_ S. S) sid (sessions, st) = Some (r, c')
           \<and> runtime_inv (fst c') \<and> (\<forall>s. r = Inr s \<longrightarrow> s \<in> finished_statuses)"
  using assms
proof (induction n arbitrary: sessions st sw rule: less_induct)
  case (less n)
  note inv = less.prems(1)
  obtain r sessions1 st1 where run: "run_next_ready_step C (\<lambda>_ S. S) sid (sessions, st) = (r, sessions1, st1)"
    by (metis prod.exhaust)
  have inv1: "runtime_inv sessions1" by (rule runtime_inv_run_next [OF inv _ run]) simp
  show ?case
  proof (cases r)
    case (Inl e)
    have "clean_error e"
      by (rule run_next_error [OF inv _ run [unfolded Inl]]) (use less.prems(3) in \<open>simp add: idle_def\<close>)
    from advance_error [OF run [unfolded Inl] this] inv1 show ?thesis by (metis fst_conv)
  next
    case (Inr x)
    have "\<exists>sw sw'. sessions sid = Some sw \<and> sessions1 sid = Some sw'
       \<and> eng_recipe (sw_engine sw') = eng_recipe (sw_engine sw) \<and> eng_budget (sw_engine sw') = eng_budget (sw_engine sw)
       \<and> engine_work (sw_engine sw') < engine_work (sw_engine sw)
       \<and> (\<forall>j. running (sw_engine sw') j \<longrightarrow> running (sw_engine sw) j)"
      by (rule run_next_settles [OF inv _ run [unfolded Inr]]) (use less.prems(2) in \<open>simp add: retries_bounded_def\<close>)
    then obtain sw' where sw': "sessions1 sid = Some sw'"
      "eng_recipe (sw_engine sw') = eng_recipe (sw_engine sw)" "eng_budget (sw_engine sw') = eng_budget (sw_engine sw)"
      "engine_work (sw_engine sw') < n" "\<forall>j. running (sw_engine sw') j \<longrightarrow> running (sw_engine sw) j"
      using less.prems(4,5) by auto
    have "retries_bounded sessions1 sid"
      using less.prems(2,4) sw'(1) retries_of_cong [OF sw'(2,3)] by (simp add: retries_bounded_def)
    moreover have "idle sessions1 sid" using less.prems(3,4) sw'(1,5) by (simp add: idle_def)
    ultimately show ?thesis
      using less.IH [OF sw'(4) inv1 _ _ sw'(1) HOL.refl, of st1] run Inr
      by (subst advance_until_blocked.simps) simp
  qed
qed

lemma advance_unknown:
  "sessions sid = None \<Longrightarrow>
   advance_until_blocked C interfere sid (sessions, st) = Some (Inl (WorkflowRuntimeError.UnknownSession sid), sessions, st)"
  by (subst advance_until_blocked.simps) (simp add: run_next_ready_step_def step_begin_def)

section \<open>Properties\<close>


definition demo_session :: "SessionWorkflow" where
  "demo_session = \<lparr>sw_engine = snd (workflow_start (demo_engine None)), sw_scheduler = scheduler_new,
     sw_step_cancels = [], sw_cwd = ''/repo''\<rparr>"

lemma demo_session_inv: "engine_inv (sw_engine demo_session)"
proof -
  have "engine_inv (demo_engine None)" by (rule engine_inv_new [OF _ demo_engine_new]) simp
  then show ?thesis by (simp add: demo_session_def engine_inv_start)
qed

lemma demo_session_idle: "\<not> running (sw_engine demo_session) j"
  by (auto simp: running_def demo_session_def workflow_start_def demo_engine_def checkpoint_def split: if_splits)

lemma demo_session_retries: "retries_of (sw_engine demo_session) i < -1"
proof -
  have "(0 :: u32) < -1" "(1 :: u32) < -1"
    by (simp_all add: word_less_nat_alt unsigned_minus_1_eq_mask mask_eq_exp_minus_1)
  then show ?thesis by (simp add: retries_of_def demo_session_def workflow_start_def engine_eval)
qed


text \<open>
  A failed spawn wedges the workflow. The error is returned before the step is settled, so the step
  stays running with its schedule admitted and its token in the table. Without a worktree manager
  each of the two build steps goes this way, and from then on advancing reports the workflow as
  running and does nothing.
\<close>

lemmas runtime_eval =
  demo_session_def workflow_start_def step_begin_def run_next_ready_step_def spawn_step_def spawn_role_def
  build_worktree_def next_ready_step_def is_ready_def step_finish_def engine_eval

lemma advance_failed_spawn:
  "run_next_ready_step C interfere sid c = (Inl (RoleChild m), c') \<Longrightarrow>
   advance_until_blocked C interfere sid c = Some (Inl (RoleChild m), c')"
  by (subst advance_until_blocked.simps) simp

lemma advance_blocked:
  "run_next_ready_step C interfere sid c = (Inl NoReadyStep, c') \<Longrightarrow>
   advance_until_blocked C interfere sid c =
     Some (Inr (unwrap_or (runtime_status (fst c') sid) WorkflowStatus.Completed), c')"
  by (subst advance_until_blocked.simps) simp

lemma failed_spawn_wedges:
  assumes "rc_worktrees C = None"
  shows "let adv = advance_until_blocked C (\<lambda>_ S. S) 7;
             S1 = snd (step_begin 7 [7 \<mapsto> demo_session]); S2 = snd (step_begin 7 S1);
             e = Inl (RoleChild ''Build role requires WorktreeManager; synthetic worktree ids removed'')
         in adv ([7 \<mapsto> demo_session], st) = Some (e, S1, st) \<and> adv (S1, st) = Some (e, S2, st)
            \<and> adv (S2, st) = Some (Inr WorkflowStatus.Running, S2, st)"
proof -
  let ?e = "RoleChild ''Build role requires WorktreeManager; synthetic worktree ids removed''"
  define S1 where "S1 = snd (step_begin 7 [7 \<mapsto> demo_session])"
  define S2 where "S2 = snd (step_begin 7 S1)"
  note S1 = S1_def [simplified runtime_eval, simplified]
  note S2 = S2_def [unfolded S1, simplified runtime_eval, simplified]
  have "run_next_ready_step C (\<lambda>_ S. S) 7 ([7 \<mapsto> demo_session], st) = (Inl ?e, S1, st)"
    by (simp add: S1 runtime_eval assms split: prod.split)
  moreover have "run_next_ready_step C (\<lambda>_ S. S) 7 (S1, st) = (Inl ?e, S2, st)"
    by (simp add: S2 S1 runtime_eval assms split: prod.split)
  moreover have "run_next_ready_step C (\<lambda>_ S. S) 7 (S2, st) = (Inl NoReadyStep, S2, st)"
    by (simp add: S2 runtime_eval)
  moreover have "runtime_status S2 7 = Some WorkflowStatus.Running" by (simp add: S2 runtime_status_def)
  ultimately show ?thesis
    by (simp add: Let_def advance_failed_spawn advance_blocked flip: S1_def S2_def)
qed

text \<open>
  The child of a replaced workflow can settle a step of the replacement. The lock is released while
  a child runs, and afterwards the step is looked up by its name in whatever workflow the session has
  by then: the old child's summary becomes the result of the new workflow's running step, and the
  new child's token is dropped from the table.
\<close>

lemma stale_child_settles_replacement:
  "let S1 = snd (step_begin 7 [7 \<mapsto> demo_session]);
       S2 = S1(7 \<mapsto> demo_session);
       S3 = snd (step_begin 7 S2);
       (r, S4) = step_finish 7 ''a'' (ChildResultStatus.Completed, ''old'') S3
   in map_option sw_step_cancels (S3 7) = Some [''a''] \<and> r = Inr ''old''
      \<and> map_option sw_step_cancels (S4 7) = Some []
      \<and> Option.bind (S4 7) (\<lambda>sw. map_option cp_result (checkpoint (sw_engine sw) ''a'')) = Some (Some ''old'')"
  by (simp add: runtime_eval)

end
