(* ===== verification/Text_Reduction.thy ===== *)
theory Text_Reduction
  imports Rust_Std
begin

text \<open>
  Text on its way to the model: the redaction of secrets (\<open>redact_text\<close> and \<open>redact_line\<close> of
  \<open>crates/impetus-core/src/tools.rs\<close>) and the reduction of tool output to a token budget
  (\<open>crates/impetus-core/src/output_reducer.rs\<close>).

  The external RTK program is a function that may give a reduced text, a parameter. The reducer
  searches the lower-cased lines for four ASCII words; the only characters outside ASCII whose lower
  case has an ASCII letter are \<open>U+212A\<close> (\<open>k\<close>, in none of the words) and \<open>U+0130\<close> (\<open>i\<close> followed by a
  combining dot, which ends every match), so lowering ASCII only finds the same lines.
\<close>

section \<open>Lines\<close>

abbreviation newline :: char where
  "newline \<equiv> CHR 0x0A"

abbreviation carriage_return :: char where
  "carriage_return \<equiv> CHR 0x0D"

fun split_inclusive :: "char \<Rightarrow> string \<Rightarrow> string list" where
  "split_inclusive d [] = []"
| "split_inclusive d (c # cs) =
     (if c = d then [c] # split_inclusive d cs
      else (case split_inclusive d cs of [] \<Rightarrow> [[c]] | w # ws \<Rightarrow> (c # w) # ws))"

definition strip_suffix_char :: "char \<Rightarrow> string \<Rightarrow> string option" where
  "strip_suffix_char d s = (if s \<noteq> [] \<and> last s = d then Some (butlast s) else None)"

definition line_of :: "string \<Rightarrow> string" where
  "line_of segment =
     (case strip_suffix_char newline segment of
        None \<Rightarrow> segment
      | Some line \<Rightarrow> unwrap_or (strip_suffix_char carriage_return line) line)"

definition str_lines :: "string \<Rightarrow> string list" where
  "str_lines s = map line_of (split_inclusive newline s)"

definition to_ascii_uppercase :: "string \<Rightarrow> string" where
  "to_ascii_uppercase =
     map (\<lambda>c. if 97 \<le> code c \<and> code c \<le> 122 then char_of (code c - 32) else c)"

lemma concat_split_inclusive [simp]: "concat (split_inclusive d s) = s"
  by (induction s) (auto split: list.splits)

lemma split_inclusive_segment:
  "w \<in> set (split_inclusive d s) \<Longrightarrow> \<exists>u. d \<notin> set u \<and> (w = u @ [d] \<or> w = u)"
proof (induction s arbitrary: w)
  case (Cons c cs)
  show ?case
  proof (cases "c = d")
    case True
    then show ?thesis using Cons by (auto intro: exI [of _ "[]"])
  next
    case False
    show ?thesis
    proof (cases "split_inclusive d cs")
      case Nil
      then show ?thesis using Cons.prems False by (auto intro: exI [of _ "[c]"])
    next
      case (Cons w' ws)
      then consider "w \<in> set ws" | "w = c # w'" using Cons.prems False by auto
      then show ?thesis
      proof cases
        case 1
        then show ?thesis using Cons.IH [of w] Cons by simp
      next
        case 2
        obtain u where "d \<notin> set u" "w' = u @ [d] \<or> w' = u" using Cons.IH [of w'] Cons by auto
        then show ?thesis using 2 False by (auto intro: exI [of _ "c # u"])
      qed
    qed
  qed
qed simp

text \<open>All segments but the last end in the separator; what is joined from such segments splits again.\<close>

definition segments_ok :: "char \<Rightarrow> string list \<Rightarrow> bool" where
  "segments_ok d ws \<longleftrightarrow> (\<forall>w \<in> set ws. w \<noteq> [])
     \<and> (\<forall>w \<in> set (butlast ws). \<exists>u. d \<notin> set u \<and> w = u @ [d])
     \<and> (ws \<noteq> [] \<longrightarrow> (\<exists>u. d \<notin> set u \<and> (last ws = u @ [d] \<or> last ws = u)))"

lemma segments_ok_Cons:
  "ws \<noteq> [] \<Longrightarrow> segments_ok d (w # ws) \<longleftrightarrow> (\<exists>u. d \<notin> set u \<and> w = u @ [d]) \<and> segments_ok d ws"
  by (auto simp: segments_ok_def)

lemma split_inclusive_append: "d \<notin> set u \<Longrightarrow> split_inclusive d (u @ d # s) = (u @ [d]) # split_inclusive d s"
  by (induction u) auto

lemma split_inclusive_no_sep: "d \<notin> set u \<Longrightarrow> u \<noteq> [] \<Longrightarrow> split_inclusive d u = [u]"
  by (induction u rule: induct_list012) auto

lemma split_inclusive_concat: "segments_ok d ws \<Longrightarrow> split_inclusive d (concat ws) = ws"
proof (induction ws)
  case (Cons w ws)
  show ?case
  proof (cases "ws = []")
    case True
    then obtain u where u: "d \<notin> set u" "w = u @ [d] \<or> w = u" "w \<noteq> []" using Cons.prems by (auto simp: segments_ok_def)
    then show ?thesis using True split_inclusive_append [of d u "[]"] split_inclusive_no_sep [of d u] by auto
  next
    case False
    then show ?thesis using Cons split_inclusive_append by (auto simp: segments_ok_Cons)
  qed
qed simp

lemma segments_ok_split: "segments_ok d (split_inclusive d s)"
proof (induction s)
  case (Cons c cs)
  show ?case
  proof (cases "split_inclusive d cs")
    case Nil
    then show ?thesis by (auto simp: segments_ok_def intro: exI [of _ "[]"] exI [of _ "[c]"])
  next
    case (Cons w ws)
    show ?thesis
    proof (cases "c = d")
      case True
      then show ?thesis using Cons Cons.IH by (auto simp: segments_ok_Cons intro: exI [of _ "[]"])
    next
      case False
      show ?thesis
      proof (cases "ws = []")
        case True
        then obtain u where "d \<notin> set u" "w = u @ [d] \<or> w = u" using Cons.IH Cons by (auto simp: segments_ok_def)
        then have "\<exists>v. d \<notin> set v \<and> (c # w = v @ [d] \<or> c # w = v)" using False by (intro exI [of _ "c # u"]) auto
        then show ?thesis using True False Cons by (simp add: segments_ok_def)
      next
        case ws: False
        then obtain u where "d \<notin> set u" "w = u @ [d]" "segments_ok d ws"
          using Cons.IH Cons by (auto simp: segments_ok_Cons)
        then have "\<exists>v. d \<notin> set v \<and> c # w = v @ [d]" using False by (intro exI [of _ "c # u"]) auto
        then show ?thesis using ws False Cons \<open>segments_ok d ws\<close> by (simp add: segments_ok_Cons)
      qed
    qed
  qed
qed (simp add: segments_ok_def)

section \<open>Redaction\<close>

definition redacted :: string where
  "redacted = ''[REDACTED]''"

definition redacted_key :: string where
  "redacted_key = ''[REDACTED PRIVATE KEY]''"

definition secret_markers :: "string list" where
  "secret_markers = [''TOKEN'', ''SECRET'', ''PASSWORD'', ''PASS_PHRASE'', ''PASSPHRASE'', ''API_KEY'',
     ''PRIVATE_KEY'', ''ACCESS_KEY'', ''CREDENTIAL'']"

definition split_once :: "char \<Rightarrow> string \<Rightarrow> (string \<times> string) option" where
  "split_once d s =
     (if d \<in> set s then Some (takeWhile (\<lambda>c. c \<noteq> d) s, tl (dropWhile (\<lambda>c. c \<noteq> d) s)) else None)"

text \<open>One round of the loop over the two separators.\<close>

definition redact_at :: "char \<Rightarrow> string \<Rightarrow> string option" where
  "redact_at separator line =
     (case split_once separator line of
        None \<Rightarrow> None
      | Some (key, _) \<Rightarrow>
          if list_ex (str_contains (to_ascii_uppercase (trim key))) secret_markers
          then Some (takeWhile (\<lambda>c. c \<noteq> separator) line @ [separator] @ redacted)
          else None)"

definition is_authorization :: "string \<Rightarrow> bool" where
  "is_authorization line =
     (let upper = to_ascii_uppercase (trim_start line)
      in starts_with upper ''AUTHORIZATION:'' \<or> starts_with upper ''BEARER '')"

definition redact_line :: "string \<Rightarrow> string" where
  "redact_line line =
     (if is_authorization line then take (length line - length (trim_start line)) line @ redacted
      else (case redact_at CHR ''='' line of
              Some r \<Rightarrow> r
            | None \<Rightarrow> unwrap_or (redact_at CHR '':'' line) line))"

definition begins_key :: "string \<Rightarrow> bool" where
  "begins_key line = (str_contains (to_ascii_uppercase line) ''-----BEGIN''
     \<and> str_contains (to_ascii_uppercase line) ''PRIVATE KEY-----'')"

definition ends_key :: "string \<Rightarrow> bool" where
  "ends_key line = (str_contains (to_ascii_uppercase line) ''-----END''
     \<and> str_contains (to_ascii_uppercase line) ''PRIVATE KEY-----'')"

definition cut_newline :: "string \<Rightarrow> string \<times> string" where
  "cut_newline segment =
     (case strip_suffix_char newline segment of None \<Rightarrow> (segment, []) | Some line \<Rightarrow> (line, [newline]))"

fun redact_segments :: "bool \<Rightarrow> string list \<Rightarrow> string list" where
  "redact_segments private_key_block [] = []"
| "redact_segments private_key_block (segment # rest) =
     (case cut_newline segment of (line, nl) \<Rightarrow>
        if begins_key line then (redacted_key @ nl) # redact_segments True rest
        else if private_key_block then (redacted @ nl) # redact_segments (\<not> ends_key line) rest
        else (redact_line line @ nl) # redact_segments False rest)"

definition redact_text :: "string \<Rightarrow> string" where
  "redact_text source = concat (redact_segments False (split_inclusive newline source))"

subsection \<open>Redaction is idempotent\<close>

lemma prefix_append_stop: "c \<notin> set (butlast p) \<Longrightarrow> c \<in> set t \<Longrightarrow> prefix p (t @ x) \<longleftrightarrow> prefix p t"
  by (auto simp: prefix_append butlast_append split: if_splits)

text \<open>The two separators: no white space, no letter, no continuation byte.\<close>

definition separator :: "char \<Rightarrow> bool" where
  "separator c \<longleftrightarrow> c = CHR ''='' \<or> c = CHR '':''"

lemma image_fixed: "(\<And>x. f x = c \<longleftrightarrow> x = c) \<Longrightarrow> c \<in> f ` A \<longleftrightarrow> c \<in> A"
  by (metis image_iff)

lemma upper_fixed:
  assumes "code c < 65"
  shows "c \<in> set (to_ascii_uppercase t) \<longleftrightarrow> c \<in> set t"
proof -
  have "(if 97 \<le> code x \<and> code x \<le> 122 then char_of (code x - 32) else x) = c \<longleftrightarrow> x = c" for x
  proof (cases "97 \<le> code x \<and> code x \<le> 122")
    case True
    then have "(code x - 32) mod 256 = code x - 32" by (intro mod_less) linarith
    then have "code (char_of (code x - 32) :: char) = code x - 32" by simp
    moreover have "x \<noteq> c" using assms True by auto
    ultimately show ?thesis using assms True by auto
  qed auto
  then show ?thesis unfolding to_ascii_uppercase_def set_map by (rule image_fixed)
qed

lemma separator_upper: "separator c \<Longrightarrow> c \<in> set (to_ascii_uppercase t) \<longleftrightarrow> c \<in> set t"
  by (rule upper_fixed) (auto simp: separator_def)

lemma ws_len_stop:
  assumes "separator c"
  shows "ws_len (k @ c # x) = ws_len (k @ [c])"
proof -
  have c: "\<not> ascii_ws c" "\<not> ws2 a c" "\<not> ws2 c a" "\<not> ws3 a b c" "\<not> ws3 a c b" "\<not> ws3 c a b" for a b
    using assms by (auto simp: separator_def ascii_ws_def ws2_def ws3_def)
  show ?thesis
    by (cases k rule: ws_len.cases; cases x rule: ws_len.cases) (auto simp: c)
qed

lemma trim_start_stop:
  assumes "separator c"
  shows "trim_start (k @ c # x) = trim_start (k @ [c]) @ x \<and> c \<in> set (trim_start (k @ [c]))"
proof (induction "length k" arbitrary: k rule: less_induct)
  case less
  let ?n = "ws_len (k @ [c])"
  have eq: "ws_len (k @ c # x) = ?n" by (rule ws_len_stop [OF assms])
  show ?case
  proof (cases "?n = 0")
    case True
    then show ?thesis using eq by (simp add: trim_start.simps [of "k @ c # x"] trim_start.simps [of "k @ [c]"])
  next
    case False
    have le: "?n \<le> length k"
    proof (rule ccontr)
      assume "\<not> ?n \<le> length k"
      have c: "\<not> ascii_ws c" "\<not> ws2 a c" "\<not> ws3 a b c" for a b
        using assms by (auto simp: separator_def ascii_ws_def ws2_def ws3_def)
      then show False
        using \<open>\<not> ?n \<le> length k\<close> by (cases k rule: ws_len.cases) (auto split: if_splits)
    qed
    have "length (drop ?n k) < length k" using False le by (cases k) auto
    from less [OF this] show ?thesis
      using False eq le
      by (simp add: trim_start.simps [of "k @ c # x"] trim_start.simps [of "k @ [c]"])
  qed
qed

lemma is_authorization_stop:
  assumes c: "separator c"
  shows "is_authorization (k @ c # x) \<longleftrightarrow> is_authorization (k @ [c])"
proof -
  let ?t = "trim_start (k @ [c])"
  have t: "trim_start (k @ c # x) = ?t @ x" and ct: "c \<in> set (to_ascii_uppercase ?t)"
    using conjunct1 [OF trim_start_stop [OF c, of k x]] conjunct2 [OF trim_start_stop [OF c, of k x]]
      separator_upper [OF c] by blast+
  have up: "to_ascii_uppercase (?t @ x) = to_ascii_uppercase ?t @ to_ascii_uppercase x"
    by (simp add: to_ascii_uppercase_def)
  have "c \<notin> set (butlast ''AUTHORIZATION:'')" "c \<notin> set (butlast ''BEARER '')"
    using c by (auto simp: separator_def)
  then show ?thesis
    using prefix_append_stop [OF _ ct] by (simp add: is_authorization_def Let_def t up starts_with_def)
qed

lemma redact_at_Some:
  "redact_at c line = Some r \<longleftrightarrow>
     c \<in> set line \<and> r = takeWhile (\<lambda>x. x \<noteq> c) line @ c # redacted
     \<and> list_ex (str_contains (to_ascii_uppercase (trim (takeWhile (\<lambda>x. x \<noteq> c) line)))) secret_markers"
  by (auto simp: redact_at_def split_once_def)

lemma redacted_chars: "CHR ''='' \<notin> set redacted" "CHR '':'' \<notin> set redacted" "newline \<notin> set redacted"
    "CHR ''-'' \<notin> set redacted"
  by (simp_all add: redacted_def)

lemma redacted_key_chars: "newline \<notin> set redacted_key" "redacted_key \<noteq> []" "redacted \<noteq> []"
  by (simp_all add: redacted_def redacted_key_def)

lemma takeWhile_append_stop: "takeWhile (\<lambda>x. x \<noteq> c) (takeWhile (\<lambda>x. x \<noteq> c) s @ c # t) = takeWhile (\<lambda>x. x \<noteq> c) s"
  by (induction s) auto

lemma split_at_char: "c \<in> set s \<Longrightarrow> \<exists>t. s = takeWhile (\<lambda>x. x \<noteq> c) s @ c # t"
  by (induction s) auto

lemma redact_at_again: "redact_at c line = Some r \<Longrightarrow> redact_at c r = Some r"
  by (simp add: redact_at_Some takeWhile_append_stop)

lemma is_authorization_redact_at:
  assumes "separator c" "redact_at c line = Some r"
  shows "is_authorization r \<longleftrightarrow> is_authorization line"
proof -
  obtain t where "line = takeWhile (\<lambda>x. x \<noteq> c) line @ c # t"
    using split_at_char [of c line] assms(2) unfolding redact_at_Some by blast
  then show ?thesis
    using assms(2) is_authorization_stop [OF assms(1)] by (metis redact_at_Some)
qed

text \<open>A line that starts with an authorization keeps its white space only.\<close>

definition lead :: "string \<Rightarrow> string" where
  "lead line = take (length line - length (trim_start line)) line"

lemma lead_rec:
  "lead line = (if ws_len line = 0 then [] else take (ws_len line) line @ lead (drop (ws_len line) line))"
proof (cases "ws_len line = 0")
  case True
  then show ?thesis by (simp add: lead_def trim_start.simps [of line])
next
  case False
  let ?n = "ws_len line"
  have "length (trim_start s) \<le> length s" for s
    by (induction s rule: trim_start.induct) (subst trim_start.simps, auto)
  from this [of "drop ?n line"] have "length (trim_start (drop ?n line)) \<le> length line - ?n" by simp
  then have eq: "length line - length (trim_start (drop ?n line)) =
      ?n + (length line - ?n - length (trim_start (drop ?n line)))"
    using ws_len_le [of line] by linarith
  have "lead line = take (length line - length (trim_start (drop ?n line))) line"
    using False by (simp add: lead_def trim_start.simps [of line])
  also have "\<dots> = take ?n line @ lead (drop ?n line)"
    unfolding lead_def length_drop by (subst eq) (rule take_add)
  finally show ?thesis using False by simp
qed

lemma lead_chars: "c \<in> set (lead line) \<Longrightarrow> ascii_ws c \<or> 128 \<le> code c"
proof (induction "length line" arbitrary: line rule: less_induct)
  case less
  let ?n = "ws_len line"
  show ?case
  proof (cases "?n = 0")
    case True
    then show ?thesis using less.prems by (simp add: lead_rec [of line])
  next
    case False
    have "length (drop ?n line) < length line" using False ws_len_le [of line] by simp
    moreover have "ascii_ws d \<or> 128 \<le> code d" if "d \<in> set (take ?n line)" for d
      using that False by (cases line rule: ws_len.cases) (auto simp: ws2_def ws3_def split: if_splits)
    moreover have "c \<in> set (take ?n line) \<or> c \<in> set (lead (drop ?n line))"
      using less.prems False by (subst (asm) lead_rec) simp
    ultimately show ?thesis using less.hyps [of "drop ?n line"] by blast
  qed
qed

lemma ws_len_take: "ws_len line \<noteq> 0 \<Longrightarrow> ws_len (take (ws_len line) line @ t) = ws_len line"
  by (cases line rule: ws_len.cases; cases t rule: ws_len.cases) (auto split: if_splits)

lemma trim_start_lead: "ws_len t = 0 \<Longrightarrow> trim_start (lead line @ t) = t"
proof (induction "length line" arbitrary: line rule: less_induct)
  case less
  let ?n = "ws_len line"
  show ?case
  proof (cases "?n = 0")
    case True
    then show ?thesis using less.prems by (simp add: lead_rec [of line] trim_start.simps [of t])
  next
    case False
    let ?r = "lead (drop ?n line) @ t"
    have "length (drop ?n line) < length line" using False ws_len_le [of line] by simp
    then have "trim_start ?r = t" using less by blast
    moreover have "ws_len (take ?n line @ ?r) = ?n" by (rule ws_len_take [OF False])
    moreover have "drop ?n (take ?n line @ ?r) = ?r" using ws_len_le [of line] by simp
    ultimately have "trim_start (take ?n line @ ?r) = t"
      using False by (subst trim_start.simps) simp
    then show ?thesis using False by (simp add: lead_rec [of line])
  qed
qed

lemma redact_line_authorization: "is_authorization line \<Longrightarrow> redact_line line = lead line @ redacted"
  by (simp add: redact_line_def lead_def)

lemma lead_no_char: "\<not> ascii_ws c \<Longrightarrow> code c < 128 \<Longrightarrow> c \<notin> set redacted \<Longrightarrow> c \<notin> set (lead line @ redacted)"
  using lead_chars [of c line] by auto

lemma redact_line_idem: "redact_line (redact_line line) = redact_line line"
proof (cases "is_authorization line")
  case True
  let ?r = "lead line @ redacted"
  have "ws_len redacted = 0" by (simp add: redacted_def ascii_ws_def ws2_def ws3_def)
  then have "trim_start ?r = redacted" by (rule trim_start_lead)
  then have "\<not> is_authorization ?r"
    by (simp add: is_authorization_def starts_with_def redacted_def to_ascii_uppercase_def)
  moreover have "CHR ''='' \<notin> set ?r" "CHR '':'' \<notin> set ?r"
    by (rule lead_no_char; simp add: ascii_ws_def redacted_def)+
  ultimately have "redact_line ?r = ?r"
    by (simp add: redact_line_def redact_at_def split_once_def)
  then show ?thesis using True by (simp add: redact_line_authorization)
next
  case False
  show ?thesis
  proof (cases "redact_at CHR ''='' line")
    case (Some r)
    then show ?thesis
      using False redact_at_again [OF Some] is_authorization_redact_at [OF _ Some]
      by (simp add: redact_line_def separator_def)
  next
    case None
    show ?thesis
    proof (cases "redact_at CHR '':'' line")
      case None': None
      then show ?thesis using None False by (simp add: redact_line_def)
    next
      case (Some r)
      let ?k = "takeWhile (\<lambda>x. x \<noteq> CHR '':'') line"
      have r: "r = ?k @ CHR '':'' # redacted" and line: "\<exists>t. line = ?k @ CHR '':'' # t"
        using Some split_at_char [of "CHR '':''" line] unfolding redact_at_Some by simp_all
      have "redact_at CHR ''='' r = None"
      proof (cases "CHR ''='' \<in> set ?k")
        case True
        then have "takeWhile (\<lambda>x. x \<noteq> CHR ''='') (?k @ u) = takeWhile (\<lambda>x. x \<noteq> CHR ''='') ?k" for u
          by (simp add: takeWhile_append1)
        then have "takeWhile (\<lambda>x. x \<noteq> CHR ''='') r = takeWhile (\<lambda>x. x \<noteq> CHR ''='') line"
          using r line by metis
        moreover have "CHR ''='' \<in> set line" using True set_takeWhileD by fastforce
        ultimately show ?thesis using None by (auto simp: redact_at_def split_once_def split: if_splits)
      next
        case False
        then show ?thesis using redacted_chars by (simp add: r redact_at_def split_once_def)
      qed
      then show ?thesis
        using False None redact_at_again [OF Some] is_authorization_redact_at [OF _ Some] Some
        by (simp add: redact_line_def separator_def)
    qed
  qed
qed

lemma redact_line_cases:
  obtains (auth) "redact_line line = lead line @ redacted"
    | (at) c k t where "separator c" "line = k @ c # t" "redact_line line = k @ c # redacted"
    | (same) "redact_line line = line"
proof (cases "is_authorization line")
  case True
  then show ?thesis using auth redact_line_authorization by blast
next
  case False
  have at': thesis if "separator c" "redact_at c line = Some r" "redact_line line = r" for c r
    using that split_at_char [of c line] at [of c "takeWhile (\<lambda>x. x \<noteq> c) line"] unfolding redact_at_Some by blast
  show ?thesis
  proof (cases "redact_at CHR ''='' line")
    case (Some r)
    then show ?thesis using at' [OF _ Some] False by (simp add: redact_line_def separator_def)
  next
    case None
    then show ?thesis
      using at' [of "CHR '':''"] same False
      by (cases "redact_at CHR '':'' line") (simp_all add: redact_line_def separator_def)
  qed
qed

lemma newline_redact_line: "newline \<notin> set line \<Longrightarrow> newline \<notin> set (redact_line line)"
proof (cases line rule: redact_line_cases)
  case auth
  moreover have "set (lead line) \<subseteq> set line" by (simp add: lead_def set_take_subset)
  ultimately show "newline \<notin> set line \<Longrightarrow> ?thesis" using redacted_chars by auto
qed (use redacted_chars in auto)

lemma redact_line_eq_Nil: "redact_line line = [] \<Longrightarrow> line = []"
  by (cases line rule: redact_line_cases) (auto simp: redacted_def)

lemma sublist_append_stop:
  assumes "c \<notin> set p" "sublist p (k @ c # t)"
  shows "sublist p k \<or> sublist p t"
  using assms(2)
proof (induction k)
  case Nil
  then show ?case using assms(1) by (auto simp: sublist_Cons_right prefix_Cons)
next
  case (Cons x k)
  show ?case
  proof (cases "prefix p (x # k @ c # t)")
    case True
    then have "prefix p ((x # k @ [c]) @ t)" by simp
    then have "prefix p (x # k @ [c])"
      using assms(1) prefix_append_stop [of c p "x # k @ [c]" t] in_set_butlastD by fastforce
    then have "prefix p (x # k)"
      using assms(1) by (metis append_Cons prefix_snoc in_set_conv_decomp)
    then show ?thesis by (simp add: prefix_imp_sublist)
  next
    case False
    then show ?thesis using Cons by (auto simp: sublist_Cons_right)
  qed
qed

lemma sublist_appendI1: "sublist p a \<Longrightarrow> sublist p (a @ b)"
  by (simp add: sublist_append)

lemma begins_key_redact_line: "begins_key (redact_line line) \<Longrightarrow> begins_key line"
proof (cases line rule: redact_line_cases)
  case auth
  have "CHR ''-'' \<notin> set (lead line @ redacted)" by (rule lead_no_char) (simp_all add: ascii_ws_def redacted_def)
  then have "CHR ''-'' \<notin> set (to_ascii_uppercase (lead line @ redacted))" by (subst upper_fixed) simp_all
  moreover assume "begins_key (redact_line line)"
  ultimately show ?thesis
    using auth by (auto simp: begins_key_def str_contains_iff dest!: set_mono_sublist)
next
  case (at c k t)
  have upper: "to_ascii_uppercase (k @ c # u) = to_ascii_uppercase k @ c # to_ascii_uppercase u" for u
    using at(1) by (auto simp: to_ascii_uppercase_def separator_def)
  have keep: "str_contains (to_ascii_uppercase line) p"
    if "str_contains (to_ascii_uppercase (redact_line line)) p" "c \<notin> set p"
      "\<not> str_contains (to_ascii_uppercase redacted) p" for p
  proof -
    have "sublist p (to_ascii_uppercase k @ c # to_ascii_uppercase redacted)"
      using that(1) unfolding str_contains_iff at(3) upper .
    from sublist_append_stop [OF that(2) this] have "sublist p (to_ascii_uppercase k)"
      using that(3) unfolding str_contains_iff by simp
    then show ?thesis unfolding str_contains_iff at(2) upper by (rule sublist_appendI1)
  qed
  assume begins: "begins_key (redact_line line)"
  show ?thesis
    unfolding begins_key_def
  proof
    show "str_contains (to_ascii_uppercase line) ''-----BEGIN''"
      by (rule keep [OF conjunct1 [OF begins [unfolded begins_key_def]]])
         (use at(1) in \<open>auto simp: separator_def to_ascii_uppercase_def redacted_def\<close>)
    show "str_contains (to_ascii_uppercase line) ''PRIVATE KEY-----''"
      by (rule keep [OF conjunct2 [OF begins [unfolded begins_key_def]]])
         (use at(1) in \<open>auto simp: separator_def to_ascii_uppercase_def redacted_def\<close>)
  qed
qed simp

lemma redact_line_plain:
  "\<not> is_authorization line \<Longrightarrow> CHR ''='' \<notin> set line \<Longrightarrow> CHR '':'' \<notin> set line \<Longrightarrow> redact_line line = line"
  by (simp add: redact_line_def redact_at_def split_once_def)

lemma begins_key_dash: "begins_key line \<Longrightarrow> CHR ''-'' \<in> set line"
  using upper_fixed [of "CHR ''-''" line]
  by (auto simp: begins_key_def str_contains_iff dest!: set_mono_sublist)

lemma redact_line_constants: "redact_line redacted = redacted" "redact_line redacted_key = redacted_key"
  by (rule redact_line_plain; simp add: redacted_def redacted_key_def is_authorization_def trim_start.simps
      ascii_ws_def ws2_def ws3_def starts_with_def to_ascii_uppercase_def)+

lemma begins_key_constants: "\<not> begins_key redacted" "\<not> begins_key redacted_key"
  using begins_key_dash by (force simp: redacted_def redacted_key_def)+

lemma cut_newline_append [simp]: "newline \<notin> set line \<Longrightarrow> cut_newline (line @ [newline]) = (line, [newline])"
  by (simp add: cut_newline_def strip_suffix_char_def)

lemma cut_newline_plain [simp]: "newline \<notin> set line \<Longrightarrow> cut_newline line = (line, [])"
  using last_in_set by (fastforce simp: cut_newline_def strip_suffix_char_def)

lemma cut_newline_cases:
  assumes "\<exists>u. newline \<notin> set u \<and> (w = u @ [newline] \<or> w = u)"
  obtains line nl where "cut_newline w = (line, nl)" "newline \<notin> set line" "nl = [] \<or> nl = [newline]" "w = line @ nl"
proof -
  obtain u where u: "newline \<notin> set u" "w = u @ [newline] \<or> w = u" using assms by blast
  from u(2) show ?thesis
    by (elim disjE) (use that [of u "[newline]"] that [of u "[]"] u(1) in simp_all)
qed

text \<open>What one segment becomes, and whether a key block is open after it.\<close>

definition redact_segment :: "bool \<Rightarrow> string \<Rightarrow> string" where
  "redact_segment open segment =
     (case cut_newline segment of (line, nl) \<Rightarrow>
        (if begins_key line then redacted_key else if open then redacted else redact_line line) @ nl)"

definition key_open :: "bool \<Rightarrow> string \<Rightarrow> bool" where
  "key_open open segment =
     (let line = fst (cut_newline segment) in begins_key line \<or> open \<and> \<not> ends_key line)"

lemma redact_segments_Cons:
  "redact_segments open (w # ws) = redact_segment open w # redact_segments (key_open open w) ws"
  by (simp add: redact_segment_def key_open_def split: prod.split)

lemma redact_segment_form:
  assumes "\<exists>u. newline \<notin> set u \<and> (w = u @ [newline] \<or> w = u)"
  obtains line line' nl where "w = line @ nl" "newline \<notin> set line" "redact_segment open w = line' @ nl" "newline \<notin> set line'"
    "nl = [] \<or> nl = [newline]" "redact_line line' = line'" "\<not> begins_key line'" "line' = [] \<longrightarrow> line = []"
proof -
  obtain line nl where c: "cut_newline w = (line, nl)" "newline \<notin> set line" "nl = [] \<or> nl = [newline]" "w = line @ nl"
    using assms by (rule cut_newline_cases)
  define l where "l = (if begins_key line then redacted_key else if open then redacted else redact_line line)"
  consider "l = redacted_key" | "l = redacted" | "l = redact_line line" "\<not> begins_key line"
    unfolding l_def by presburger
  then have "newline \<notin> set l \<and> redact_line l = l \<and> \<not> begins_key l \<and> (l = [] \<longrightarrow> line = [])"
  proof cases
    case 1
    then show ?thesis using redact_line_constants begins_key_constants by (simp add: redacted_key_chars)
  next
    case 2
    then show ?thesis using redact_line_constants begins_key_constants by (simp add: redacted_chars redacted_key_chars)
  next
    case 3
    then show ?thesis
      using newline_redact_line [OF c(2)] redact_line_idem begins_key_redact_line redact_line_eq_Nil by metis
  qed
  moreover have "redact_segment open w = l @ nl" by (simp add: redact_segment_def c(1) l_def)
  ultimately show ?thesis using that c by blast
qed

lemma redact_segments_ok: "segments_ok newline ws \<Longrightarrow> segments_ok newline (redact_segments open ws)"
proof (induction ws arbitrary: "open")
  case (Cons w ws)
  have w: "\<exists>u. newline \<notin> set u \<and> (w = u @ [newline] \<or> w = u)" "w \<noteq> []"
    using Cons.prems by (cases "ws = []"; auto simp: segments_ok_def segments_ok_Cons)+
  obtain line line' nl where f: "w = line @ nl" "redact_segment open w = line' @ nl" "newline \<notin> set line'"
    "nl = [] \<or> nl = [newline]" "newline \<notin> set line" "line' = [] \<longrightarrow> line = []"
    using redact_segment_form [OF w(1)] by metis
  show ?case
  proof (cases "ws = []")
    case True
    then show ?thesis using f w(2) by (auto simp: redact_segments_Cons segments_ok_def simp del: redact_segments.simps(2))
  next
    case False
    then obtain u where "segments_ok newline ws" "w = u @ [newline]" using Cons.prems by (auto simp: segments_ok_Cons)
    moreover from this(2) have "nl = [newline]" using f(1,4,5) by auto
    moreover have "redact_segments (key_open open w) ws \<noteq> []"
      using False by (cases ws) (simp_all add: redact_segments_Cons del: redact_segments.simps(2))
    ultimately show ?thesis
      using Cons.IH f by (auto simp: redact_segments_Cons segments_ok_Cons simp del: redact_segments.simps(2))
  qed
qed simp

lemma redact_segments_fixed:
  assumes "\<And>w. w \<in> set ws \<Longrightarrow> \<exists>line nl. w = line @ nl \<and> newline \<notin> set line
     \<and> (nl = [] \<or> nl = [newline]) \<and> redact_line line = line \<and> \<not> begins_key line"
  shows "redact_segments False ws = ws"
  using assms
proof (induction ws)
  case (Cons w ws)
  obtain line nl where w: "w = line @ nl" "newline \<notin> set line" "nl = [] \<or> nl = [newline]"
    "redact_line line = line" "\<not> begins_key line" using Cons.prems [of w] by auto
  have "cut_newline w = (line, nl)" using w(1-3) by auto
  then have "redact_segment False w = w" "key_open False w = False"
    using w by (simp_all add: redact_segment_def key_open_def)
  then show ?case using Cons by (simp add: redact_segments_Cons del: redact_segments.simps(2))
qed simp

lemma redact_segments_form:
  "(\<And>w. w \<in> set ws \<Longrightarrow> \<exists>u. newline \<notin> set u \<and> (w = u @ [newline] \<or> w = u)) \<Longrightarrow>
   w \<in> set (redact_segments open ws) \<Longrightarrow>
   \<exists>line nl. w = line @ nl \<and> newline \<notin> set line
     \<and> (nl = [] \<or> nl = [newline]) \<and> redact_line line = line \<and> \<not> begins_key line"
proof (induction ws arbitrary: "open")
  case (Cons v ws)
  then consider "w = redact_segment open v" | "w \<in> set (redact_segments (key_open open v) ws)"
    by (auto simp: redact_segments_Cons simp del: redact_segments.simps(2))
  then show ?case
  proof cases
    case 1
    have "\<exists>u. newline \<notin> set u \<and> (v = u @ [newline] \<or> v = u)" by (rule Cons.prems(1)) simp
    from redact_segment_form [OF this, of "open"] 1 show ?thesis by metis
  next
    case 2
    then show ?thesis using Cons.IH Cons.prems(1) by auto
  qed
qed simp

lemma redact_text_idem: "redact_text (redact_text s) = redact_text s"
proof -
  let ?ws = "split_inclusive newline s"
  have "split_inclusive newline (concat (redact_segments False ?ws)) = redact_segments False ?ws"
    by (rule split_inclusive_concat [OF redact_segments_ok [OF segments_ok_split]])
  moreover have "redact_segments False (redact_segments False ?ws) = redact_segments False ?ws"
    by (rule redact_segments_fixed) (rule redact_segments_form [OF split_inclusive_segment])
  ultimately show ?thesis by (simp add: redact_text_def)
qed

subsection \<open>Redaction hides values\<close>

lemma split_inclusive_pre:
  "pre = [] \<or> last pre = d \<Longrightarrow> split_inclusive d (pre @ s) = split_inclusive d pre @ split_inclusive d s"
proof (induction pre)
  case (Cons c cs)
  show ?case
  proof (cases "cs = []")
    case True
    then show ?thesis using Cons.prems by simp
  next
    case False
    then have "split_inclusive d (cs @ s) = split_inclusive d cs @ split_inclusive d s" using Cons by simp
    moreover have "split_inclusive d cs \<noteq> []" using False by (cases cs) (auto split: list.splits)
    ultimately show ?thesis by (auto split: list.splits)
  qed
qed simp

lemma split_inclusive_line:
  assumes "newline \<notin> set line" "line \<noteq> []" "post = [] \<or> hd post = newline"
  shows "split_inclusive newline (line @ post) =
    (line @ take 1 post) # split_inclusive newline (drop 1 post)"
  using assms split_inclusive_append [of newline line "tl post"] split_inclusive_no_sep [of newline line]
  by (cases post) auto

lemma redact_segments_replace:
  assumes "\<And>open. redact_segment open v = redact_segment open v'" "\<And>open. key_open open v = key_open open v'"
  shows "redact_segments open (ws @ v # us) = redact_segments open (ws @ v' # us)"
  using assms
  by (induction ws arbitrary: "open") (simp_all add: redact_segments_Cons del: redact_segments.simps(2))

definition secret_key :: "string \<Rightarrow> bool" where
  "secret_key k \<longleftrightarrow> list_ex (str_contains (to_ascii_uppercase (trim k))) secret_markers"

lemma lead_stop:
  assumes "separator c"
  shows "lead (k @ c # v) = lead (k @ [c])"
proof -
  have "trim_start (k @ c # v) = trim_start (k @ [c]) @ v" "c \<in> set (trim_start (k @ [c]))"
    using trim_start_stop [OF assms, of k v] by blast+
  moreover from this(2) have "Suc 0 - length (trim_start (k @ [c])) = 0" by (cases "trim_start (k @ [c])") auto
  ultimately show ?thesis by (simp add: lead_def)
qed

lemma takeWhile_at: "c \<notin> set k \<Longrightarrow> takeWhile (\<lambda>x. x \<noteq> c) (k @ c # v) = k"
  by (induction k) auto

lemma redact_line_hides:
  assumes c: "c = CHR ''='' \<or> c = CHR '':'' \<and> CHR ''='' \<notin> set v \<and> CHR ''='' \<notin> set v'"
    and k: "c \<notin> set k" "secret_key k"
  shows "redact_line (k @ c # v) = redact_line (k @ c # v')"
proof -
  have sep: "separator c" using c by (auto simp: separator_def)
  have auth: "is_authorization (k @ c # v) = is_authorization (k @ c # v')"
    using is_authorization_stop [OF sep] by blast
  have at: "redact_at c (k @ c # u) = Some (k @ c # redacted)" for u
    using k by (simp add: redact_at_Some takeWhile_at secret_key_def)
  have eq: "redact_at CHR ''='' (k @ c # v) = redact_at CHR ''='' (k @ c # v')"
  proof (cases "c = CHR ''=''")
    case True
    then show ?thesis using at by simp
  next
    case False
    then have "takeWhile (\<lambda>x. x \<noteq> CHR ''='') (k @ c # v) = takeWhile (\<lambda>x. x \<noteq> CHR ''='') (k @ c # v')"
      if "CHR ''='' \<in> set k" using that by (simp add: takeWhile_append1)
    then show ?thesis using c False by (auto simp: redact_at_def split_once_def)
  qed
  show ?thesis
  proof (cases "is_authorization (k @ c # v)")
    case True
    then show ?thesis using auth lead_stop [OF sep, of k v] lead_stop [OF sep, of k v'] by (simp add: redact_line_authorization)
  next
    case False
    then show ?thesis
      using auth eq at c by (auto simp: redact_line_def split: option.split)
  qed
qed

lemma key_marks_stop:
  assumes "separator c" "CHR ''-'' \<notin> set v" "CHR ''-'' \<in> set p" "c \<notin> set p"
  shows "str_contains (to_ascii_uppercase (k @ c # v)) p \<longleftrightarrow> str_contains (to_ascii_uppercase k) p"
proof -
  have upper: "to_ascii_uppercase (k @ c # v) = to_ascii_uppercase k @ c # to_ascii_uppercase v"
    using assms(1) by (auto simp: to_ascii_uppercase_def separator_def)
  have "\<not> sublist p (to_ascii_uppercase v)"
    using assms(2,3) upper_fixed [of "CHR ''-''" v] by (auto dest: set_mono_sublist)
  then show ?thesis
    using sublist_append_stop [OF assms(4)] sublist_appendI1 unfolding str_contains_iff upper by metis
qed

lemma key_lines_stop:
  assumes "separator c" "CHR ''-'' \<notin> set v"
  shows "begins_key (k @ c # v) \<longleftrightarrow> begins_key k" "ends_key (k @ c # v) \<longleftrightarrow> ends_key k"
proof -
  have "CHR ''-'' \<in> set p \<and> c \<notin> set p" if "p \<in> {''-----BEGIN'', ''-----END'', ''PRIVATE KEY-----''}" for p
    using assms(1) that by (auto simp: separator_def)
  then have "str_contains (to_ascii_uppercase (k @ c # v)) p \<longleftrightarrow> str_contains (to_ascii_uppercase k) p"
    if "p \<in> {''-----BEGIN'', ''-----END'', ''PRIVATE KEY-----''}" for p
    using key_marks_stop [OF assms] that by blast
  note this = this [OF insertI1] this [OF insertI2 [OF insertI1]] this [OF insertI2 [OF insertI2 [OF insertI1]]]
  then show "begins_key (k @ c # v) \<longleftrightarrow> begins_key k" "ends_key (k @ c # v) \<longleftrightarrow> ends_key k"
    unfolding begins_key_def ends_key_def by simp_all
qed



text \<open>
  The condition on \<open>:\<close> is needed. The separator \<open>=\<close> is tried first, so of a line \<open>key: value\<close> whose
  value has a \<open>=\<close> in it, such as base64 padding, everything up to that \<open>=\<close> stays.
\<close>

lemma padded_value_leaks: "redact_text ''api_key: c2VjcmV0MQ=='' = ''api_key: c2VjcmV0MQ=[REDACTED]''"
  by code_simp

section \<open>The output reducer\<close>

record TokenBudget =
  max_tokens :: nat

definition default_token_budget :: TokenBudget where
  "default_token_budget = \<lparr>max_tokens = 2000\<rparr>"

type_synonym rtk_reduce = "string \<Rightarrow> nat \<Rightarrow> string option"

record OutputReducer =
  reducer_budget :: TokenBudget
  reducer_rtk :: "rtk_reduce option"

datatype ReducerUsed = NoneUsed | Rtk | Builtin

datatype ReductionStrategy = HeadOnly | TailOnly | HeadAndTail | ErrorsOnly

record ReducedOutput =
  reduced_content :: string
  reduced_truncated :: bool
  original_tokens :: nat
  reduced_tokens :: nat
  reducer_used :: ReducerUsed

definition new_without_rtk :: "TokenBudget \<Rightarrow> OutputReducer" where
  "new_without_rtk budget = \<lparr>reducer_budget = budget, reducer_rtk = None\<rparr>"

definition estimate_tokens :: "string \<Rightarrow> nat" where
  "estimate_tokens text = (length text + 3) div 4"

definition truncation_note :: string where
  "truncation_note = newline # ''... (truncated)''"

definition truncate_to_budget :: "string \<Rightarrow> nat \<Rightarrow> string" where
  "truncate_to_budget text budget =
     (if length text \<le> budget * 4 then text else take_chars (budget * 4) text @ truncation_note)"

definition unreduced :: "string \<Rightarrow> ReducedOutput" where
  "unreduced raw =
     \<lparr>reduced_content = raw, reduced_truncated = False, original_tokens = estimate_tokens raw,
      reduced_tokens = estimate_tokens raw, reducer_used = NoneUsed\<rparr>"

definition builtin :: "string \<Rightarrow> nat \<Rightarrow> ReducedOutput" where
  "builtin text estimated =
     \<lparr>reduced_content = text, reduced_truncated = True, original_tokens = estimated,
      reduced_tokens = estimate_tokens text, reducer_used = Builtin\<rparr>"

definition with_newline :: "string \<Rightarrow> string" where
  "with_newline line = line @ [newline]"

definition omission_note :: "nat \<Rightarrow> string" where
  "omission_note omitted =
     newline # ''... ('' @ nat_to_string omitted @ '' lines omitted) ...'' @ [newline, newline]"

definition reduce_builtin :: "OutputReducer \<Rightarrow> string \<Rightarrow> nat \<Rightarrow> ReducedOutput" where
  "reduce_builtin r raw estimated =
     (let lines = str_lines raw; total = length lines; budget = max_tokens (reducer_budget r) in
      if total \<le> 10 then builtin (truncate_to_budget raw budget) estimated
      else
        (let head_lines = total div 3; tail_lines = total div 3;
             omitted = total - head_lines - tail_lines;
             reduced = concat (map with_newline (take head_lines lines)) @ omission_note omitted
               @ concat (map with_newline (drop (total - tail_lines) lines))
         in builtin (if budget < estimate_tokens reduced then truncate_to_budget reduced budget else reduced)
              estimated))"

definition reduce_output :: "OutputReducer \<Rightarrow> string \<Rightarrow> ReducedOutput" where
  "reduce_output r raw =
     (let estimated = estimate_tokens raw; budget = max_tokens (reducer_budget r) in
      if estimated \<le> budget then unreduced raw
      else (case Option.bind (reducer_rtk r) (\<lambda>rtk. rtk raw budget) of
              Some text \<Rightarrow> (builtin text estimated)\<lparr>reducer_used := Rtk\<rparr>
            | None \<Rightarrow> reduce_builtin r raw estimated))"

definition reduce_head_only :: "OutputReducer \<Rightarrow> string \<Rightarrow> ReducedOutput" where
  "reduce_head_only r raw =
     (if estimate_tokens raw \<le> max_tokens (reducer_budget r) then unreduced raw
      else builtin (truncate_to_budget raw (max_tokens (reducer_budget r))) (estimate_tokens raw))"

text \<open>The loop over the lines from the end: the text so far and its tokens.\<close>

fun tail_loop :: "nat \<Rightarrow> string list \<Rightarrow> string \<times> nat \<Rightarrow> string \<times> nat" where
  "tail_loop budget [] acc = acc"
| "tail_loop budget (line # rest) (text, tokens) =
     (if budget < tokens + estimate_tokens line then (text, tokens)
      else tail_loop budget rest (newline # line @ text, tokens + estimate_tokens line))"

definition reduce_tail_only :: "OutputReducer \<Rightarrow> string \<Rightarrow> ReducedOutput" where
  "reduce_tail_only r raw =
     (if estimate_tokens raw \<le> max_tokens (reducer_budget r) then unreduced raw
      else (case tail_loop (max_tokens (reducer_budget r)) (rev (str_lines raw)) ([], 0) of
              (text, tokens) \<Rightarrow> (builtin text (estimate_tokens raw))\<lparr>reduced_tokens := tokens\<rparr>))"

definition is_error_line :: "string \<Rightarrow> bool" where
  "is_error_line line =
     list_ex (str_contains (to_ascii_lowercase line)) [''error'', ''failed'', ''panic'', ''assertion'']"

definition reduce_errors_only :: "OutputReducer \<Rightarrow> string \<Rightarrow> ReducedOutput" where
  "reduce_errors_only r raw =
     (let error_lines = filter is_error_line (str_lines raw); budget = max_tokens (reducer_budget r) in
      if error_lines = [] then reduce_head_only r raw
      else
        (let reduced = str_join [newline] error_lines in
         if budget < estimate_tokens reduced
         then builtin (truncate_to_budget reduced budget) (estimate_tokens raw)
         else (builtin reduced (estimate_tokens raw))
                \<lparr>reduced_truncated := length error_lines < length (str_lines raw)\<rparr>))"

fun reduce_with_strategy :: "OutputReducer \<Rightarrow> string \<Rightarrow> ReductionStrategy \<Rightarrow> ReducedOutput" where
  "reduce_with_strategy r raw HeadOnly = reduce_head_only r raw"
| "reduce_with_strategy r raw TailOnly = reduce_tail_only r raw"
| "reduce_with_strategy r raw HeadAndTail = reduce_output r raw"
| "reduce_with_strategy r raw ErrorsOnly = reduce_errors_only r raw"

subsection \<open>Bounds\<close>

lemma char_count_le_length: "char_count s \<le> length s"
  by (simp add: char_count_def)

lemma estimate_tokens_le: "estimate_tokens s \<le> n \<longleftrightarrow> length s \<le> n * 4"
  by (auto simp: estimate_tokens_def)

lemma char_count_truncate: "char_count (truncate_to_budget s n) \<le> n * 4 + 16"
proof -
  have "char_count truncation_note = 16" by code_simp
  then show ?thesis
    using char_count_le_length [of s] by (simp add: truncate_to_budget_def char_count_take_chars)
qed

lemma char_count_reduce_builtin: "char_count (reduced_content (reduce_builtin r raw n)) \<le> max_tokens (reducer_budget r) * 4 + 16"
proof -
  have "char_count s \<le> m * 4 + 16" if "\<not> m < estimate_tokens s" for s m
    using that char_count_le_length [of s] by (simp add: estimate_tokens_le not_less)
  then show ?thesis
    using char_count_truncate by (simp add: reduce_builtin_def builtin_def Let_def del: char_count_append)
qed

lemma reduce_builtin_truncated [simp]: "reduced_truncated (reduce_builtin r raw n)"
  by (simp add: reduce_builtin_def builtin_def Let_def)

text \<open>
  Reduction keeps within the budget: without the external program, the result of every strategy
  but the one for the end of a text has at most four characters per token of the budget and the
  sixteen of the note on truncation; and whatever the strategy, a result that is not marked as
  truncated and not a selection of error lines is the text itself and fits the budget.
\<close>

theorem reduction_bounded:
  "(strategy \<noteq> TailOnly \<longrightarrow>
      char_count (reduced_content (reduce_with_strategy (new_without_rtk budget) raw strategy))
        \<le> max_tokens budget * 4 + 16)
   \<and> (let out = reduce_with_strategy (new_without_rtk budget) raw strategy in
      \<not> reduced_truncated out \<and> reducer_used out = NoneUsed \<longrightarrow>
      reduced_content out = raw \<and> reduced_tokens out \<le> max_tokens budget)"
proof -
  have small: "char_count s \<le> m * 4 + 16" if "estimate_tokens s \<le> m" for s m
    using that char_count_le_length [of s] by (simp add: estimate_tokens_le)
  show ?thesis
    using char_count_reduce_builtin [of "new_without_rtk budget" raw "estimate_tokens raw"] char_count_truncate small
    by (cases strategy)
       (auto simp: reduce_head_only_def reduce_output_def reduce_errors_only_def reduce_tail_only_def
         new_without_rtk_def unreduced_def builtin_def Let_def not_less split: prod.splits)
qed

theorem reduction_bounded_witness:
  "char_count (reduced_content (reduce_with_strategy (new_without_rtk \<lparr>max_tokens = 1\<rparr>) ''0123456789'' HeadOnly)) \<le> 20
   \<and> reduced_content (reduce_with_strategy (new_without_rtk \<lparr>max_tokens = 1\<rparr>) ''0123'' HeadOnly) = ''0123''"
proof -
  have "\<not> reduced_truncated (reduce_with_strategy (new_without_rtk \<lparr>max_tokens = 1\<rparr>) ''0123'' HeadOnly)"
    "reducer_used (reduce_with_strategy (new_without_rtk \<lparr>max_tokens = 1\<rparr>) ''0123'' HeadOnly) = NoneUsed"
    by code_simp+
  then show ?thesis
    using reduction_bounded [of HeadOnly "\<lparr>max_tokens = 1\<rparr>" "''0123456789''"]
      reduction_bounded [of HeadOnly "\<lparr>max_tokens = 1\<rparr>" "''0123''"]
    by (simp add: Let_def del: reduce_with_strategy.simps)
qed

text \<open>
  The bound is one on characters. Tokens are estimated from bytes, so a truncated text of two-byte
  characters is estimated above the budget it was cut to.
\<close>

lemma multibyte_exceeds_budget:
  "reduced_tokens (reduce_head_only (new_without_rtk \<lparr>max_tokens = 10\<rparr>)
     (concat (replicate 40 [CHR 0xC3, CHR 0xA9]))) = 24"
  by code_simp

text \<open>The end of a text is reduced line by line, and a blank line costs nothing.\<close>

lemma blank_tail_unbounded:
  assumes "4 < n"
  shows "reduced_content (reduce_tail_only (new_without_rtk \<lparr>max_tokens = 1\<rparr>) (replicate n newline)) = replicate n newline"
proof -
  have lines: "str_lines (replicate m newline) = replicate m []" for m
    by (induction m) (simp_all add: str_lines_def line_of_def strip_suffix_char_def)
  have "tail_loop 1 (replicate m []) (t, 0) = (replicate m newline @ t, 0)" for m t
    by (induction m arbitrary: t) (simp_all add: estimate_tokens_def replicate_app_Cons_same)
  then show ?thesis
    using assms lines by (simp add: reduce_tail_only_def new_without_rtk_def estimate_tokens_def builtin_def unreduced_def)
qed

end
