(* ===== verification/Workspace_Tools.thy ===== *)
theory Workspace_Tools
  imports Runtime Text_Reduction
begin

text \<open>
  The workspace tools of \<open>crates/impetus-core/src/tools.rs\<close>: listing, reading and searching files
  below the workspace root, behind the effect seam, and the write of an approved file.

  The disk is the record \<open>disk\<close>: what the calls of \<open>std::fs\<close> return at the time of the tool, errors as
  their text, together with the RTK program, if there is one, and the Unicode lower case that the
  search uses. File names are valid UTF-8. Writing is a function on a state of its own.
\<close>

section \<open>Bytes to text\<close>

text \<open>
  \<open>String::from_utf8_lossy\<close>. \<open>utf8_chunk\<close> is the length of the character at the start of the bytes and
  whether it is whole; the bytes of a broken one, as far as they could start a character, become
  one \<open>U+FFFD\<close>.
\<close>

definition utf8_second :: "nat \<Rightarrow> nat \<times> nat" where
  "utf8_second b =
     (if b = 224 then (160, 191) else if b = 237 then (128, 159)
      else if b = 240 then (144, 191) else if b = 244 then (128, 143) else (128, 191))"

definition utf8_width :: "nat \<Rightarrow> nat" where
  "utf8_width b =
     (if b < 128 then 1 else if 194 \<le> b \<and> b \<le> 223 then 2 else if 224 \<le> b \<and> b \<le> 239 then 3
      else if 240 \<le> b \<and> b \<le> 244 then 4 else 0)"

definition continues :: "nat \<Rightarrow> char \<Rightarrow> nat \<Rightarrow> bool" where
  "continues b c i =
     (if i = 1 then fst (utf8_second b) \<le> code c \<and> code c \<le> snd (utf8_second b)
      else 128 \<le> code c \<and> code c \<le> 191)"

fun utf8_tail :: "nat \<Rightarrow> nat \<Rightarrow> nat \<Rightarrow> string \<Rightarrow> nat" where
  "utf8_tail b i 0 cs = i"
| "utf8_tail b i (Suc n) [] = i"
| "utf8_tail b i (Suc n) (c # cs) = (if continues b c i then utf8_tail b (Suc i) n cs else i)"

definition utf8_chunk :: "char \<Rightarrow> string \<Rightarrow> nat \<times> bool" where
  "utf8_chunk c cs =
     (let w = utf8_width (code c); n = utf8_tail (code c) 1 (w - 1) cs in (n, n = w))"

definition replacement_character :: string where
  "replacement_character = [CHR 0xEF, CHR 0xBF, CHR 0xBD]"

function from_utf8_lossy :: "string \<Rightarrow> string" where
  "from_utf8_lossy [] = []"
| "from_utf8_lossy (c # cs) =
     (let (n, whole) = utf8_chunk c cs
      in (if whole then take n (c # cs) else replacement_character) @ from_utf8_lossy (drop (n - 1) cs))"
  by pat_completeness auto
termination
  by (relation "measure length") auto

declare from_utf8_lossy.simps(2) [simp del]

section \<open>Types\<close>

datatype ReadOnlyToolKind = List | Read | Search

datatype ReadOnlyTool =
    List (tool_target: string)
  | Read (tool_target: string)
  | Search (tool_target: string) (search_pattern: string)

fun read_only_kind :: "ReadOnlyTool \<Rightarrow> ReadOnlyToolKind" where
  "read_only_kind (ReadOnlyTool.List _) = ReadOnlyToolKind.List"
| "read_only_kind (ReadOnlyTool.Read _) = ReadOnlyToolKind.Read"
| "read_only_kind (ReadOnlyTool.Search _ _) = ReadOnlyToolKind.Search"

record ToolProvenance =
  provenance_root :: string
  provenance_path :: string
  provenance_in_scope :: bool

record ToolResult =
  result_tool :: ReadOnlyToolKind
  result_provenance :: ToolProvenance
  result_preview :: string
  result_truncated :: bool
  result_artifact :: "DurableArtifactRef option"
  result_line_count :: nat
  result_byte_count :: nat
  result_original_tokens :: nat
  result_reduced_tokens :: nat

datatype ToolOutcome = Allowed ToolResult | Denied string string

datatype ToolError = Io string | Artifact string

fun tool_error_text :: "ToolError \<Rightarrow> string" where
  "tool_error_text (Io e) = ''io error while running read-only tool: '' @ e"
| "tool_error_text (Artifact e) = ''artifact store error: '' @ e"

text \<open>
  A directory as \<open>read_dir\<close> and the iterator over its entries show it: either call may fail, and so
  may the query of an entry's type. Symbolic links are \<open>IsOther\<close>, so directories are finite trees.
\<close>

datatype dir_tree = Unreadable string | Readable "dir_item list"
  and dir_item = NoItem string | Item (item_name: string) (item_type: file_type)
  and file_type = NoType string | IsDir dir_tree | IsFile | IsOther

record disk =
  disk_fs :: file_system
  disk_no_path :: "string \<Rightarrow> string"
  disk_read_dir :: "string \<Rightarrow> dir_tree"
  disk_len :: "string \<Rightarrow> string + nat"
  disk_read :: "string \<Rightarrow> nat \<Rightarrow> string + string"
  disk_lowercase :: "string \<Rightarrow> string"
  disk_rtk :: "rtk_reduce option"

definition disk_canonicalize :: "disk \<Rightarrow> string \<Rightarrow> ToolError + string" where
  "disk_canonicalize d p = ok_or (canonicalize (disk_fs d) p) (Io (disk_no_path d p))"

definition MAX_TOOL_PREVIEW_BYTES :: nat where "MAX_TOOL_PREVIEW_BYTES = 16 * 1024"
definition MAX_SEARCH_FILES :: nat where "MAX_SEARCH_FILES = 200"
definition MAX_FILE_READ_BYTES :: nat where "MAX_FILE_READ_BYTES = 2 * 1024 * 1024"
definition MAX_TOOL_CAPTURE_BYTES :: nat where "MAX_TOOL_CAPTURE_BYTES = 2 * 1024 * 1024"

section \<open>Writing\<close>

definition write_file_in_scope ::
    "disk \<Rightarrow> (string \<Rightarrow> string \<Rightarrow> 'w \<Rightarrow> (string + unit) \<times> 'w) \<Rightarrow> string \<Rightarrow> string \<Rightarrow> string \<Rightarrow> 'w
     \<Rightarrow> (ToolError + unit) \<times> 'w" where
  "write_file_in_scope d fs_write root candidate content w =
     (case disk_canonicalize d root of
        Inl e \<Rightarrow> (Inl e, w)
      | Inr root' \<Rightarrow>
          (let target = target_path root' candidate in
           case path_parent target of
             None \<Rightarrow> (Inl (Io ''write target has no parent''), w)
           | Some parent \<Rightarrow>
               (case disk_canonicalize d parent of
                  Inl e \<Rightarrow> (Inl e, w)
                | Inr parent' \<Rightarrow>
                    if \<not> path_starts_with parent' root'
                    then (Inl (Io ''write target is outside workspace scope''), w)
                    else (case fs_write target content w of (r, w') \<Rightarrow> (map_sum Io id r, w')))))"

section \<open>Listing and reading\<close>

definition resolve_in_scope :: "disk \<Rightarrow> string \<Rightarrow> string \<Rightarrow> string option" where
  "resolve_in_scope d root candidate =
     Option.bind (canonicalize (disk_fs d) root) (\<lambda>root'.
       Option.bind (canonicalize (disk_fs d) (target_path root candidate)) (\<lambda>resolved.
         if path_starts_with resolved root' then Some resolved else None))"

definition usize_saturating_add :: "nat \<Rightarrow> nat \<Rightarrow> nat" where
  "usize_saturating_add a b = min (a + b) (2 ^ 64 - 1)"

fun list_items :: "nat \<Rightarrow> string list \<Rightarrow> dir_item list \<Rightarrow> ToolError + string list" where
  "list_items captured out [] = Inr out"
| "list_items captured out (NoItem e # es) = Inl (Io e)"
| "list_items captured out (Item name kind # es) =
     (case kind of
        NoType e \<Rightarrow> Inl (Io e)
      | _ \<Rightarrow>
          (let rendered = name @ (case kind of IsDir _ \<Rightarrow> ''/'' | _ \<Rightarrow> []);
               captured' = usize_saturating_add captured (length rendered + 1)
           in if MAX_TOOL_CAPTURE_BYTES < captured'
              then Inr (out @ [''... listing truncated at output limit''])
              else list_items captured' (out @ [rendered]) es))"

definition list_dir :: "disk \<Rightarrow> string \<Rightarrow> ToolError + string" where
  "list_dir d path =
     (case disk_read_dir d path of
        Unreadable e \<Rightarrow> Inl (Io e)
      | Readable items \<Rightarrow> rbind (list_items 0 [] items) (\<lambda>names. Inr (str_join [newline] (sort names))))"

definition read_workspace_file :: "disk \<Rightarrow> string \<Rightarrow> ToolError + string" where
  "read_workspace_file d path =
     rbind (map_sum Io id (disk_len d path)) (\<lambda>source_bytes.
       rbind (map_sum Io id (disk_read d path MAX_FILE_READ_BYTES)) (\<lambda>bytes.
         Inr (from_utf8_lossy bytes
              @ (if MAX_FILE_READ_BYTES < source_bytes
                 then newline # ''... file truncated at read limit'' else []))))"

section \<open>Searching\<close>

text \<open>
  What the loops of \<open>search\<close> hold; \<open>Stop\<close> is the early \<open>return Ok\<close>, \<open>Fail\<close> the \<open>?\<close> on an entry.
\<close>

record search_state =
  search_matches :: "string list"
  search_captured :: nat
  search_scanned :: nat
  search_stack :: "(string \<times> dir_tree) list"

datatype search_flow = Next search_state | Stop "string list" | Fail ToolError

definition component_text :: "Component \<Rightarrow> string" where
  "component_text c = (case c of Normal w \<Rightarrow> w | ParentDir \<Rightarrow> ''..'' | CurDir \<Rightarrow> ''.'' | RootDir \<Rightarrow> [])"

text \<open>\<open>Path::strip_prefix\<close> on the normalized paths that \<open>canonicalize\<close> and \<open>join\<close> give.\<close>

definition path_strip_prefix :: "string \<Rightarrow> string \<Rightarrow> string option" where
  "path_strip_prefix path base =
     (if path_starts_with path base
      then Some (str_join ''/'' (map component_text (drop (length (components base)) (components path))))
      else None)"

fun search_lines :: "disk \<Rightarrow> string \<Rightarrow> string \<Rightarrow> nat \<Rightarrow> string list \<Rightarrow> search_state \<Rightarrow> search_flow" where
  "search_lines d needle shown n [] st = Next st"
| "search_lines d needle shown n (line # lines) st =
     (if str_contains (disk_lowercase d line) needle
      then (let rendered = shown @ '':'' @ nat_to_string (n + 1) @ '': '' @ line;
                captured = usize_saturating_add (search_captured st) (length rendered + 1)
            in if MAX_TOOL_CAPTURE_BYTES < captured
               then Stop (search_matches st @ [''... search truncated at output limit''])
               else search_lines d needle shown (Suc n) lines
                      (st\<lparr>search_matches := search_matches st @ [rendered], search_captured := captured\<rparr>))
      else search_lines d needle shown (Suc n) lines st)"

definition search_stopped :: string where
  "search_stopped = ''... search stopped after '' @ nat_to_string MAX_SEARCH_FILES @ '' files''"

definition search_file :: "disk \<Rightarrow> string \<Rightarrow> string \<Rightarrow> string \<Rightarrow> search_state \<Rightarrow> search_flow" where
  "search_file d root needle path st =
     (if MAX_SEARCH_FILES \<le> search_scanned st then Stop (search_matches st @ [search_stopped])
      else
        (let st' = st\<lparr>search_scanned := search_scanned st + 1\<rparr>;
             file_size = (case disk_len d path of Inl _ \<Rightarrow> 0 | Inr n \<Rightarrow> n)
         in if file_size \<le> MAX_FILE_READ_BYTES
            then (case disk_read d path MAX_FILE_READ_BYTES of
                    Inl _ \<Rightarrow> Next st'
                  | Inr bytes \<Rightarrow>
                      search_lines d needle (unwrap_or (path_strip_prefix path root) path) 0
                        (str_lines (from_utf8_lossy bytes)) st')
            else Next st'))"

definition skipped_name :: "string \<Rightarrow> bool" where
  "skipped_name name \<longleftrightarrow> name = ''.git'' \<or> name = ''target'' \<or> starts_with name ''.''"

fun search_entries ::
    "disk \<Rightarrow> string \<Rightarrow> string \<Rightarrow> string \<Rightarrow> dir_item list \<Rightarrow> search_state \<Rightarrow> search_flow" where
  "search_entries d root needle dir [] st = Next st"
| "search_entries d root needle dir (NoItem e # es) st = Fail (Io e)"
| "search_entries d root needle dir (Item name kind # es) st =
     (let path = path_join dir name in
      if skipped_name name then search_entries d root needle dir es st
      else (case kind of
        IsDir tree \<Rightarrow>
          search_entries d root needle dir es (st\<lparr>search_stack := (path, tree) # search_stack st\<rparr>)
      | IsFile \<Rightarrow>
          (case search_file d root needle path st of
             Next st' \<Rightarrow> search_entries d root needle dir es st'
           | flow \<Rightarrow> flow)
      | _ \<Rightarrow> search_entries d root needle dir es st))"

text \<open>The search of the directories on the stack ends, because each takes its subtree away.\<close>

definition stack_weight :: "(string \<times> dir_tree) list \<Rightarrow> nat" where
  "stack_weight stack = sum_list (map (\<lambda>(_, tree). Suc (size tree)) stack)"

lemma search_lines_stack:
  "search_lines d needle shown n ls st = Next st' \<Longrightarrow> search_stack st' = search_stack st"
  by (induction d needle shown n ls st rule: search_lines.induct) (auto simp: Let_def split: if_splits)

lemma search_file_stack: "search_file d root needle path st = Next st' \<Longrightarrow> search_stack st' = search_stack st"
  by (auto simp: search_file_def Let_def dest: search_lines_stack split: if_splits sum.splits)

lemma search_entries_weight:
  "search_entries d root needle dir items st = Next st' \<Longrightarrow>
     stack_weight (search_stack st') \<le> stack_weight (search_stack st) + size_list size items"
proof (induction d root needle dir items st rule: search_entries.induct)
  case (3 d root needle dir name kind es st)
  then show ?case
    by (cases kind)
      (auto simp: Let_def stack_weight_def search_file_stack split: if_splits search_flow.splits, fastforce+)
qed auto

function search_dirs :: "disk \<Rightarrow> string \<Rightarrow> string \<Rightarrow> search_state \<Rightarrow> ToolError + string list" where
  "search_dirs d root needle st =
     (case search_stack st of
        [] \<Rightarrow> Inr (search_matches st)
      | (dir, tree) # stack \<Rightarrow>
          (let st1 = st\<lparr>search_stack := stack\<rparr> in
           if MAX_SEARCH_FILES \<le> search_scanned st1 then Inr (search_matches st1 @ [search_stopped])
           else (case tree of
                   Unreadable _ \<Rightarrow> search_dirs d root needle st1
                 | Readable items \<Rightarrow>
                     (case search_entries d root needle dir items st1 of
                        Next st' \<Rightarrow> search_dirs d root needle st'
                      | Stop found \<Rightarrow> Inr found
                      | Fail e \<Rightarrow> Inl e))))"
  by pat_completeness auto
termination
  by (relation "measure (\<lambda>(_, _, _, st). stack_weight (search_stack st))")
    (auto simp: stack_weight_def dest!: search_entries_weight)

declare search_dirs.simps [simp del]

definition search_tree :: "disk \<Rightarrow> string \<Rightarrow> string \<Rightarrow> ToolError + string" where
  "search_tree d root pattern =
     rbind (search_dirs d root (disk_lowercase d pattern)
              \<lparr>search_matches = [], search_captured = 0, search_scanned = 0,
               search_stack = [(root, disk_read_dir d root)]\<rparr>)
       (\<lambda>found. Inr (str_join [newline] (if found = [] then [''(no matches)''] else found)))"

section \<open>The tools behind the seam\<close>

definition run_tool :: "disk \<Rightarrow> ReadOnlyTool \<Rightarrow> string \<Rightarrow> ToolError + string" where
  "run_tool d tool resolved =
     (case tool of
        ReadOnlyTool.List _ \<Rightarrow> list_dir d resolved
      | ReadOnlyTool.Read _ \<Rightarrow> read_workspace_file d resolved
      | ReadOnlyTool.Search _ pattern \<Rightarrow> search_tree d resolved pattern)"

definition default_reducer :: "disk \<Rightarrow> OutputReducer" where
  "default_reducer d = \<lparr>reducer_budget = default_token_budget, reducer_rtk = disk_rtk d\<rparr>"

text \<open>The result of a tool from the text it produced: redacted, reduced, and kept whole when cut.\<close>

definition tool_result ::
    "disk \<Rightarrow> (string \<Rightarrow> string + DurableArtifactRef) \<Rightarrow> ReadOnlyToolKind \<Rightarrow> ToolProvenance \<Rightarrow> string
     \<Rightarrow> ToolError + ToolResult" where
  "tool_result d store kind provenance raw =
     (let full = redact_text raw; byte_count = length full;
          reduced = reduce_output (default_reducer d) full;
          truncated = (MAX_TOOL_PREVIEW_BYTES < byte_count \<or> reduced_truncated reduced)
      in rbind (if truncated then map_sum Artifact Some (store full) else Inr None) (\<lambda>artifact.
           Inr \<lparr>result_tool = kind, result_provenance = provenance, result_preview = reduced_content reduced,
                result_truncated = truncated, result_artifact = artifact,
                result_line_count = length (str_lines full), result_byte_count = byte_count,
                result_original_tokens = original_tokens reduced, result_reduced_tokens = reduced_tokens reduced\<rparr>))"

definition execute_capability ::
    "disk \<Rightarrow> (string \<Rightarrow> string + DurableArtifactRef) \<Rightarrow> string \<Rightarrow> ReadOnlyTool \<Rightarrow> ToolError + ToolOutcome" where
  "execute_capability d store root tool =
     (case resolve_in_scope d root (tool_target tool) of
        None \<Rightarrow> Inr (Denied ''target is missing or outside the workspace scope'' (tool_target tool))
      | Some resolved \<Rightarrow>
          rbind (disk_canonicalize d root) (\<lambda>root'.
            rbind (run_tool d tool resolved) (\<lambda>full.
              rbind (tool_result d store (read_only_kind tool)
                       \<lparr>provenance_root = root,
                        provenance_path = unwrap_or (path_strip_prefix resolved root') ''.'',
                        provenance_in_scope = True\<rparr> full)
                (\<lambda>result. Inr (Allowed result)))))"

fun read_only_summary :: "ReadOnlyToolKind \<Rightarrow> string" where
  "read_only_summary ReadOnlyToolKind.List = ''list workspace directory''"
| "read_only_summary ReadOnlyToolKind.Read = ''read workspace file''"
| "read_only_summary ReadOnlyToolKind.Search = ''search content''"

definition normalize_read_only :: "ReadOnlyTool \<Rightarrow> ActionOrigin \<Rightarrow> NormalizedEffect" where
  "normalize_read_only tool origin =
     workspace_read origin (read_only_summary (read_only_kind tool)) (tool_target tool)"

definition run_with_seam ::
    "'u seam_context \<Rightarrow> disk \<Rightarrow> (string \<Rightarrow> string + DurableArtifactRef) \<Rightarrow> string \<Rightarrow> ReadOnlyTool
     \<Rightarrow> ActionOrigin \<Rightarrow> EffectSeam \<Rightarrow> ToolError + ToolOutcome" where
  "run_with_seam C d store root tool origin seam =
     (let effect = normalize_read_only tool origin in
      rbind (fst (seam_execute C seam effect (\<lambda>s w. (execute_capability d store root tool, s, w)) () ()))
        (\<lambda>outcome. Inr (case outcome of
           Executed result \<Rightarrow> result
         | EffectExecution.Denied reason \<Rightarrow> Denied reason (unwrap_or (action_target (effect_action effect)) [])
         | EffectExecution.NeedsApproval _ \<Rightarrow>
             Denied ''read-only tool needs an approval that is not granted in read-only scope''
               (unwrap_or (action_target (effect_action effect)) []))))"

fun read_only_name :: "ReadOnlyToolKind \<Rightarrow> string" where
  "read_only_name ReadOnlyToolKind.List = ''list''"
| "read_only_name ReadOnlyToolKind.Read = ''read''"
| "read_only_name ReadOnlyToolKind.Search = ''search''"

definition record_tool_outcome ::
    "'s EventStore \<Rightarrow> AgentRuntime \<Rightarrow> stamp \<times> stamp \<Rightarrow> ToolOutcome \<Rightarrow> 's \<Rightarrow> (RuntimeError + unit) \<times> 's" where
  "record_tool_outcome S rt T result_of s =
     (case result_of of
        Allowed result \<Rightarrow>
          (let name = read_only_name (result_tool result);
               counts = nat_to_string (result_line_count result) @ '' lines/''
                        @ nat_to_string (result_byte_count result) @ '' bytes'';
               summary = (if result_truncated result
                          then counts @ '', truncated, artifact ''
                               @ unwrap_or (map_option artifact_id (result_artifact result)) ''none''
                          else counts)
           in sbind (record_tool_started S rt (fst T) name None s)
                (\<lambda>_. record_tool_finished S rt (snd T) name summary None))
      | Denied reason _ \<Rightarrow> runtime_record S rt (fst T) (Notice (PolicyDenied reason)) s)"

section \<open>Facts about the tools\<close>

lemma resolve_in_scope_Some:
  "resolve_in_scope d root candidate = Some p \<longleftrightarrow>
     (\<exists>root'. canonicalize (disk_fs d) root = Some root'
        \<and> canonicalize (disk_fs d) (target_path root candidate) = Some p \<and> path_starts_with p root')"
  by (auto simp: resolve_in_scope_def bind_eq_Some_conv split: if_splits)

text \<open>The bytes of lines with their line breaks, and their bound through the loops.\<close>

definition line_bytes :: "string list \<Rightarrow> nat" where
  "line_bytes ls = sum_list (map (\<lambda>l. length l + 1) ls)"

lemma line_bytes_simps [simp]: "line_bytes [] = 0" "line_bytes (l # ls) = length l + 1 + line_bytes ls"
    "line_bytes (ls @ ms) = line_bytes ls + line_bytes ms"
  by (simp_all add: line_bytes_def)

lemma length_str_join: "length (str_join [c] ls) \<le> line_bytes ls"
  by (induction "[c]" ls rule: str_join.induct) auto

lemma line_bytes_sort: "line_bytes (sort ls) = line_bytes ls"
proof -
  have "line_bytes ls = sum_mset (image_mset (\<lambda>l. length l + 1) (mset ls))" for ls
    unfolding line_bytes_def mset_map [symmetric] sum_mset_sum_list ..
  then show ?thesis by simp
qed

lemma list_items_captured:
  "list_items captured out items = Inr names \<Longrightarrow> captured = line_bytes out \<Longrightarrow>
     captured \<le> MAX_TOOL_CAPTURE_BYTES \<Longrightarrow> line_bytes names \<le> MAX_TOOL_CAPTURE_BYTES + 38"
proof (induction captured out items rule: list_items.induct)
  case (3 captured out name kind es)
  let ?r = "name @ (case kind of IsDir _ \<Rightarrow> ''/'' | _ \<Rightarrow> [])"
  have "captured + (length ?r + 1) \<le> MAX_TOOL_CAPTURE_BYTES \<Longrightarrow>
      usize_saturating_add captured (length ?r + 1) = captured + (length ?r + 1)"
    by (simp add: usize_saturating_add_def MAX_TOOL_CAPTURE_BYTES_def)
  then show ?case
    using 3 by (auto simp: Let_def usize_saturating_add_def MAX_TOOL_CAPTURE_BYTES_def split: file_type.splits if_splits)
qed auto

definition search_ok :: "search_state \<Rightarrow> bool" where
  "search_ok st \<longleftrightarrow> search_captured st = line_bytes (search_matches st)
     \<and> search_captured st \<le> MAX_TOOL_CAPTURE_BYTES \<and> search_scanned st \<le> MAX_SEARCH_FILES"

fun flow_ok :: "search_flow \<Rightarrow> bool" where
  "flow_ok (Next st) \<longleftrightarrow> search_ok st"
| "flow_ok (Stop found) \<longleftrightarrow> line_bytes found \<le> MAX_TOOL_CAPTURE_BYTES + 38"
| "flow_ok (Fail e) \<longleftrightarrow> True"

lemma search_stopped_length: "length search_stopped = 34"
  by code_simp

lemma usize_saturating_add_exact: "\<not> MAX_TOOL_CAPTURE_BYTES < usize_saturating_add a b \<Longrightarrow> usize_saturating_add a b = a + b"
  by (simp add: usize_saturating_add_def MAX_TOOL_CAPTURE_BYTES_def)

lemma search_lines_ok: "search_ok st \<Longrightarrow> flow_ok (search_lines d needle shown n ls st)"
proof (induction d needle shown n ls st rule: search_lines.induct)
  case (2 d needle shown n line ls st)
  define r where "r = shown @ '':'' @ nat_to_string (n + 1) @ '': '' @ line"
  define c where "c = usize_saturating_add (search_captured st) (length r + 1)"
  define st' where "st' = st\<lparr>search_matches := search_matches st @ [r], search_captured := c\<rparr>"
  have unfolded: "search_lines d needle shown n (line # ls) st =
      (if str_contains (disk_lowercase d line) needle
       then if MAX_TOOL_CAPTURE_BYTES < c then Stop (search_matches st @ [''... search truncated at output limit''])
            else search_lines d needle shown (Suc n) ls st'
       else search_lines d needle shown (Suc n) ls st)"
    unfolding search_lines.simps(2) Let_def r_def c_def st'_def by (rule HOL.refl)
  have "flow_ok (Stop (search_matches st @ [''... search truncated at output limit'']))"
    using 2(3) by (simp add: search_ok_def)
  moreover have "flow_ok (search_lines d needle shown (Suc n) ls st')"
    if "str_contains (disk_lowercase d line) needle" "\<not> MAX_TOOL_CAPTURE_BYTES < c"
    unfolding st'_def c_def r_def
  proof (rule 2(1))
    show "search_ok (st\<lparr>search_matches := search_matches st @ [shown @ '':'' @ nat_to_string (n + 1) @ '': '' @ line],
        search_captured := usize_saturating_add (search_captured st)
          (length (shown @ '':'' @ nat_to_string (n + 1) @ '': '' @ line) + 1)\<rparr>)"
      using 2(3) that(2) usize_saturating_add_exact [OF that(2) [unfolded c_def]]
      unfolding r_def [symmetric] c_def [symmetric] search_ok_def by simp
  qed (use that in \<open>simp_all add: c_def r_def\<close>)
  moreover have "flow_ok (search_lines d needle shown (Suc n) ls st)"
    if "\<not> str_contains (disk_lowercase d line) needle" using 2(2) [OF that 2(3)] .
  ultimately show ?case unfolding unfolded by presburger
qed simp

lemma search_file_ok: "search_ok st \<Longrightarrow> flow_ok (search_file d root needle path st)"
  by (simp add: search_file_def Let_def search_stopped_length search_lines_ok split: sum.split)
    (simp_all add: search_ok_def search_lines_ok)

lemma search_entries_ok: "search_ok st \<Longrightarrow> flow_ok (search_entries d root needle dir items st)"
proof (induction d root needle dir items st rule: search_entries.induct)
  case (3 d root needle dir name kind es st)
  have "flow_ok (search_file d root needle (path_join dir name) st)" using "3.prems" by (rule search_file_ok)
  moreover have "search_ok (st\<lparr>search_stack := k\<rparr>)" for k using "3.prems" by (simp add: search_ok_def)
  ultimately show ?case using 3 by (cases kind) (auto simp: Let_def split: search_flow.splits)
qed auto

lemma search_dirs_ok:
  "search_ok st \<Longrightarrow> search_dirs d root needle st = Inr found \<Longrightarrow> line_bytes found \<le> MAX_TOOL_CAPTURE_BYTES + 38"
proof (induction d root needle st rule: search_dirs.induct)
  case (1 d root needle st)
  have drop: "search_ok (st\<lparr>search_stack := k\<rparr>)" for k using "1.prems"(1) by (simp add: search_ok_def)
  show ?case
  proof (cases "search_stack st")
    case Nil
    then show ?thesis using 1(3,4) by (auto simp: search_ok_def search_dirs.simps [of d root needle st])
  next
    case (Cons e stack)
    obtain dir tree where e: "e = (dir, tree)" by (rule prod.exhaust)
    note unfolded = search_dirs.simps [of d root needle st, unfolded Cons e list.case prod.case Let_def]
    show ?thesis
    proof (cases "MAX_SEARCH_FILES \<le> search_scanned st")
      case True
      then show ?thesis using 1(3,4) by (auto simp: unfolded search_ok_def search_stopped_length)
    next
      case False
      show ?thesis
      proof (cases tree)
        case (Unreadable x)
        then show ?thesis
          using 1(1) [OF Cons e [symmetric] HOL.refl _ Unreadable drop] 1(4) False by (simp add: unfolded)
      next
        case (Readable items)
        then show ?thesis
          using 1(2) [OF Cons e [symmetric] HOL.refl _ Readable] 1(4) False
            search_entries_ok [OF drop [of stack], of d root needle dir items]
          by (auto simp: unfolded split: search_flow.splits)
      qed
    qed
  qed
qed

lemma utf8_tail_bounds: "i \<le> utf8_tail b i n cs \<and> utf8_tail b i n cs \<le> i + length cs"
  by (induction b i n cs rule: utf8_tail.induct) auto

lemma length_from_utf8_lossy: "length (from_utf8_lossy bytes) \<le> 3 * length bytes"
proof (induction bytes rule: from_utf8_lossy.induct)
  case (2 c cs)
  obtain n whole where chunk: "utf8_chunk c cs = (n, whole)" by (rule prod.exhaust)
  have "1 \<le> n \<and> n \<le> Suc (length cs)"
    using chunk utf8_tail_bounds [of 1 "code c" _ cs] by (auto simp: utf8_chunk_def Let_def)
  moreover have "length (from_utf8_lossy (drop (n - 1) cs)) \<le> 3 * length (drop (n - 1) cs)"
    using 2 [OF chunk [symmetric] HOL.refl] .
  ultimately show ?case by (auto simp: from_utf8_lossy.simps(2) chunk replacement_character_def)
qed simp

text \<open>\<open>take\<close> never hands out more bytes than its limit.\<close>

definition reads_bounded :: "disk \<Rightarrow> bool" where
  "reads_bounded d \<longleftrightarrow> (\<forall>p n bytes. disk_read d p n = Inr bytes \<longrightarrow> length bytes \<le> n)"

lemma run_tool_bounded:
  assumes "reads_bounded d" "run_tool d tool p = Inr raw"
  shows "length raw \<le> 3 * MAX_FILE_READ_BYTES + 33"
proof (cases tool)
  case (List x)
  then obtain items names where "list_items 0 [] items = Inr names" "raw = str_join [newline] (sort names)"
    using assms(2) by (auto simp: run_tool_def list_dir_def rbind_eq_Inr_iff split: dir_tree.splits)
  moreover have "line_bytes names \<le> MAX_TOOL_CAPTURE_BYTES + 38"
    using calculation(1) by (rule list_items_captured) (simp_all add: MAX_TOOL_CAPTURE_BYTES_def)
  ultimately show ?thesis
    using length_str_join [of newline "sort names"]
    by (simp add: line_bytes_sort MAX_TOOL_CAPTURE_BYTES_def MAX_FILE_READ_BYTES_def)
next
  case (Read x)
  then obtain bytes where "disk_read d p MAX_FILE_READ_BYTES = Inr bytes"
      "length raw \<le> length (from_utf8_lossy bytes) + 33"
    using assms(2)
    by (auto simp: run_tool_def read_workspace_file_def rbind_eq_Inr_iff map_sum_def split: if_splits sum.splits)
  then show ?thesis using assms(1) length_from_utf8_lossy [of bytes] by (force simp: reads_bounded_def)
next
  case (Search x pattern)
  then obtain found where found: "search_dirs d p (disk_lowercase d pattern)
      \<lparr>search_matches = [], search_captured = 0, search_scanned = 0, search_stack = [(p, disk_read_dir d p)]\<rparr> = Inr found"
      "raw = str_join [newline] (if found = [] then [''(no matches)''] else found)"
    using assms(2) by (auto simp: run_tool_def search_tree_def rbind_eq_Inr_iff)
  have "line_bytes found \<le> MAX_TOOL_CAPTURE_BYTES + 38"
    by (rule search_dirs_ok [OF _ found(1)]) (simp add: search_ok_def)
  then show ?thesis
    using found(2) length_str_join [of newline found]
    by (cases "found = []") (simp_all add: MAX_TOOL_CAPTURE_BYTES_def MAX_FILE_READ_BYTES_def)
qed

lemma untruncated_content: "\<not> reduced_truncated (reduce_output r x) \<Longrightarrow> reduced_content (reduce_output r x) = x"
  by (auto simp: reduce_output_def Let_def unreduced_def builtin_def split: if_splits option.splits)

section \<open>Properties\<close>

text \<open>
  C21. What a read-only tool returns. Whenever it succeeds, it ran on one path: the resolved target,
  which is the workspace root or below it after all symbolic links. The text it produced has at
  most three times the read limit and one notice; the preview is the reduction of the redacted text; the result
  is marked as truncated exactly when an artifact is attached, and that artifact stores the whole redacted
  text; without the mark the preview is the whole redacted text, at most 16 KiB.
\<close>

theorem read_only_result:
  assumes "reads_bounded d" and "execute_capability d store root tool = Inr (Allowed r)"
  shows "\<exists>root' p raw. canonicalize (disk_fs d) root = Some root'
    \<and> canonicalize (disk_fs d) (target_path root (tool_target tool)) = Some p \<and> path_starts_with p root'
    \<and> run_tool d tool p = Inr raw \<and> length raw \<le> 3 * MAX_FILE_READ_BYTES + 33
    \<and> result_preview r = reduced_content (reduce_output (default_reducer d) (redact_text raw))
    \<and> (case result_artifact r of
         Some a \<Rightarrow> result_truncated r \<and> store (redact_text raw) = Inr a
       | None \<Rightarrow> \<not> result_truncated r \<and> result_preview r = redact_text raw
           \<and> length (result_preview r) \<le> MAX_TOOL_PREVIEW_BYTES)"
proof -
  obtain root' p raw where run: "canonicalize (disk_fs d) root = Some root'"
      "canonicalize (disk_fs d) (target_path root (tool_target tool)) = Some p" "path_starts_with p root'"
      "run_tool d tool p = Inr raw" and res: "\<exists>prov. tool_result d store (read_only_kind tool) prov raw = Inr r"
    using assms(2)
    by (auto simp: execute_capability_def resolve_in_scope_Some rbind_eq_Inr_iff split: option.splits)
  from res have "result_preview r = reduced_content (reduce_output (default_reducer d) (redact_text raw))
    \<and> (case result_artifact r of
         Some a \<Rightarrow> result_truncated r \<and> store (redact_text raw) = Inr a
       | None \<Rightarrow> \<not> result_truncated r \<and> result_preview r = redact_text raw
           \<and> length (result_preview r) \<le> MAX_TOOL_PREVIEW_BYTES)"
    by (auto simp: tool_result_def Let_def rbind_eq_Inr_iff map_sum_def untruncated_content
        split: if_splits sum.splits)
  then show ?thesis using run run_tool_bounded [OF assms(1) run(4)] by blast
qed

definition demo_disk :: "(string \<times> string) list \<Rightarrow> disk" where
  "demo_disk files =
     \<lparr>disk_fs = \<lparr>canonicalize = (\<lambda>p. if p = ''/w'' \<or> p \<in> fst ` set files then Some p else None),
                  path_exists = (\<lambda>p. p = ''/w'' \<or> p \<in> fst ` set files)\<rparr>,
      disk_no_path = (\<lambda>_. ''not found''), disk_read_dir = (\<lambda>_. Unreadable ''not a directory''),
      disk_len = (\<lambda>p. ok_or (map_option length (map_of files p)) ''not found''),
      disk_read = (\<lambda>p n. ok_or (map_option (take n) (map_of files p)) ''not found''),
      disk_lowercase = to_ascii_lowercase, disk_rtk = None\<rparr>"

lemma demo_disk_reads: "reads_bounded (demo_disk files)"
  by (auto simp: reads_bounded_def demo_disk_def ok_or_eq_Inr_iff)

lemma demo_paths: "target_path ''/w'' ''a'' = ''/w/a''" "path_starts_with ''/w/a'' ''/w''"
    "redact_text ''hi'' = ''hi''" "from_utf8_lossy ''hi'' = ''hi''" "estimate_tokens ''hi'' = 1"
  by code_simp+

theorem read_only_result_witness:
  "\<exists>r. execute_capability (demo_disk [(''/w/a'', ''hi'')]) (\<lambda>_. Inl []) ''/w'' (ReadOnlyTool.Read ''a'') = Inr (Allowed r)
     \<and> result_artifact r = None \<and> result_preview r = ''hi''"
proof -
  let ?d = "demo_disk [(''/w/a'', ''hi'')]"
  have run: "run_tool ?d (ReadOnlyTool.Read ''a'') ''/w/a'' = Inr ''hi''"
    by (simp add: run_tool_def read_workspace_file_def demo_disk_def demo_paths MAX_FILE_READ_BYTES_def)
  have resolved: "resolve_in_scope ?d ''/w'' ''a'' = Some ''/w/a''" "disk_canonicalize ?d ''/w'' = Inr ''/w''"
    by code_simp+
  have result: "\<exists>r. tool_result ?d (\<lambda>_. Inl []) ReadOnlyToolKind.Read prov ''hi'' = Inr r \<and> result_artifact r = None" for prov
    by (simp add: tool_result_def demo_paths reduce_output_def default_reducer_def default_token_budget_def
        unreduced_def Let_def MAX_TOOL_PREVIEW_BYTES_def)
  have "\<exists>r. execute_capability ?d (\<lambda>_. Inl []) ''/w'' (ReadOnlyTool.Read ''a'') = Inr (Allowed r)
      \<and> result_artifact r = None"
    using resolved result unfolding execute_capability_def by (simp add: run rbind_eq_Inr_iff)
  then obtain r where r: "execute_capability ?d (\<lambda>_. Inl []) ''/w'' (ReadOnlyTool.Read ''a'') = Inr (Allowed r)"
      "result_artifact r = None" by blast
  from read_only_result [OF demo_disk_reads r(1)] obtain p raw where
      "canonicalize (disk_fs ?d) (target_path ''/w'' (tool_target (ReadOnlyTool.Read ''a''))) = Some p"
      "run_tool ?d (ReadOnlyTool.Read ''a'') p = Inr raw" "result_preview r = redact_text raw"
    using r(2) by auto
  then have "result_preview r = ''hi''" using run by (auto simp: demo_paths demo_disk_def)
  then show ?thesis using r by blast
qed

text \<open>
  A write checks the directory of its target, not the target. A symbolic link that leads to a file
  that does not exist yet passes the scope check of the policy, since the link's path does not
  exist, and the write creates the file where the link leads.
\<close>

definition link_write :: "(string \<times> string) list \<Rightarrow> string \<Rightarrow> string \<Rightarrow> (string \<times> string) list \<Rightarrow> (string + unit) \<times> (string \<times> string) list" where
  "link_write links p content files = (Inr (), (unwrap_or (map_of links p) p, content) # files)"

lemma dangling_link_escapes:
  "contains_write_target (disk_fs (demo_disk [])) (local_workspace ''/w'') ''/w/link''
   \<and> write_file_in_scope (demo_disk []) (link_write [(''/w/link'', ''/etc/new'')]) ''/w'' ''/w/link'' ''x'' []
       = (Inr (), [(''/etc/new'', ''x'')])"
  by code_simp

end
