(* ===== verification/Tool_Schema.thy ===== *)
theory Tool_Schema
  imports Events
begin

text \<open>
  The schemas of the built-in tools and the check of a tool call's arguments against them,
  \<open>crates/impetus-core/src/tool_schema.rs\<close>, with the accessors of \<open>serde_json::Value\<close> it uses.

  The entries of an object are in the order of the map's iteration. A number is its text as
  \<open>serde_json\<close> writes it, so that an integer has digits only, after a minus sign when it is negative.

  The property compares the check with a typing judgement: \<open>signature\<close> gives the fields of each tool
  with their types.
\<close>

section \<open>Values\<close>

fun json_as_object :: "json \<Rightarrow> (string \<times> json) list option" where
  "json_as_object (Object entries) = Some entries"
| "json_as_object _ = None"

fun json_as_array :: "json \<Rightarrow> json list option" where
  "json_as_array (Array items) = Some items"
| "json_as_array _ = None"

fun json_as_bool :: "json \<Rightarrow> bool option" where
  "json_as_bool (Bool b) = Some b"
| "json_as_bool _ = None"

definition magnitude :: "string \<Rightarrow> int option" where
  "magnitude t =
     (case read_digits 10 t of (ds, r) \<Rightarrow> if ds \<noteq> [] \<and> r = [] then Some (digits_value 10 ds) else None)"

fun json_as_u64 :: "json \<Rightarrow> nat option" where
  "json_as_u64 (Number t) = Option.bind (magnitude t) (\<lambda>n. if n < 2 ^ 64 then Some (nat n) else None)"
| "json_as_u64 _ = None"

fun json_as_i64 :: "json \<Rightarrow> int option" where
  "json_as_i64 (Number t) =
     (if starts_with t ''-''
      then Option.bind (magnitude (tl t)) (\<lambda>n. if n \<le> 2 ^ 63 then Some (- n) else None)
      else Option.bind (magnitude t) (\<lambda>n. if n < 2 ^ 63 then Some n else None))"
| "json_as_i64 _ = None"

section \<open>The check\<close>

record ToolArgError =
  arg_error_tool :: string
  arg_error_reason :: string

definition tool_arg_error :: "string \<Rightarrow> string \<Rightarrow> ToolArgError" where
  "tool_arg_error tool reason = \<lparr>arg_error_tool = tool, arg_error_reason = reason\<rparr>"

definition tool_arg_error_text :: "ToolArgError \<Rightarrow> string" where
  "tool_arg_error_text e = ''invalid arguments for tool `'' @ arg_error_tool e @ ''`: '' @ arg_error_reason e"

definition expected_type_is :: "(string \<times> json) list \<Rightarrow> string \<Rightarrow> bool" where
  "expected_type_is schema_obj expected =
     is_some_and (Option.bind (map_of schema_obj ''type'') json_as_str) (\<lambda>t. t = expected)"

definition value_matches_type :: "json \<Rightarrow> string \<Rightarrow> bool" where
  "value_matches_type value expected =
     (if expected = ''object'' then json_as_object value \<noteq> None
      else if expected = ''string'' then json_as_str value \<noteq> None
      else if expected = ''integer'' then json_as_i64 value \<noteq> None \<or> json_as_u64 value \<noteq> None
      else if expected = ''number'' then (case value of Number _ \<Rightarrow> True | _ \<Rightarrow> False)
      else if expected = ''boolean'' then json_as_bool value \<noteq> None
      else if expected = ''array'' then json_as_array value \<noteq> None
      else if expected = ''null'' then value = Null
      else True)"

fun value_type_name :: "json \<Rightarrow> string" where
  "value_type_name Null = ''null''"
| "value_type_name (Bool _) = ''boolean''"
| "value_type_name (Number _) = ''number''"
| "value_type_name (String _) = ''string''"
| "value_type_name (Array _) = ''array''"
| "value_type_name (Object _) = ''object''"

fun check_required :: "string \<Rightarrow> (string \<times> json) list \<Rightarrow> json list \<Rightarrow> ToolArgError + unit" where
  "check_required tool obj [] = Inr ()"
| "check_required tool obj (key # keys) =
     (case json_as_str key of
        Some name \<Rightarrow>
          if map_of obj name = None
          then Inl (tool_arg_error tool (''missing required property `'' @ name @ ''`''))
          else check_required tool obj keys
      | None \<Rightarrow> check_required tool obj keys)"

definition check_min_length :: "string \<Rightarrow> json \<Rightarrow> (string \<times> json) list \<Rightarrow> ToolArgError + unit" where
  "check_min_length tool value schema_obj =
     (if expected_type_is schema_obj ''string''
      then (case Option.bind (map_of schema_obj ''minLength'') json_as_u64 of
              Some min_length \<Rightarrow>
                if unwrap_or (map_option char_count (json_as_str value)) 0 < min_length
                then Inl (tool_arg_error tool (''string shorter than minLength '' @ nat_to_string min_length))
                else Inr ()
            | None \<Rightarrow> Inr ())
      else Inr ())"

definition int_to_string :: "int \<Rightarrow> string" where
  "int_to_string n = (if n < 0 then CHR ''-'' # nat_to_string (nat (- n)) else nat_to_string (nat n))"

definition check_minimum :: "string \<Rightarrow> json \<Rightarrow> (string \<times> json) list \<Rightarrow> ToolArgError + unit" where
  "check_minimum tool value schema_obj =
     (if expected_type_is schema_obj ''integer''
      then (case Option.bind (map_of schema_obj ''minimum'') json_as_i64 of
              Some minimum \<Rightarrow>
                (case json_as_i64 value of
                   None \<Rightarrow> Inl (tool_arg_error tool ''expected integer value'')
                 | Some n \<Rightarrow>
                     if n < minimum
                     then Inl (tool_arg_error tool (''integer below minimum '' @ int_to_string minimum))
                     else Inr ())
            | None \<Rightarrow> Inr ())
      else Inr ())"

function validate_against_schema :: "string \<Rightarrow> json \<Rightarrow> json \<Rightarrow> ToolArgError + unit"
  and validate_object :: "string \<Rightarrow> (string \<times> json) list \<Rightarrow> (string \<times> json) list \<Rightarrow> ToolArgError + unit"
  and validate_properties :: "string \<Rightarrow> (string \<times> json) list \<Rightarrow> bool \<Rightarrow> (string \<times> json) list \<Rightarrow> ToolArgError + unit" where
  "validate_against_schema tool value schema =
     (case json_as_object schema of
        None \<Rightarrow> Inl (tool_arg_error tool ''internal schema is not an object'')
      | Some schema_obj \<Rightarrow>
          (case Option.bind (map_of schema_obj ''type'') json_as_str of
             Some expected_type \<Rightarrow>
               if \<not> value_matches_type value expected_type
               then Inl (tool_arg_error tool (''expected type `'' @ expected_type @ ''`, got `''
                           @ value_type_name value @ ''`''))
               else rbind
                 (if expected_type_is schema_obj ''object''
                  then (case value of
                          Object obj \<Rightarrow> validate_object tool obj schema_obj
                        | _ \<Rightarrow> Inl (tool_arg_error tool ''arguments must be a JSON object''))
                  else Inr ())
                 (\<lambda>_. rbind (check_min_length tool value schema_obj) (\<lambda>_. check_minimum tool value schema_obj))
           | None \<Rightarrow> Inr ()))"
| "validate_object tool obj schema_obj =
     rbind (case Option.bind (map_of schema_obj ''required'') json_as_array of
              Some required \<Rightarrow> check_required tool obj required
            | None \<Rightarrow> Inr ())
       (\<lambda>_. validate_properties tool
              (unwrap_or (Option.bind (map_of schema_obj ''properties'') json_as_object) [])
              (unwrap_or (Option.bind (map_of schema_obj ''additionalProperties'') json_as_bool) True)
              obj)"
| "validate_properties tool properties additional [] = Inr ()"
| "validate_properties tool properties additional ((key, value) # entries) =
     rbind (case map_of properties key of
              Some prop_schema \<Rightarrow>
                map_sum (\<lambda>err. tool_arg_error tool (''property `'' @ key @ ''`: '' @ arg_error_reason err)) id
                  (validate_against_schema tool value prop_schema)
            | None \<Rightarrow>
                if \<not> additional then Inl (tool_arg_error tool (''unexpected property `'' @ key @ ''`''))
                else Inr ())
       (\<lambda>_. validate_properties tool properties additional entries)"
  by pat_completeness auto
termination
  by (relation "measure (\<lambda>x. case x of
      Inl (_, v, _) \<Rightarrow> 2 * size v
    | Inr (Inl (_, obj, _)) \<Rightarrow> Suc (2 * size_list (size_prod (\<lambda>_. 0) size) obj)
    | Inr (Inr (_, _, _, obj)) \<Rightarrow> 2 * size_list (size_prod (\<lambda>_. 0) size) obj)")
    auto

declare validate_against_schema.simps [simp del]

section \<open>The built-in tools\<close>

record BuiltinToolSchema =
  schema_name :: string
  schema_description :: string
  schema_parameters :: json

definition object_schema :: "string list \<Rightarrow> (string \<times> json) list \<Rightarrow> json" where
  "object_schema required properties =
     Object [(''type'', String ''object''), (''additionalProperties'', Bool False),
             (''required'', Array (map String required)), (''properties'', Object properties)]"

definition string_prop :: "string \<Rightarrow> json" where
  "string_prop description =
     Object [(''type'', String ''string''), (''minLength'', Number ''1''), (''description'', String description)]"

definition builtin_tool_schemas :: "BuiltinToolSchema list" where
  "builtin_tool_schemas =
     [\<lparr>schema_name = ''list_files'', schema_description = ''List workspace directory entries'',
       schema_parameters = object_schema []
         [(''path'', string_prop ''Directory path relative to workspace (default: .)'')]\<rparr>,
      \<lparr>schema_name = ''read_file'', schema_description = ''Read a workspace file'',
       schema_parameters = object_schema [''path'']
         [(''path'', string_prop ''File path relative to workspace'')]\<rparr>,
      \<lparr>schema_name = ''search'', schema_description = ''Search workspace content'',
       schema_parameters = object_schema [''pattern'']
         [(''pattern'', string_prop ''Search pattern''),
          (''path'', string_prop ''Optional root path relative to workspace'')]\<rparr>,
      \<lparr>schema_name = ''write_file'', schema_description = ''Create or overwrite a workspace file (policy-gated)'',
       schema_parameters = object_schema [''path'', ''content'']
         [(''path'', string_prop ''File path relative to workspace''),
          (''content'', Object [(''type'', String ''string''), (''description'', String ''File contents to write'')])]\<rparr>,
      \<lparr>schema_name = ''bash'', schema_description = ''Run a shell command (policy-gated)'',
       schema_parameters = object_schema [''command'']
         [(''command'', string_prop ''Shell command to execute'')]\<rparr>,
      \<lparr>schema_name = ''web_search'', schema_description = ''Search the public web'',
       schema_parameters = object_schema [''query'']
         [(''query'', string_prop ''Search query''),
          (''max_results'', Object [(''type'', String ''integer''), (''minimum'', Number ''1''), (''description'', String ''Maximum number of results'')]),
          (''locale'', Object [(''type'', String ''string''), (''description'', String ''Optional locale hint'')]),
          (''safe_search'', Object [(''type'', String ''string''), (''description'', String ''Safe search preference'')]),
          (''backend'', Object [(''description'', String ''Search backend preference (string or tagged object)'')])]\<rparr>,
      \<lparr>schema_name = ''web_fetch'', schema_description = ''Fetch a public URL'',
       schema_parameters = object_schema [''url'']
         [(''url'', string_prop ''Absolute http(s) URL''),
          (''max_bytes'', Object [(''type'', String ''integer''), (''minimum'', Number ''1'')]),
          (''max_chars'', Object [(''type'', String ''integer''), (''minimum'', Number ''1'')]),
          (''include_links'', Object [(''type'', String ''boolean'')]),
          (''allow_binary_metadata'', Object [(''type'', String ''boolean'')])]\<rparr>,
      \<lparr>schema_name = ''web_download'', schema_description = ''Download a remote file (policy-gated; executor may be unavailable)'',
       schema_parameters = object_schema [''url'']
         [(''url'', string_prop ''Absolute http(s) URL''),
          (''path'', string_prop ''Optional destination path'')]\<rparr>,
      \<lparr>schema_name = ''web_browser'', schema_description = ''Open a browser session (policy-gated; executor may be unavailable)'',
       schema_parameters = object_schema [''url'']
         [(''url'', string_prop ''Absolute http(s) URL'')]\<rparr>,
      \<lparr>schema_name = ''web_submit'', schema_description = ''Submit a web form (policy-gated; executor may be unavailable)'',
       schema_parameters = object_schema [''url'']
         [(''url'', string_prop ''Absolute http(s) URL''),
          (''body'', Object [(''description'', String ''Optional form payload'')])]\<rparr>,
      \<lparr>schema_name = ''web_upload'', schema_description = ''Upload a file over the web (policy-gated; executor may be unavailable)'',
       schema_parameters = object_schema [''url'', ''path'']
         [(''url'', string_prop ''Absolute http(s) URL''),
          (''path'', string_prop ''Local file path to upload'')]\<rparr>,
      \<lparr>schema_name = ''goto_definition'', schema_description = ''Resolve symbol definition via coding-tools provider (paths/ranges only)'',
       schema_parameters = object_schema [''path'', ''line'', ''character'']
         [(''path'', string_prop ''File path relative to workspace''),
          (''line'', Object [(''type'', String ''integer''), (''minimum'', Number ''0''), (''description'', String ''Zero-based line'')]),
          (''character'', Object [(''type'', String ''integer''), (''minimum'', Number ''0''), (''description'', String ''Zero-based character offset'')])]\<rparr>]"

definition canonical_tool_name :: "string \<Rightarrow> string option" where
  "canonical_tool_name name =
     (if name \<in> {''list_files'', ''read_file'', ''search''} then Some name
      else if name \<in> {''write_file'', ''edit_file''} then Some ''write_file''
      else if name \<in> {''bash'', ''shell'', ''exec''} then Some ''bash''
      else if name \<in> {''web_search'', ''web_fetch'', ''web_download'', ''web_browser'', ''web_submit'',
        ''web_upload'', ''goto_definition''} then Some name
      else None)"

definition schema_for_tool :: "string \<Rightarrow> BuiltinToolSchema option" where
  "schema_for_tool name =
     Option.bind (canonical_tool_name name) (\<lambda>canonical.
       List.find (\<lambda>schema. schema_name schema = canonical) builtin_tool_schemas)"

definition validate_tool_arguments :: "string \<Rightarrow> json \<Rightarrow> ToolArgError + unit" where
  "validate_tool_arguments name arguments =
     rbind (ok_or (schema_for_tool name) (tool_arg_error name ''unknown tool (no schema registered)''))
       (\<lambda>schema. validate_against_schema name arguments (schema_parameters schema))"

definition validate_arguments_with_schema :: "string \<Rightarrow> json \<Rightarrow> json \<Rightarrow> ToolArgError + unit" where
  "validate_arguments_with_schema name arguments schema =
     validate_against_schema name arguments schema"

section \<open>Typing\<close>

datatype field_type = NonEmptyText | Text | IntegerFrom int | Boolean | Any

fun has_type :: "json \<Rightarrow> field_type \<Rightarrow> bool" where
  "has_type v NonEmptyText \<longleftrightarrow> (case v of String s \<Rightarrow> 0 < char_count s | _ \<Rightarrow> False)"
| "has_type v Text \<longleftrightarrow> (case v of String _ \<Rightarrow> True | _ \<Rightarrow> False)"
| "has_type v (IntegerFrom m) \<longleftrightarrow> (case json_as_i64 v of Some n \<Rightarrow> m \<le> n | None \<Rightarrow> False)"
| "has_type v Boolean \<longleftrightarrow> (case v of Bool _ \<Rightarrow> True | _ \<Rightarrow> False)"
| "has_type v Any \<longleftrightarrow> True"

text \<open>A field is its name, whether it is required, and its type.\<close>

type_synonym field = "string \<times> bool \<times> field_type"

definition tool_signatures :: "(string \<times> field list) list" where
  "tool_signatures =
     [(''list_files'', [(''path'', False, NonEmptyText)]),
      (''read_file'', [(''path'', True, NonEmptyText)]),
      (''search'', [(''pattern'', True, NonEmptyText), (''path'', False, NonEmptyText)]),
      (''write_file'', [(''path'', True, NonEmptyText), (''content'', True, Text)]),
      (''bash'', [(''command'', True, NonEmptyText)]),
      (''web_search'', [(''query'', True, NonEmptyText), (''max_results'', False, IntegerFrom 1), (''locale'', False, Text), (''safe_search'', False, Text), (''backend'', False, Any)]),
      (''web_fetch'', [(''url'', True, NonEmptyText), (''max_bytes'', False, IntegerFrom 1), (''max_chars'', False, IntegerFrom 1), (''include_links'', False, Boolean), (''allow_binary_metadata'', False, Boolean)]),
      (''web_download'', [(''url'', True, NonEmptyText), (''path'', False, NonEmptyText)]),
      (''web_browser'', [(''url'', True, NonEmptyText)]),
      (''web_submit'', [(''url'', True, NonEmptyText), (''body'', False, Any)]),
      (''web_upload'', [(''url'', True, NonEmptyText), (''path'', True, NonEmptyText)]),
      (''goto_definition'', [(''path'', True, NonEmptyText), (''line'', True, IntegerFrom 0), (''character'', True, IntegerFrom 0)])]"

definition record_typed :: "field list \<Rightarrow> json \<Rightarrow> bool" where
  "record_typed fs arguments =
     (case arguments of
        Object obj \<Rightarrow>
          list_all (\<lambda>(k, required, t). required \<longrightarrow> map_of obj k \<noteq> None) fs
          \<and> list_all (\<lambda>(k, v). is_some_and (map_of fs k) (\<lambda>(_, t). has_type v t)) obj
      | _ \<Rightarrow> False)"

definition arguments_typed :: "string \<Rightarrow> json \<Rightarrow> bool" where
  "arguments_typed name arguments =
     is_some_and (Option.bind (canonical_tool_name name) (map_of tool_signatures)) (\<lambda>fs. record_typed fs arguments)"

lemma check_required_iff:
  "check_required tool obj keys = Inr () \<longleftrightarrow> (\<forall>k name. k \<in> set keys \<longrightarrow> json_as_str k = Some name \<longrightarrow> map_of obj name \<noteq> None)"
  by (induction keys) (auto split: option.splits)

lemma map_sum_Inr_unit: "map_sum f id r = Inr () \<longleftrightarrow> r = Inr ()"
  by (cases r) simp_all

lemma validate_properties_iff:
  "validate_properties tool properties additional obj = Inr () \<longleftrightarrow>
     (\<forall>(k, v) \<in> set obj. case map_of properties k of
        Some schema \<Rightarrow> validate_against_schema tool v schema = Inr () | None \<Rightarrow> additional)"
proof (induction obj)
  case (Cons e obj)
  obtain k v where "e = (k, v)" by (rule prod.exhaust)
  then show ?case
    using Cons by (auto simp: rbind_eq_Inr_iff map_sum_Inr_unit split: option.splits)
qed simp

lemmas schema_defs = expected_type_is_def value_matches_type_def check_min_length_def check_minimum_def is_some_and_def

lemma validate_object_schema:
  "validate_against_schema tool arguments (object_schema required properties) = Inr () \<longleftrightarrow>
     (case arguments of
        Object obj \<Rightarrow> (\<forall>k \<in> set required. map_of obj k \<noteq> None)
          \<and> (\<forall>(k, v) \<in> set obj. case map_of properties k of
               Some schema \<Rightarrow> validate_against_schema tool v schema = Inr () | None \<Rightarrow> False)
      | _ \<Rightarrow> False)"
  by (subst validate_against_schema.simps, cases arguments)
    (auto simp: object_schema_def schema_defs rbind_eq_Inr_iff check_required_iff validate_properties_iff)

text \<open>A schema accepts exactly the values of a type.\<close>

definition schema_types :: "json \<Rightarrow> field_type \<Rightarrow> bool" where
  "schema_types schema t \<longleftrightarrow> (\<forall>tool v. validate_against_schema tool v schema = Inr () \<longleftrightarrow> has_type v t)"

lemma magnitude_literals: "magnitude ''0'' = Some 0" "magnitude ''1'' = Some 1"
  by code_simp+

lemma property_types:
  "schema_types (string_prop d) NonEmptyText"
  "schema_types (Object [(''type'', String ''string''), (''description'', String d)]) Text"
  "schema_types (Object [(''type'', String ''boolean'')]) Boolean"
  "schema_types (Object [(''description'', String d)]) Any"
  "schema_types (Object [(''type'', String ''integer''), (''minimum'', Number ''0''), (''description'', String d)]) (IntegerFrom 0)"
  "schema_types (Object [(''type'', String ''integer''), (''minimum'', Number ''1''), (''description'', String d)]) (IntegerFrom 1)"
  "schema_types (Object [(''type'', String ''integer''), (''minimum'', Number ''1'')]) (IntegerFrom 1)"
  unfolding schema_types_def
  by (auto simp: validate_against_schema.simps string_prop_def schema_defs magnitude_literals starts_with_def rbind_eq_Inr_iff not_less Suc_le_eq
      split: json.splits option.splits)

lemma object_types:
  assumes "list_all2 (\<lambda>(k, schema) (k', r, t). k = k' \<and> schema_types schema t) properties fs"
    and "required = map fst (filter (\<lambda>(k, r, t). r) fs)"
  shows "validate_against_schema tool arguments (object_schema required properties) = Inr () \<longleftrightarrow> record_typed fs arguments"
proof -
  have "case_option False (\<lambda>schema. validate_against_schema tool v schema = Inr ()) (map_of properties k)
      = is_some_and (map_of fs k) (\<lambda>(_, t). has_type v t)" for k v
    using assms(1) by (induction rule: list_all2_induct) (auto simp: schema_types_def is_some_and_def)
  moreover have "(\<forall>k \<in> set required. map_of obj k \<noteq> None) \<longleftrightarrow>
      list_all (\<lambda>(k, r, t). r \<longrightarrow> map_of obj k \<noteq> None) fs" for obj :: "(string \<times> json) list"
    unfolding assms(2) by (auto simp: list_all_iff)
  ultimately show ?thesis
    unfolding validate_object_schema record_typed_def by (cases arguments) (auto simp: list_all_iff)
qed

text \<open>Each built-in schema beside the signature of its tool.\<close>

definition schema_signed :: "BuiltinToolSchema \<Rightarrow> string \<times> field list \<Rightarrow> bool" where
  "schema_signed schema sig \<longleftrightarrow> schema_name schema = fst sig \<and>
     (\<forall>tool v. validate_against_schema tool v (schema_parameters schema) = Inr () \<longleftrightarrow> record_typed (snd sig) v)"

lemma schema_signedI:
  assumes "list_all2 (\<lambda>(k, schema) (k', r, t). k = k' \<and> schema_types schema t) properties fs"
    and "required = map fst (filter (\<lambda>(k, r, t). r) fs)"
  shows "schema_signed \<lparr>schema_name = n, schema_description = d, schema_parameters = object_schema required properties\<rparr> (n, fs)"
  using object_types [OF assms] by (simp add: schema_signed_def)

lemma builtin_signed: "list_all2 schema_signed builtin_tool_schemas tool_signatures"
  unfolding builtin_tool_schemas_def tool_signatures_def
  by (intro list_all2_Cons [THEN iffD2] conjI schema_signedI list.rel_intros) (simp_all add: property_types)

lemma find_signed:
  assumes "list_all2 schema_signed schemas sigs"
  shows "(case List.find (\<lambda>schema. schema_name schema = c) schemas of
      None \<Rightarrow> False | Some schema \<Rightarrow> validate_against_schema tool v (schema_parameters schema) = Inr ())
    \<longleftrightarrow> is_some_and (map_of sigs c) (\<lambda>fs. record_typed fs v)"
  using assms by (induction rule: list_all2_induct) (auto simp: schema_signed_def is_some_and_def)

lemma validate_iff_typed:
  "validate_tool_arguments name arguments = Inr () \<longleftrightarrow> arguments_typed name arguments"
proof (cases "canonical_tool_name name")
  case None
  then show ?thesis by (simp add: validate_tool_arguments_def schema_for_tool_def arguments_typed_def is_some_and_def)
next
  case (Some c)
  then show ?thesis
    using find_signed [OF builtin_signed, where c = c and tool = name and v = arguments]
    by (auto simp: validate_tool_arguments_def schema_for_tool_def arguments_typed_def is_some_and_def
        rbind_eq_Inr_iff ok_or_eq_Inr_iff split: option.splits)
qed

text \<open>What the executors of the approved tools read from accepted arguments.\<close>

lemma typed_field:
  assumes "record_typed fs arguments" "map_of fs k = Some (True, t)"
  shows "\<exists>v. json_get arguments k = Some v \<and> has_type v t"
proof -
  obtain obj where obj: "arguments = Object obj" using assms(1) by (cases arguments) (auto simp: record_typed_def)
  have "(k, True, t) \<in> set fs" using assms(2) by (rule map_of_SomeD)
  then obtain v where v: "map_of obj k = Some v" using assms(1) by (auto simp: obj record_typed_def list_all_iff)
  then have "has_type v t"
    using assms by (auto dest!: map_of_SomeD [of obj] simp: obj record_typed_def list_all_iff is_some_and_def)
  then show ?thesis using v obj by simp
qed

lemma typed_write:
  assumes "validate_tool_arguments name arguments = Inr ()" "name \<in> {''write_file'', ''edit_file''}"
  obtains p c where "json_get arguments ''path'' = Some (String p)" "0 < char_count p"
    "json_get arguments ''content'' = Some (String c)"
proof -
  have "canonical_tool_name name = Some ''write_file''" using assms(2) by (auto simp: canonical_tool_name_def)
  then have "record_typed [(''path'', True, NonEmptyText), (''content'', True, Text)] arguments"
    using assms(1)
    by (simp add: validate_iff_typed arguments_typed_def tool_signatures_def is_some_and_def)
  from typed_field [OF this, of "''path''" NonEmptyText] typed_field [OF this, of "''content''" Text]
  obtain p c where "json_get arguments ''path'' = Some p" "json_get arguments ''content'' = Some c"
      "has_type p NonEmptyText" "has_type c Text" by auto
  then show ?thesis using that by (auto split: json.splits)
qed

section \<open>Properties\<close>

text \<open>
  C19. The argument check is the typing of the tool. For every tool name, aliases included, and every
  JSON value, the check accepts exactly the objects that have all required fields of the tool, no
  field it does not know, and in each field a value of its type: a text with at least one
  character, a text, an integer in the range of an i64 and not below the minimum, a boolean, or
  anything.
\<close>

theorem accepted_arguments_typed:
  "validate_tool_arguments name arguments = Inr () \<longleftrightarrow> arguments_typed name arguments"
  by (rule validate_iff_typed)

end
