(* ===== verification/Observations.thy ===== *)
theory Observations
  imports Runtime Text_Reduction
begin

text \<open>
  What the model sees of past work: observations packed with anchors to their durable evidence
  (\<open>crates/impetus-core/src/observation_pack.rs\<close>), the folding of old messages into a summary
  (\<open>compaction.rs\<close>) and the recorded compaction of a session (\<open>run_durable_compaction_with_store\<close> of
  \<open>runtime.rs\<close>).

  The artifact store hashes and writes files; it is a function from the bytes to a reference or an
  error text. The JSON form of a pack is the business of the JSON library.
\<close>

section \<open>Messages\<close>

record ProviderMessage =
  message_role :: string
  message_content :: string

definition system_message :: "string \<Rightarrow> ProviderMessage" where
  "system_message content = \<lparr>message_role = ''system'', message_content = content\<rparr>"

definition user_message :: "string \<Rightarrow> ProviderMessage" where
  "user_message content = \<lparr>message_role = ''user'', message_content = content\<rparr>"

definition assistant_message :: "string \<Rightarrow> ProviderMessage" where
  "assistant_message content = \<lparr>message_role = ''assistant'', message_content = content\<rparr>"

definition tool_message :: "string \<Rightarrow> ProviderMessage" where
  "tool_message content = \<lparr>message_role = ''tool'', message_content = content\<rparr>"

section \<open>Anchors and packs\<close>

datatype EvidenceAnchor = Artifact string "nat option" | Event nat "string option"

fun label :: "EvidenceAnchor \<Rightarrow> string" where
  "label (Artifact i (Some n)) = ''evidence_anchor:artifact:'' @ i @ '':'' @ nat_to_string n"
| "label (Artifact i None) = ''evidence_anchor:artifact:'' @ i"
| "label (Event q (Some i)) = ''evidence_anchor:event:'' @ nat_to_string q @ '':'' @ i"
| "label (Event q None) = ''evidence_anchor:event:'' @ nat_to_string q"

fun anchor_artifact_id :: "EvidenceAnchor \<Rightarrow> string option" where
  "anchor_artifact_id (Artifact i _) = Some i"
| "anchor_artifact_id (Event _ _) = None"

fun anchor_event_sequence :: "EvidenceAnchor \<Rightarrow> nat option" where
  "anchor_event_sequence (Event q _) = Some q"
| "anchor_event_sequence (Artifact _ _) = None"

definition anchor_from_artifact :: "DurableArtifactRef \<Rightarrow> EvidenceAnchor" where
  "anchor_from_artifact a = Artifact (artifact_id a) (Some (artifact_byte_count a))"

record ToolObservation =
  obs_tool_call_id :: string
  obs_tool_name :: string
  obs_arguments_summary :: string
  obs_outcome :: ToolEventOutcome
  obs_preview :: string
  obs_artifact :: "DurableArtifactRef option"
  obs_error :: "string option"

record ObservationPack =
  pack_tool_call_id :: string
  pack_tool_name :: string
  pack_outcome :: string
  pack_preview :: string
  pack_truncated :: bool
  pack_anchors :: "EvidenceAnchor list"
  pack_error :: "string option"
  pack_arguments_summary :: "string option"

datatype ObservationPackError = ArtifactStoreRequired | Store string | Serialize string | NotRecoverable string

definition option_list :: "'a option \<Rightarrow> 'a list" where
  "option_list x = (case x of None \<Rightarrow> [] | Some y \<Rightarrow> [y])"

definition from_tool_observation :: "ToolObservation \<Rightarrow> nat option \<Rightarrow> ObservationPack" where
  "from_tool_observation observation event_sequence =
     \<lparr>pack_tool_call_id = obs_tool_call_id observation, pack_tool_name = obs_tool_name observation,
      pack_outcome = outcome_debug (obs_outcome observation), pack_preview = obs_preview observation,
      pack_truncated = (obs_artifact observation \<noteq> None),
      pack_anchors = option_list (map_option anchor_from_artifact (obs_artifact observation))
        @ option_list (map_option (\<lambda>q. Event q (Some (obs_tool_call_id observation))) event_sequence),
      pack_error = obs_error observation,
      pack_arguments_summary = Some (obs_arguments_summary observation)\<rparr>"

type_synonym artifact_writer = "string \<Rightarrow> string + DurableArtifactRef"

definition pack_raw ::
    "artifact_writer option \<Rightarrow> string \<Rightarrow> string \<Rightarrow> string \<Rightarrow> string \<Rightarrow> TokenBudget \<Rightarrow> nat option
     \<Rightarrow> ObservationPackError + ObservationPack" where
  "pack_raw store call name outcome_text raw budget event_sequence =
     (let reduced = reduce_output (new_without_rtk budget) raw;
          pack = (\<lambda>anchors.
            \<lparr>pack_tool_call_id = call, pack_tool_name = name, pack_outcome = outcome_text,
             pack_preview = reduced_content reduced, pack_truncated = reduced_truncated reduced,
             pack_anchors = anchors @ option_list (map_option (\<lambda>q. Event q (Some call)) event_sequence),
             pack_error = None, pack_arguments_summary = None\<rparr>)
      in if reduced_truncated reduced
         then (case store of
                 None \<Rightarrow> Inl ArtifactStoreRequired
               | Some write \<Rightarrow>
                   (case write raw of
                      Inl e \<Rightarrow> Inl (Store e)
                    | Inr a \<Rightarrow> Inr (pack [anchor_from_artifact a])))
         else Inr (pack []))"

definition reduce_preserving_anchors :: "TokenBudget \<Rightarrow> ObservationPack \<Rightarrow> ObservationPack" where
  "reduce_preserving_anchors budget pack =
     (let reduced = reduce_output (new_without_rtk budget) (pack_preview pack)
      in pack\<lparr>pack_preview := reduced_content reduced,
              pack_truncated := pack_truncated pack \<or> reduced_truncated reduced\<rparr>)"

definition truncate_chars :: "string \<Rightarrow> nat \<Rightarrow> string" where
  "truncate_chars s n = (if n < char_count s then take_chars n s @ ellipsis else take_chars n s)"

definition receipt_line :: "ObservationPack \<Rightarrow> string" where
  "receipt_line pack =
     ''['' @ pack_tool_name pack @ '' '' @ pack_outcome pack @ ''] '' @ truncate_chars (pack_preview pack) 160
     @ concat (map (\<lambda>a. '' '' @ label a) (pack_anchors pack))"

definition recover_artifact_bytes :: "(string \<Rightarrow> string + string) \<Rightarrow> EvidenceAnchor \<Rightarrow> ObservationPackError + string" where
  "recover_artifact_bytes read_artifact anchor =
     (case anchor_artifact_id anchor of
        None \<Rightarrow> Inl (NotRecoverable ''anchor is not an artifact pointer'')
      | Some i \<Rightarrow> map_sum NotRecoverable id (read_artifact i))"

definition recover_event :: "'s EventStore \<Rightarrow> 's \<Rightarrow> uuid \<Rightarrow> EvidenceAnchor \<Rightarrow> ObservationPackError + Event" where
  "recover_event S s sid anchor =
     (case anchor_event_sequence anchor of
        None \<Rightarrow> Inl (NotRecoverable ''anchor is not an event pointer'')
      | Some q \<Rightarrow>
          (case so_list S s sid of
             Inl e \<Rightarrow> Inl (NotRecoverable (so_error_text S e))
           | Inr events \<Rightarrow>
               ok_or (List.find (\<lambda>e. sequence e = q) events)
                 (NotRecoverable (''event sequence '' @ nat_to_string q @ '' missing''))))"

definition observed_anchors :: "Event \<Rightarrow> EvidenceAnchor list" where
  "observed_anchors e =
     (case payload e of
        Tool (ToolEvent.Observed call _ _ _ _ artifact _) \<Rightarrow>
          option_list (map_option anchor_from_artifact artifact) @ [Event (sequence e) (Some call)]
      | _ \<Rightarrow> [])"

definition anchors_from_events :: "Event list \<Rightarrow> nat \<Rightarrow> nat \<Rightarrow> EvidenceAnchor list" where
  "anchors_from_events events from_sequence to_sequence =
     concat (map observed_anchors
       (filter (\<lambda>e. \<not> (sequence e < from_sequence \<or> to_sequence < sequence e)) events))"

definition anchors_header :: string where
  "anchors_header = ''[evidence anchors]''"

definition append_anchors_to_summary :: "string \<Rightarrow> EvidenceAnchor list \<Rightarrow> string" where
  "append_anchors_to_summary summary anchors =
     (if anchors = [] then summary
      else summary @ (if summary \<noteq> [] \<and> \<not> ends_with summary [newline] then [newline] else [])
        @ anchors_header @ [newline] @ concat (map (\<lambda>a. label a @ [newline]) anchors))"

definition strip_prefix :: "string \<Rightarrow> string \<Rightarrow> string option" where
  "strip_prefix p s = (if prefix p s then Some (drop (length p) s) else None)"

definition parse_artifact_id :: "string \<Rightarrow> string option" where
  "parse_artifact_id line =
     (case strip_prefix ''evidence_anchor:artifact:'' (trim line) of
        None \<Rightarrow> None
      | Some rest \<Rightarrow> (let i = hd (split_on CHR '':'' rest) in if i = [] then None else Some i))"

definition parse_artifact_ids_from_summary :: "string \<Rightarrow> string list" where
  "parse_artifact_ids_from_summary summary = List.map_filter parse_artifact_id (str_lines summary)"

section \<open>Folding messages\<close>

definition SUMMARY_LINE_CHARS :: nat where
  "SUMMARY_LINE_CHARS = 240"

definition KEEP_TAIL_MESSAGES :: nat where
  "KEEP_TAIL_MESSAGES = 2"

definition summary_header :: string where
  "summary_header = ''[context compaction summary]''"

definition summarize_messages :: "ProviderMessage list \<Rightarrow> string" where
  "summarize_messages messages =
     str_join [newline]
       (map (\<lambda>m. ''['' @ message_role m @ ''] '' @ truncate_chars (message_content m) SUMMARY_LINE_CHARS) messages)"

definition is_system :: "ProviderMessage \<Rightarrow> bool" where
  "is_system m \<longleftrightarrow> message_role m = ''system''"

definition compact_provider_messages :: "ProviderMessage list \<Rightarrow> ProviderMessage list \<times> string" where
  "compact_provider_messages messages =
     (if length messages \<le> KEEP_TAIL_MESSAGES + 1 then (messages, summarize_messages messages)
      else
        (let systems = takeWhile is_system messages; rest = dropWhile is_system messages in
         if length rest \<le> KEEP_TAIL_MESSAGES then (systems @ rest, summarize_messages rest)
         else
           (let split_at = length rest - min KEEP_TAIL_MESSAGES (length rest);
                summary = summarize_messages (take split_at rest)
            in (systems @ [user_message (summary_header @ [newline] @ summary)] @ drop split_at rest, summary))))"

definition compaction_tokens :: "string \<Rightarrow> u64" where
  "compaction_tokens s = of_nat (max (length s div 4) 1)"

definition is_summary_message :: "ProviderMessage \<Rightarrow> bool" where
  "is_summary_message m \<longleftrightarrow> message_role m = ''user'' \<and> str_contains (message_content m) summary_header"

fun replace_summary :: "string \<Rightarrow> ProviderMessage list \<Rightarrow> ProviderMessage list" where
  "replace_summary s [] = []"
| "replace_summary s (m # ms) =
     (if is_summary_message m then user_message (summary_header @ [newline] @ s) # ms
      else m # replace_summary s ms)"

definition inject_evidence_anchors_into_summary :: "ProviderMessage list \<Rightarrow> string \<Rightarrow> ProviderMessage list" where
  "inject_evidence_anchors_into_summary messages s =
     (if str_contains s anchors_header then replace_summary s messages else messages)"

section \<open>The compaction of a session\<close>

definition completed_to :: "Event \<Rightarrow> nat option" where
  "completed_to e =
     (case payload e of
        Budget (CompactionCompleted _ _ _ to_sequence _ _) \<Rightarrow>
          if 0 < to_sequence then Some (to_sequence + 1) else None
      | _ \<Rightarrow> None)"

definition compaction_range :: "Event list \<Rightarrow> nat \<times> nat" where
  "compaction_range events =
     (unwrap_or (find_map completed_to (rev events)) 1,
      if events = [] then 0 else sequence (last events))"

definition parent_session_id :: "'s EventStore \<Rightarrow> AgentRuntime \<Rightarrow> nat \<Rightarrow> 's \<Rightarrow> uuid option" where
  "parent_session_id S rt now s =
     (case so_list_sessions S s now of
        Inl _ \<Rightarrow> None
      | Inr infos \<Rightarrow> Option.bind (List.find (\<lambda>i. info_id i = runtime_session_id rt) infos) info_parent)"

definition structural_state :: "'s EventStore \<Rightarrow> AgentRuntime \<Rightarrow> nat \<Rightarrow> 's \<Rightarrow> CompactionStructuralState" where
  "structural_state S rt now s =
     (let state = (case runtime_budget rt of None \<Rightarrow> budget_state_new now | Some c \<Rightarrow> checker_state c);
          scope = engine_scope (runtime_policy rt)
      in \<lparr>structural_workspace_root = runtime_workspace_root rt,
          structural_parent_session_id = parent_session_id S rt now s,
          structural_allow_network = allow_network scope,
          structural_allow_web_outbound = allow_web_outbound scope,
          structural_allow_private_network = allow_private_network scope,
          structural_allowed_hosts = allowed_hosts scope,
          structural_turns_used = turns_used state, structural_tokens_used = tokens_used state,
          structural_compaction_count = compaction_count state,
          structural_worktree_id = runtime_worktree_id rt\<rparr>)"

text \<open>The messages and the summary of a compaction, with the anchors of the compacted range.\<close>

definition fold_messages :: "Event list \<Rightarrow> ProviderMessage list \<Rightarrow> ProviderMessage list \<times> string" where
  "fold_messages events messages =
     (let (from_sequence, to_sequence) = compaction_range events;
          (compacted, summary) = compact_provider_messages messages;
          summary' = append_anchors_to_summary summary (anchors_from_events events from_sequence to_sequence)
      in (inject_evidence_anchors_into_summary compacted summary', summary'))"

definition run_durable_compaction_with_store ::
    "'s EventStore \<Rightarrow> 's BudgetStore \<Rightarrow> nat \<Rightarrow> stamp \<times> stamp \<times> stamp \<Rightarrow> ProviderMessage list
     \<Rightarrow> artifact_writer option \<Rightarrow> AgentRuntime \<Rightarrow> 's
     \<Rightarrow> (RuntimeError + ProviderMessage list) \<times> AgentRuntime \<times> 's" where
  "run_durable_compaction_with_store S B now T messages writer rt s =
     (case compaction_needed rt of
        None \<Rightarrow> (Inr messages, rt, s)
      | Some (threshold, used) \<Rightarrow>
          (case runtime_events S rt s of
             Inl e \<Rightarrow> (Inl e, rt, s)
           | Inr events \<Rightarrow>
               (let (t1, t2, t3) = T;
                    (from_sequence, to_sequence) = compaction_range events;
                    (compacted, summary) = fold_messages events messages;
                    compacted_to = compaction_tokens summary
                      + sum_list (map (\<lambda>m. compaction_tokens (message_content m)) compacted);
                    artifact = Option.bind writer (\<lambda>write. case write summary of Inl _ \<Rightarrow> None | Inr a \<Rightarrow> Some a)
                in case sbind (runtime_record S rt t1 (Budget (BudgetEvent.CompactionRequired threshold used)) s)
                          (\<lambda>_. runtime_record S rt t2
                                 (Budget (CompactionStarted from_sequence to_sequence threshold used))) of
                     (Inl e, s2) \<Rightarrow> (Inl e, rt, s2)
                   | (Inr _, s2) \<Rightarrow>
                       (case runtime_record_compaction B compacted_to rt s2 of
                          (Inl e, rt3, s3) \<Rightarrow> (Inl e, rt3, s3)
                        | (Inr _, rt3, s3) \<Rightarrow>
                            (let structural = structural_state S rt3 now s3 in
                             case runtime_record S rt3 t3
                                    (Budget (CompactionCompleted compacted_to (structural_compaction_count structural)
                                       from_sequence to_sequence artifact (Some structural))) s3 of
                               (Inl e, s4) \<Rightarrow> (Inl e, rt3, s4)
                             | (Inr _, s4) \<Rightarrow> (Inr compacted, rt3, s4))))))"

section \<open>Anchors are recoverable\<close>

text \<open>A character that is neither white space nor a byte of a longer character.\<close>

definition graphic :: "char \<Rightarrow> bool" where
  "graphic c \<longleftrightarrow> 33 \<le> code c \<and> code c < 127"

lemma graphic_not_ws: "graphic c \<Longrightarrow> \<not> ascii_ws c \<and> \<not> ws2 c a \<and> \<not> ws2 a c \<and> \<not> ws3 c a b \<and> \<not> ws3 a b c"
  by (auto simp: graphic_def ascii_ws_def ws2_def ws3_def)

lemma trim_start_graphic: "s \<noteq> [] \<Longrightarrow> graphic (hd s) \<Longrightarrow> trim_start s = s"
proof -
  assume "s \<noteq> []" "graphic (hd s)"
  then have "ws_len s = 0" using graphic_not_ws by (cases s rule: ws_len.cases) auto
  then show ?thesis by (simp add: trim_start.simps [of s])
qed

lemma trim_end_graphic: "graphic c \<Longrightarrow> trim_end (s @ [c]) = s @ [c]"
proof -
  assume c: "graphic c"
  consider "s = []" | a where "s = [a]" | u a b where "s = u @ [a, b]"
    by (cases s rule: rev_cases; cases "butlast s" rule: rev_cases) auto
  then have "ws_suffix_len (s @ [c]) = 0"
    using graphic_not_ws [OF c] by cases (auto simp: ws_suffix_len_def Let_def)
  then show ?thesis by (simp add: trim_end.simps [of "s @ [c]"])
qed

lemma trim_graphic: "graphic (hd s) \<Longrightarrow> graphic c \<Longrightarrow> s \<noteq> [] \<Longrightarrow> trim (s @ [c]) = s @ [c]"
  by (simp add: trim_def trim_start_graphic trim_end_graphic)

definition plain_id :: "string \<Rightarrow> bool" where
  "plain_id i \<longleftrightarrow> i \<noteq> [] \<and> (\<forall>c \<in> set i. graphic c \<and> c \<noteq> CHR '':'')"

lemma nat_to_string_graphic: "nat_to_string n \<noteq> [] \<and> (\<forall>c \<in> set (nat_to_string n). graphic c)"
proof (induction n rule: nat_to_string.induct)
  case (1 n)
  have "graphic (char_of (48 + d))" if "d < 10" for d :: nat
  proof -
    have "(48 + d) mod 256 = 48 + d" using that by (intro mod_less) linarith
    then show ?thesis using that by (simp add: graphic_def)
  qed
  then show ?case using 1 by (subst nat_to_string.simps) (auto simp: Let_def)
qed

lemma nat_to_string_last: "graphic (last (nat_to_string n))" "nat_to_string n \<noteq> []"
  using nat_to_string_graphic [of n] last_in_set [of "nat_to_string n"] by blast+

lemma parse_label:
  assumes "plain_id i"
  shows "parse_artifact_id (label (Artifact i n)) = Some i"
proof -
  let ?p = "''evidence_anchor:artifact:''"
  have trimmed: "trim (?p @ t) = ?p @ t" if "t \<noteq> []" "graphic (last t)" for t
    using trim_graphic [of "?p @ butlast t" "last t"] that by (simp add: graphic_def)
  have "\<exists>t. label (Artifact i n) = ?p @ t \<and> t \<noteq> [] \<and> graphic (last t) \<and> hd (split_on CHR '':'' t) = i"
  proof (cases n)
    case None
    have "split_on CHR '':'' i = [i]" using assms by (auto simp: plain_id_def intro: split_on_single)
    then show ?thesis using assms None by (intro exI [of _ i]) (simp add: plain_id_def)
  next
    case (Some m)
    have "split_on CHR '':'' (i @ CHR '':'' # nat_to_string m) = i # split_on CHR '':'' (nat_to_string m)"
      using assms by (intro split_on_append) (auto simp: plain_id_def)
    then show ?thesis
      using Some nat_to_string_graphic [of m] by (intro exI [of _ "i @ CHR '':'' # nat_to_string m"]) simp
  qed
  then obtain t where t: "label (Artifact i n) = ?p @ t" "t \<noteq> []" "graphic (last t)" "hd (split_on CHR '':'' t) = i"
    by blast
  have "strip_prefix ?p (trim (label (Artifact i n))) = Some t"
    unfolding t(1) trimmed [OF t(2,3)] by (simp add: strip_prefix_def)
  then show ?thesis using t(4) assms by (simp add: parse_artifact_id_def plain_id_def)
qed

lemma prefix_trim_end: "prefix (trim_end s) s"
proof (induction s rule: trim_end.induct)
  case (1 s)
  show ?case
  proof (cases "ws_suffix_len s = 0")
    case True
    then show ?thesis by (simp add: trim_end.simps [of s])
  next
    case False
    then have "prefix (trim_end (take (length s - ws_suffix_len s) s)) s"
      using 1 take_is_prefix prefix_order.trans by blast
    then show ?thesis using False by (simp add: trim_end.simps [of s])
  qed
qed

lemma parse_event_line: "parse_artifact_id (''evidence_anchor:ev'' @ t) = None"
proof -
  let ?p = "''evidence_anchor:ev''"
  have "trim_start (?p @ t) = ?p @ t" by (rule trim_start_graphic) (simp_all add: graphic_def)
  then have "prefix (trim (?p @ t)) (?p @ t)" using prefix_trim_end [of "?p @ t"] by (simp add: trim_def)
  then have "\<not> prefix ''evidence_anchor:artifact:'' (trim (?p @ t))"
    by (auto dest: prefix_order.trans)
  then show ?thesis by (simp add: parse_artifact_id_def strip_prefix_def)
qed

lemma str_lines_append: "a = [] \<or> last a = newline \<Longrightarrow> str_lines (a @ b) = str_lines a @ str_lines b"
  by (simp add: str_lines_def split_inclusive_pre)

lemma str_lines_line: "newline \<notin> set l \<Longrightarrow> str_lines (l @ [newline]) = [line_of (l @ [newline])]"
  using split_inclusive_append [of newline l "[]"] by (simp add: str_lines_def)

lemma line_of_line: "l = [] \<or> last l \<noteq> carriage_return \<Longrightarrow> line_of (l @ [newline]) = l"
  by (auto simp: line_of_def strip_suffix_char_def)

lemma line_of_cases: "line_of (l @ [newline]) \<in> {l, butlast l}"
  by (auto simp: line_of_def strip_suffix_char_def)

lemma label_artifact_last:
  assumes "plain_id i"
  shows "last (label (Artifact i n)) \<noteq> carriage_return"
proof -
  have "graphic (last (label (Artifact i n)))"
    using assms nat_to_string_last by (cases n) (simp_all add: plain_id_def)
  moreover have "\<not> graphic carriage_return" by (simp add: graphic_def)
  ultimately show ?thesis by metis
qed

definition recoverable :: "EvidenceAnchor \<Rightarrow> bool" where
  "recoverable a \<longleftrightarrow> newline \<notin> set (label a) \<and> (\<forall>i. anchor_artifact_id a = Some i \<longrightarrow> plain_id i)"

lemma parse_anchor_line:
  assumes "recoverable a"
  shows "parse_artifact_id (line_of (label a @ [newline])) = anchor_artifact_id a"
proof (cases a)
  case (Artifact i n)
  then have i: "plain_id i" using assms by (simp add: recoverable_def)
  have "line_of (label a @ [newline]) = label a"
    using label_artifact_last [OF i, of n] Artifact by (intro line_of_line) simp
  then show ?thesis using parse_label [OF i, of n] Artifact by simp
next
  case (Event q c)
  obtain u where u: "label (EvidenceAnchor.Event q c) = ''evidence_anchor:ev'' @ ''ent:'' @ u" by (cases c) auto
  have "butlast (''evidence_anchor:ev'' @ ''ent:'' @ u) = ''evidence_anchor:ev'' @ butlast (''ent:'' @ u)"
    by (rule butlast_append [THEN trans]) simp
  then have "\<exists>t. line_of (label a @ [newline]) = ''evidence_anchor:ev'' @ t"
    using line_of_cases [of "label a"] u unfolding Event by auto
  then show ?thesis using parse_event_line Event by auto
qed

lemma map_filter_append: "List.map_filter f (xs @ ys) = List.map_filter f xs @ List.map_filter f ys"
  by (simp add: List.map_filter_def)

lemma parse_anchor_lines:
  "\<forall>a \<in> set anchors. recoverable a \<Longrightarrow>
   parse_artifact_ids_from_summary (concat (map (\<lambda>a. label a @ [newline]) anchors))
     = List.map_filter anchor_artifact_id anchors"
proof (induction anchors)
  case (Cons a anchors)
  then have "str_lines (label a @ [newline]) = [line_of (label a @ [newline])]"
    by (intro str_lines_line) (simp add: recoverable_def)
  then show ?case
    using Cons str_lines_append [of "label a @ [newline]"] parse_anchor_line [of a]
    by (simp add: parse_artifact_ids_from_summary_def map_filter_simps split: option.split)
qed (simp add: parse_artifact_ids_from_summary_def str_lines_def)

section \<open>Properties\<close>



text \<open>
  The identifier of a tool call comes from the model. A line break in it puts a line of the model's
  choice among the anchors.
\<close>

lemma call_id_forges_anchor:
  "parse_artifact_ids_from_summary (append_anchors_to_summary []
     [EvidenceAnchor.Event 4 (Some (''x'' @ [newline] @ ''evidence_anchor:artifact:forged''))]) = [''forged'']"
  by code_simp

subsection \<open>Compaction\<close>

lemma replace_summary_systems:
  "\<forall>m \<in> set ms. is_system m \<Longrightarrow> replace_summary s (ms @ x # rest) = ms @ replace_summary s (x # rest)"
proof (induction ms)
  case (Cons m ms)
  then have "\<not> is_summary_message m" by (simp add: is_summary_message_def is_system_def)
  then show ?case using Cons by simp
qed simp

lemma str_contains_self: "str_contains (a @ p @ b) p"
  by (simp add: str_contains_iff sublist_appendI)

lemma summary_has_label:
  assumes "a \<in> set anchors"
  shows "str_contains (append_anchors_to_summary summary anchors) (label a)"
    and "str_contains (append_anchors_to_summary summary anchors) anchors_header"
proof -
  obtain xs ys where "anchors = xs @ a # ys" using assms by (auto simp: in_set_conv_decomp)
  then have "\<exists>u v. append_anchors_to_summary summary anchors = u @ label a @ v"
    by (simp add: append_anchors_to_summary_def) (metis append.assoc append_Cons append_Nil)
  then show "str_contains (append_anchors_to_summary summary anchors) (label a)"
    using str_contains_self by metis
  have "anchors \<noteq> []" using assms by auto
  then have "\<exists>u v. append_anchors_to_summary summary anchors = u @ anchors_header @ v"
    by (simp add: append_anchors_to_summary_def) (metis append.assoc append_Cons append_Nil)
  then show "str_contains (append_anchors_to_summary summary anchors) anchors_header"
    using str_contains_self by metis
qed

text \<open>
  C35. Folding keeps what must stay in the prompt. Whenever more than two messages follow the leading
  system messages, and there are more than three in all, the result is the system messages, one
  summary and the last two messages, unchanged; and for every tool observation in the compacted
  range of the log the summary names the event and its artifact.
\<close>

theorem fold_keeps_context:
  assumes "3 < length messages" and "2 < length (dropWhile is_system messages)"
    and "compaction_range events = (from, to)"
  shows "\<exists>s. fold_messages events messages =
      (takeWhile is_system messages @ user_message (summary_header @ [newline] @ s)
         # drop (length (dropWhile is_system messages) - 2) (dropWhile is_system messages), s)
    \<and> (\<forall>e \<in> set events. from \<le> sequence e \<and> sequence e \<le> to \<longrightarrow>
         (\<forall>a \<in> set (observed_anchors e). str_contains s (label a)))"
proof -
  let ?rest = "dropWhile is_system messages"
  let ?fold = "summarize_messages (take (length ?rest - 2) ?rest)"
  define anchors where "anchors = anchors_from_events events from to"
  define s where "s = append_anchors_to_summary ?fold anchors"
  have compact: "compact_provider_messages messages =
      (takeWhile is_system messages @ user_message (summary_header @ [newline] @ ?fold)
         # drop (length ?rest - 2) ?rest, ?fold)"
    using assms(1,2) by (simp add: compact_provider_messages_def KEEP_TAIL_MESSAGES_def Let_def min_def)
  have summary: "is_summary_message (user_message (summary_header @ t))" for t
    using str_contains_self [of "[]" summary_header t] by (simp add: is_summary_message_def user_message_def)
  have "inject_evidence_anchors_into_summary (fst (compact_provider_messages messages)) s =
      takeWhile is_system messages @ user_message (summary_header @ [newline] @ s) # drop (length ?rest - 2) ?rest"
  proof (cases "str_contains s anchors_header")
    case True
    have "\<forall>m \<in> set (takeWhile is_system messages). is_system m" by (blast dest: set_takeWhileD)
    then have "replace_summary s (fst (compact_provider_messages messages)) =
        takeWhile is_system messages
        @ replace_summary s (user_message (summary_header @ [newline] @ ?fold) # drop (length ?rest - 2) ?rest)"
      unfolding compact fst_conv by (rule replace_summary_systems)
    then show ?thesis
      unfolding inject_evidence_anchors_into_summary_def if_P [OF True] replace_summary.simps(2)
        if_P [OF summary] .
  next
    case False
    then have "anchors = []" unfolding s_def using summary_has_label(2) list.set_sel(1) by metis
    then have "s = ?fold" unfolding s_def append_anchors_to_summary_def by (rule if_P)
    then show ?thesis
      unfolding inject_evidence_anchors_into_summary_def if_not_P [OF False] compact fst_conv by (rule ssubst) (rule HOL.refl)
  qed
  then have "fold_messages events messages =
      (takeWhile is_system messages @ user_message (summary_header @ [newline] @ s) # drop (length ?rest - 2) ?rest, s)"
    using assms(3) by (simp add: fold_messages_def compact s_def anchors_def Let_def)
  moreover have "str_contains s (label a)"
    if "e \<in> set events" "from \<le> sequence e" "sequence e \<le> to" "a \<in> set (observed_anchors e)" for e a
    unfolding s_def by (rule summary_has_label(1)) (use that in \<open>auto simp: anchors_def anchors_from_events_def\<close>)
  ultimately show ?thesis by blast
qed

theorem fold_keeps_context_witness:
  "\<exists>s. fold_messages
      [event_new (0, 5) 7 1 (Tool (ToolEvent.Observed ''t1'' ''read'' [] Success ''ok'' None None)),
       event_new (0, 5) 7 2 (Notice PolicyAllowed)]
      [system_message ''rules'', user_message ''a'', user_message ''b'', user_message ''c''] =
      ([system_message ''rules'', user_message (summary_header @ [newline] @ s), user_message ''b'', user_message ''c''], s)
    \<and> str_contains s (label (EvidenceAnchor.Event 1 (Some ''t1'')))"
proof -
  let ?e1 = "event_new (0, 5) 7 1 (Tool (ToolEvent.Observed ''t1'' ''read'' [] Success ''ok'' None None))"
  let ?e2 = "event_new (0, 5) 7 2 (Notice PolicyAllowed)"
  let ?ms = "[system_message ''rules'', user_message ''a'', user_message ''b'', user_message ''c'']"
  have roles: "is_system (system_message x)" "\<not> is_system (user_message x)" for x
    by (simp_all add: is_system_def system_message_def user_message_def)
  have range: "compaction_range [?e1, ?e2] = (1, 2)"
    by (simp add: compaction_range_def completed_to_def event_new_def)
  have anchors: "set (observed_anchors ?e1) = {EvidenceAnchor.Event 1 (Some ''t1'')}" "sequence ?e1 = 1"
    by (simp_all add: observed_anchors_def event_new_def option_list_def)
  show ?thesis
    using fold_keeps_context [of ?ms "[?e1, ?e2]" 1 2, OF _ _ range]
    by (auto simp: roles anchors [unfolded One_nat_def] simp del: label.simps)
qed

text \<open>
  The next fold shortens the previous summary like any other message, to 240 characters, and the
  anchors at its end go with it: the new range no longer covers their events.
\<close>

lemma second_fold_drops_anchors:
  "let old = append_anchors_to_summary (replicate 240 CHR ''a'') [Artifact ''ab12'' None];
       u = user_message ''next''
   in parse_artifact_ids_from_summary old = [''ab12'']
    \<and> parse_artifact_ids_from_summary
        (snd (fold_messages [] [user_message (summary_header @ [newline] @ old), u, u, u])) = []"
  by code_simp

subsection \<open>The compaction events\<close>

text \<open>
  A store that keeps the budget rows beside the log, in the terms a compaction needs: writing a row
  leaves the logs alone.
\<close>

locale budgeted_store = store_client inv store
  for inv :: "'s \<Rightarrow> bool" and store :: "'s EventStore" +
  fixes rows :: "'s BudgetStore"
  assumes update_inv: "inv s \<Longrightarrow> bs_update rows s sid b = (r, s') \<Longrightarrow> inv s'"
    and update_list: "inv s \<Longrightarrow> bs_update rows s sid b = (r, s') \<Longrightarrow> so_list store s' x = so_list store s x"
begin

lemma record_appends:
  assumes "runtime_record store rt t p s = (Inr u, s')" "inv s" "so_list store s (runtime_session_id rt) = Inr es"
  shows "inv s' \<and> (\<exists>e. so_list store s' (runtime_session_id rt) = Inr (es @ [e]) \<and> payload e = p
    \<and> sequence e = Suc (length es))"
proof -
  obtain e where run: "so_append_next store s t (runtime_session_id rt) p = (Inr e, s')"
    using assms(1) unfolding runtime_record_def
    by (cases "so_append_next store s t (runtime_session_id rt) p"; cases "fst (so_append_next store s t (runtime_session_id rt) p)") auto
  show ?thesis
    using append_inv [OF assms(2) run] append_payloads [OF assms(2) run assms(3)] by blast
qed

lemma row_keeps_log:
  assumes "runtime_record_compaction rows n rt s = (r, rt', s')" "inv s"
  shows "inv s' \<and> so_list store s' x = so_list store s x \<and> runtime_session_id rt' = runtime_session_id rt"
  using assms update_inv update_list
  by (fastforce simp: runtime_record_compaction_def Let_def split: option.splits prod.splits sum.splits)

lemma range_end:
  assumes "inv s" "so_list store s sid = Inr es"
  shows "snd (compaction_range es) = length es"
proof (cases "es = []")
  case False
  then have "sequence (last es) = last (map sequence es)" by (simp add: last_map)
  then show ?thesis using list_numbered [OF assms] False by (simp add: compaction_range_def Suc_le_eq)
qed (simp add: compaction_range_def)

lemma compaction_appends:
  assumes "inv s" and log: "so_list store s (runtime_session_id rt) = Inr es"
    and "compaction_needed rt = Some (threshold, used)"
    and run: "run_durable_compaction_with_store store rows now (t1, t2, t3) messages writer rt s = (Inr ms, rt', s')"
  shows "\<exists>e1 e2 e3 tokens count artifact structural.
      so_list store s' (runtime_session_id rt) = Inr (es @ [e1, e2, e3])
    \<and> payload e1 = Budget (BudgetEvent.CompactionRequired threshold used)
    \<and> payload e2 = Budget (CompactionStarted (fst (compaction_range es)) (length es) threshold used)
    \<and> payload e3 = Budget (CompactionCompleted tokens count (fst (compaction_range es)) (length es) artifact structural)
    \<and> sequence e3 = length es + 3 \<and> ms = fst (fold_messages es messages)"
proof -
  obtain lo where range: "compaction_range es = (lo, length es)"
    using range_end [OF assms(1) log] by (metis prod.collapse)
  obtain compacted summary where fold: "fold_messages es messages = (compacted, summary)" by fastforce
  have events: "runtime_events store rt s = Inr es" using log by (simp add: runtime_events_def)
  obtain s1 s2 s3 rt3 p3 u1 u2 u3 where
      r1: "runtime_record store rt t1 (Budget (BudgetEvent.CompactionRequired threshold used)) s = (Inr u1, s1)" and
      r2: "runtime_record store rt t2 (Budget (CompactionStarted lo (length es) threshold used)) s1 = (Inr u2, s2)" and
      c: "\<exists>n. runtime_record_compaction rows n rt s2 = (Inr u3, rt3, s3)" and
      r3: "runtime_record store rt3 t3 p3 s3 = (Inr (), s')" and
      p3: "\<exists>tokens count artifact structural.
        p3 = Budget (CompactionCompleted tokens count lo (length es) artifact structural)" and
      ms: "ms = compacted"
    using run assms(3) unfolding run_durable_compaction_with_store_def events sum.case option.case range fold
    by (auto simp: Let_def sbind_eq_Inr_iff split: prod.splits sum.splits) blast
  note 1 = record_appends [OF r1 assms(1) log]
  obtain e1 where e1: "so_list store s1 (runtime_session_id rt) = Inr (es @ [e1])"
      "payload e1 = Budget (BudgetEvent.CompactionRequired threshold used)" using 1 by blast
  note 2 = record_appends [OF r2 conjunct1 [OF 1] e1(1)]
  obtain e2 where e2: "so_list store s2 (runtime_session_id rt) = Inr ((es @ [e1]) @ [e2])"
      "payload e2 = Budget (CompactionStarted lo (length es) threshold used)" using 2 by blast
  from c have k: "inv s3" "so_list store s3 (runtime_session_id rt) = so_list store s2 (runtime_session_id rt)"
      "runtime_session_id rt3 = runtime_session_id rt"
    using row_keeps_log conjunct1 [OF 2] by blast+
  have "so_list store s3 (runtime_session_id rt3) = Inr (((es @ [e1]) @ [e2]))" using k e2 by simp
  from record_appends [OF r3 k(1) this] obtain e3 where
      e3: "so_list store s' (runtime_session_id rt) = Inr (((es @ [e1]) @ [e2]) @ [e3])" "payload e3 = p3"
      "sequence e3 = length es + 3" using k(3) by auto
  show ?thesis
    using e1(2) e2(2) e3 p3 ms by (simp add: range fold)
qed

end

definition memory_rows :: "nat \<Rightarrow> MemoryEventStore BudgetStore" where
  "memory_rows now = \<lparr>bs_get = memory_get_budget_state now, bs_update = memory_update_budget_state\<rparr>"

interpretation memory_budget: budgeted_store store_wf "memory_ops err" "memory_rows now" for err now
  by unfold_locales
    (auto simp: memory_rows_def memory_update_budget_state_def memory_client.log_laws)

lemma next_range:
  assumes "payload e3 = Budget (CompactionCompleted tokens k from to artifact structural)"
    and "0 < to" and "sequence e3 = n"
  shows "compaction_range (es @ [e1, e2, e3]) = (Suc to, n)"
  using assms by (simp add: compaction_range_def completed_to_def)

lemma memory_record_ok:
  assumes "store_wf st" "store_healthy st"
  shows "\<exists>st'. runtime_record (memory_ops err) rt t p st = (Inr (), st') \<and> store_wf st' \<and> store_healthy st'"
  using memory_append_ok [OF assms, of t "runtime_session_id rt" p] by (auto simp: runtime_record_def)

lemma compaction_succeeds:
  assumes "store_wf st" "store_healthy st" "compaction_needed rt = Some (threshold, used)"
  shows "\<exists>ms rt' st'. run_durable_compaction_with_store (memory_ops err) (memory_rows now) clock T messages writer rt st
    = (Inr ms, rt', st')"
proof -
  let ?S = "memory_ops err"
  obtain t1 t2 t3 where T: "T = (t1, t2, t3)" by (rule prod_cases3)
  obtain es where events: "runtime_events ?S rt st = Inr es"
    using assms(1,2) by (simp add: runtime_events_def memory_list_visible)
  obtain lo hi where range: "compaction_range es = (lo, hi)" by fastforce
  obtain compacted summary where fold: "fold_messages es messages = (compacted, summary)" by fastforce
  obtain s1 where s1: "runtime_record ?S rt t1 (Budget (BudgetEvent.CompactionRequired threshold used)) st = (Inr (), s1)"
      "store_wf s1" "store_healthy s1" using memory_record_ok [OF assms(1,2)] by blast
  obtain s2 where s2: "runtime_record ?S rt t2 (Budget (CompactionStarted lo hi threshold used)) s1 = (Inr (), s2)"
      "store_wf s2" "store_healthy s2" using memory_record_ok [OF s1(2,3)] by blast
  have row: "\<exists>rt3. runtime_record_compaction (memory_rows now) n rt s2 = (Inr (), rt3, s2)" for n
    by (simp add: runtime_record_compaction_def memory_rows_def memory_update_budget_state_def Let_def split: option.split)
  then obtain g where g: "\<And>n. runtime_record_compaction (memory_rows now) n rt s2 = (Inr (), g n, s2)" by metis
  obtain f where f: "\<And>r t p. runtime_record ?S r t p s2 = (Inr (), f r t p)"
    using memory_record_ok [OF s2(2,3)] by metis
  show ?thesis
    by (simp add: run_durable_compaction_with_store_def assms(3) events range fold T s1 s2 g f Let_def)
qed



end
