(* ===== verification/Tool_Orchestrator.thy ===== *)
theory Tool_Orchestrator
  imports Workspace_Tools Tool_Schema Observations
begin

text \<open>
  The tool orchestrator, \<open>crates/impetus-core/src/tool_orchestrator.rs\<close>, and the live MCP tools it
  dispatches to, \<open>crates/impetus-core/src/mcp_live.rs\<close>: from a tool call of the model to an action,
  through policy and seam, to an observation in the session's log.

  What the orchestrator reaches outside is in the record \<open>tool_env\<close> and in the services of the
  orchestrator: the disk, the JSON printer, the text of identifiers and projection errors, the web
  research and coding services, the MCP transport. Each service is a function on a state \<open>'w\<close> of the
  world, so that a theorem can say that it was not called. The hook prefilter only concerns the
  process executor, which is a parameter of the approved command.
\<close>

section \<open>Live MCP tools\<close>

record McpTool =
  mcp_name :: string
  mcp_description :: string
  mcp_input_schema :: json
  mcp_annotations :: "json option"

record McpLiveToolEntry =
  entry_catalog_name :: string
  entry_server :: string
  entry_tool :: string
  entry_description :: string
  entry_input_schema :: json
  entry_semantics :: ExecutionSemantics

definition catalog_name :: "string \<Rightarrow> string \<Rightarrow> string" where
  "catalog_name server tool = ''mcp:'' @ server @ '':'' @ tool"

definition semantics_from_annotations :: "json option \<Rightarrow> ExecutionSemantics" where
  "semantics_from_annotations annotations =
     (if unwrap_or (Option.bind (Option.bind annotations (\<lambda>a. json_get a ''readOnlyHint'')) json_as_bool) False
      then ReadOnly else Mutating)"

definition from_mcp_tool :: "string \<Rightarrow> McpTool \<Rightarrow> McpLiveToolEntry" where
  "from_mcp_tool server tool =
     \<lparr>entry_catalog_name = catalog_name server (mcp_name tool), entry_server = server, entry_tool = mcp_name tool,
      entry_description = mcp_description tool,
      entry_input_schema = (if mcp_input_schema tool = Null then Object [(''type'', String ''object'')]
                            else mcp_input_schema tool),
      entry_semantics = semantics_from_annotations (mcp_annotations tool)\<rparr>"

datatype McpLiveCallResult = Ok string | Failed string | Unknown string

type_synonym 'w mcp_caller = "string \<Rightarrow> json \<Rightarrow> 'w \<Rightarrow> McpLiveCallResult \<times> 'w"

definition extract_text_preview :: "(json \<Rightarrow> string) \<Rightarrow> json \<Rightarrow> string" where
  "extract_text_preview to_text value =
     (let joined = (case Option.bind (json_get value ''content'') json_as_array of
                      Some items \<Rightarrow> List.map_filter (\<lambda>item. Option.bind (json_get item ''text'') json_as_str) items
                    | None \<Rightarrow> [])
      in take_chars 1024 (redact_text (if joined \<noteq> [] then str_join [newline] joined else to_text value)))"

definition preview_from_call_result :: "(json \<Rightarrow> string) \<Rightarrow> json \<Rightarrow> McpLiveCallResult" where
  "preview_from_call_result to_text value =
     (let preview = extract_text_preview to_text value in
      if unwrap_or (Option.bind (json_get value ''isError'') json_as_bool) False then Failed preview else Ok preview)"

definition classify_transport_error :: "string \<Rightarrow> McpLiveCallResult" where
  "classify_transport_error message =
     (let lower = to_ascii_lowercase message in
      if str_contains lower ''timed out'' \<or> str_contains lower ''closed the connection''
         \<or> str_contains lower ''connection reset''
      then Unknown message else Failed message)"

definition adapter_caller ::
    "(json \<Rightarrow> string) \<Rightarrow> (string \<Rightarrow> json \<Rightarrow> 'w \<Rightarrow> (string + json) \<times> 'w) \<Rightarrow> 'w mcp_caller" where
  "adapter_caller to_text adapter tool arguments w =
     (case adapter tool arguments w of
        (Inr value, w') \<Rightarrow> (preview_from_call_result to_text value, w')
      | (Inl error, w') \<Rightarrow> (classify_transport_error error, w'))"

record 'w McpLiveBridge =
  bridge_tools :: "string \<rightharpoonup> McpLiveToolEntry"
  bridge_caller :: "'w mcp_caller"
  bridge_entry_callers :: "string \<rightharpoonup> 'w mcp_caller"

definition from_tools :: "string \<Rightarrow> McpTool list \<Rightarrow> 'w mcp_caller \<Rightarrow> 'w McpLiveBridge" where
  "from_tools server tools caller =
     \<lparr>bridge_tools = map_of (rev (map (\<lambda>tool. let entry = from_mcp_tool server tool
                                          in (entry_catalog_name entry, entry)) tools)),
      bridge_caller = caller, bridge_entry_callers = Map.empty\<rparr>"

definition unavailable_caller :: "'w mcp_caller" where
  "unavailable_caller tool arguments w = (Failed (''no MCP caller available for `'' @ tool @ ''`''), w)"

text \<open>\<open>bridges\<close> are the values of the map of servers, in the order of its iteration.\<close>

definition merge_bridges :: "'w McpLiveBridge list \<Rightarrow> 'w McpLiveBridge" where
  "merge_bridges bridges =
     fold (\<lambda>b m. m\<lparr>bridge_tools := bridge_tools m ++ bridge_tools b,
                    bridge_entry_callers := bridge_entry_callers m ++
                      (\<lambda>name. if bridge_tools b name = None then None
                              else Some (unwrap_or (bridge_entry_callers b name) (bridge_caller b)))\<rparr>)
       bridges
       \<lparr>bridge_tools = Map.empty,
        bridge_caller = (case bridges of [] \<Rightarrow> unavailable_caller | b # _ \<Rightarrow> bridge_caller b),
        bridge_entry_callers = Map.empty\<rparr>"

definition bridge_with_allowlist :: "string list \<Rightarrow> 'w McpLiveBridge \<Rightarrow> 'w McpLiveBridge" where
  "bridge_with_allowlist names b =
     b\<lparr>bridge_tools := bridge_tools b |` set names,
       bridge_entry_callers := bridge_entry_callers b |` dom (bridge_tools b |` set names)\<rparr>"

definition bridge_validate_arguments :: "'w McpLiveBridge \<Rightarrow> string \<Rightarrow> json \<Rightarrow> ToolArgError + McpLiveToolEntry" where
  "bridge_validate_arguments b name arguments =
     rbind (ok_or (bridge_tools b name) (tool_arg_error name ''unknown MCP tool'')) (\<lambda>entry.
       rbind (validate_arguments_with_schema name arguments (entry_input_schema entry)) (\<lambda>_. Inr entry))"

definition caller_for :: "'w McpLiveBridge \<Rightarrow> string \<Rightarrow> 'w mcp_caller" where
  "caller_for b name = unwrap_or (bridge_entry_callers b name) (bridge_caller b)"

datatype OperationOutcome = Success | Failure | Unknown

definition can_retry :: "ExecutionSemantics \<Rightarrow> OperationOutcome \<Rightarrow> bool" where
  "can_retry semantics result =
     (case result of
        OperationOutcome.Success \<Rightarrow> False
      | Failure \<Rightarrow> True
      | OperationOutcome.Unknown \<Rightarrow> semantics \<in> {ReadOnly, Idempotent})"

fun semantics_debug :: "ExecutionSemantics \<Rightarrow> string" where
  "semantics_debug ReadOnly = ''ReadOnly''"
| "semantics_debug Idempotent = ''Idempotent''"
| "semantics_debug Mutating = ''Mutating''"
| "semantics_debug NonReplayable = ''NonReplayable''"

definition bridge_call :: "'w McpLiveBridge \<Rightarrow> 'w mcp_caller" where
  "bridge_call b name arguments w =
     (case bridge_tools b name of
        None \<Rightarrow> (McpLiveCallResult.Failed (''unknown MCP tool `'' @ name @ ''`''), w)
      | Some entry \<Rightarrow>
          (case caller_for b name (entry_tool entry) arguments w of
             (McpLiveCallResult.Unknown m, w') \<Rightarrow>
               (if can_retry (entry_semantics entry) OperationOutcome.Unknown then McpLiveCallResult.Unknown m
                else McpLiveCallResult.Unknown (''unknown MCP outcome for `'' @ entry_catalog_name entry
                       @ ''`; not retrying (semantics='' @ semantics_debug (entry_semantics entry) @ '')''), w')
           | other \<Rightarrow> other))"

section \<open>Calls, errors and the orchestrator\<close>

record ToolCall =
  call_id :: string
  call_name :: string
  call_arguments :: json

fun projection_error_text :: "(uuid \<Rightarrow> string) \<Rightarrow> ProjectionError \<Rightarrow> string" where
  "projection_error_text uuid_text (UnsupportedSchema i v) =
     ''event `'' @ uuid_text i @ ''` has unsupported schema version '' @ nat_to_string (unat v)"
| "projection_error_text uuid_text (MixedSession expected actual) =
     ''event stream mixes session `'' @ uuid_text expected @ ''` with `'' @ uuid_text actual"
| "projection_error_text uuid_text (NonContiguousSequence expected actual) =
     ''event sequence is not contiguous: expected '' @ nat_to_string expected @ '', got '' @ nat_to_string actual"

fun runtime_error_text :: "'s EventStore \<Rightarrow> (uuid \<Rightarrow> string) \<Rightarrow> RuntimeError \<Rightarrow> string" where
  "runtime_error_text S uuid_text (RuntimeError.Store e) = so_error_text S e"
| "runtime_error_text S uuid_text (Projection e) = projection_error_text uuid_text e"
| "runtime_error_text S uuid_text (RuntimeError.MissingSession i) = ''session `'' @ uuid_text i @ ''` does not exist''"
| "runtime_error_text S uuid_text (MissingApproval i) = ''approval `'' @ uuid_text i @ ''` does not exist''"
| "runtime_error_text S uuid_text (ApprovalNotPending i) = ''approval `'' @ uuid_text i @ ''` is not pending''"
| "runtime_error_text S uuid_text MissingIntentRevision =
     ''action needs a durable user intent revision before it can be approved''"
| "runtime_error_text S uuid_text (ApprovalResolverNotUser i) =
     ''approval `'' @ uuid_text i @ ''` must be resolved by a user''"
| "runtime_error_text S uuid_text (StaleApproval i) =
     ''approval `'' @ uuid_text i @ ''` is stale because its action or user intent changed''"
| "runtime_error_text S uuid_text (RuntimeError.Denied reason) = ''action denied by policy: '' @ reason"
| "runtime_error_text S uuid_text (InactiveRun i) = ''run `'' @ uuid_text i @ ''` is not active''"
| "runtime_error_text S uuid_text (ActiveRun i) = ''run `'' @ uuid_text i @ ''` is already active''"
| "runtime_error_text S uuid_text (InvalidWorkspace root) = ''workspace root `'' @ root @ ''` is not a directory''"

datatype OrchestratorError =
    Runtime RuntimeError
  | ToolNotFound string
  | InvalidArguments ToolArgError
  | ToolFailed string string
  | Denied string
  | ApprovalRequired

fun orchestrator_error_text :: "'s EventStore \<Rightarrow> (uuid \<Rightarrow> string) \<Rightarrow> OrchestratorError \<Rightarrow> string" where
  "orchestrator_error_text S uuid_text (OrchestratorError.Runtime e) = runtime_error_text S uuid_text e"
| "orchestrator_error_text S uuid_text (ToolNotFound name) = ''tool `'' @ name @ ''` not found''"
| "orchestrator_error_text S uuid_text (InvalidArguments e) = tool_arg_error_text e"
| "orchestrator_error_text S uuid_text (ToolFailed tool reason) = ''tool `'' @ tool @ ''` failed: '' @ reason"
| "orchestrator_error_text S uuid_text (OrchestratorError.Denied reason) = ''tool execution denied: '' @ reason"
| "orchestrator_error_text S uuid_text OrchestratorError.ApprovalRequired = ''tool execution requires approval''"

record SourceLocation =
  location_path :: string
  location_start :: "u32 \<times> u32"
  location_end :: "u32 \<times> u32"

record PositionQuery =
  query_path :: string
  query_line :: u32
  query_character :: u32

type_synonym 'w web_service = "ToolCall \<Rightarrow> artifact_writer \<Rightarrow> 'w \<Rightarrow> ToolObservation \<times> 'w"

type_synonym 'w coding_service = "PositionQuery \<Rightarrow> 'w \<Rightarrow> (string + SourceLocation list) \<times> 'w"

record 'w ToolOrchestrator =
  orch_workspace_root :: string
  orch_artifacts :: "string + artifact_writer"
  orch_web_research :: "'w web_service option"
  orch_mcp_live :: "'w McpLiveBridge option"
  orch_coding_tools :: "'w coding_service"
  orch_allowed_tools :: "string list option"

record 'u tool_env =
  env_context :: "'u seam_context"
  env_disk :: disk
  env_json_text :: "json \<Rightarrow> string"
  env_uuid_text :: "uuid \<Rightarrow> string"

text \<open>What one call draws: stamps for its events, the id of a new approval, and those of the fence.\<close>

record tool_draws =
  draw_stamp :: "nat \<Rightarrow> stamp"
  draw_approval_id :: uuid
  draw_fence :: fence_draws

section \<open>Arguments\<close>

definition summarize_arguments :: "'u tool_env \<Rightarrow> json \<Rightarrow> string" where
  "summarize_arguments E arguments = take_chars 1024 (redact_text (env_json_text E arguments))"

definition contains_sensitive_value :: "'u tool_env \<Rightarrow> json \<Rightarrow> bool" where
  "contains_sensitive_value E arguments =
     (let raw = env_json_text E arguments in redact_text raw \<noteq> raw)"

definition child_canonical_tool_name :: "string \<Rightarrow> string option" where
  "child_canonical_tool_name name =
     (let t = trim name in
      if t \<in> {''list'', ''list_files''} then Some ''list_files''
      else if t \<in> {''read'', ''read_file''} then Some ''read_file''
      else if t = ''search'' then Some ''search''
      else if t \<in> {''write'', ''write_file'', ''edit_file''} then Some ''write_file''
      else if t = ''web_search'' then Some ''web_search''
      else if t = ''web_fetch'' then Some ''web_fetch''
      else None)"

definition child_tool_allowed :: "string list \<Rightarrow> string \<Rightarrow> bool" where
  "child_tool_allowed names called =
     (case child_canonical_tool_name called of
        None \<Rightarrow> False
      | Some canonical \<Rightarrow>
          list_ex (\<lambda>entry. let t = trim entry in
            if t = ''web'' then canonical \<in> {''web_search'', ''web_fetch''}
            else child_canonical_tool_name t = Some canonical) names)"

definition role_tool_name :: "string \<Rightarrow> string" where
  "role_tool_name name =
     (if name = ''list'' then ''list_files'' else if name = ''read'' then ''read_file''
      else if name = ''search'' then ''search'' else if name = ''write'' then ''write_file''
      else if name = ''web'' then ''web_search'' else name)"

definition tool_action_kind :: "string \<Rightarrow> ActionKind option" where
  "tool_action_kind name =
     (if name \<in> {''list_files'', ''read_file'', ''search'', ''goto_definition''} then Some ReadFile
      else if name = ''web_search'' then Some WebSearch
      else if name = ''web_fetch'' then Some WebFetch
      else if name = ''web_download'' then Some WebDownload
      else if name = ''web_browser'' then Some WebBrowser
      else if name = ''web_submit'' then Some WebSubmit
      else if name = ''web_upload'' then Some WebUpload
      else if name \<in> {''write_file'', ''edit_file''} then Some WriteFile
      else if name \<in> {''bash'', ''shell'', ''exec''} then Some SpawnProcess
      else None)"

definition url_host :: "'u tool_env \<Rightarrow> string \<Rightarrow> string option" where
  "url_host E url =
     (case url_parse (context_url (env_context E)) url of
        Inl _ \<Rightarrow> None
      | Inr u \<Rightarrow> url_host_str (context_url (env_context E)) u)"

definition json_str :: "json \<Rightarrow> string \<Rightarrow> string option" where
  "json_str v key = Option.bind (json_get v key) json_as_str"

definition normalize_tool_call :: "'u tool_env \<Rightarrow> 'w ToolOrchestrator \<Rightarrow> ToolCall \<Rightarrow> OrchestratorError + Action" where
  "normalize_tool_call E orch tc =
     (let name = call_name tc; arguments = call_arguments tc in
      if canonical_tool_name name = None then Inl (ToolNotFound name)
      else rbind (map_sum InvalidArguments id (validate_tool_arguments name arguments)) (\<lambda>_.
        rbind (ok_or (tool_action_kind name) (ToolNotFound name)) (\<lambda>kind.
          let target = Option.bind
                (case json_get arguments ''path'' of Some v \<Rightarrow> Some v | None \<Rightarrow> json_get arguments ''command'')
                json_as_str
          in Inr \<lparr>action_origin = ActionOrigin.Agent, action_kind = kind, action_summary = name @ '' via agent'',
              action_target =
                (if kind = SpawnProcess then Some (orch_workspace_root orch)
                 else if name = ''web_search'' then Some ''web-search:auto''
                 else if name \<in> {''web_fetch'', ''web_download'', ''web_browser'', ''web_submit'', ''web_upload''}
                 then Option.bind (json_str arguments ''url'') (url_host E)
                 else target)\<rparr>)))"

section \<open>Observations\<close>

definition record_observation ::
    "'s EventStore \<Rightarrow> AgentRuntime \<Rightarrow> tool_draws \<Rightarrow> ToolCall \<Rightarrow> string \<Rightarrow> ToolEventOutcome \<Rightarrow> string
     \<Rightarrow> DurableArtifactRef option \<Rightarrow> string option \<Rightarrow> 's \<Rightarrow> ToolObservation \<times> 's" where
  "record_observation S rt D tc summary result preview artifact error s =
     (let s1 = snd (record_tool_started S rt (draw_stamp D 0) (call_name tc) (Some (call_id tc)) s);
          s2 = (if preview \<noteq> []
                then snd (record_tool_output S rt (draw_stamp D 1) (call_id tc) (call_name tc) preview s1) else s1);
          s3 = snd (runtime_record S rt (draw_stamp D 2)
                 (Tool (ToolEvent.Observed (call_id tc) (call_name tc) summary result preview artifact error)) s2);
          finish = (case error of
                      Some e \<Rightarrow> if e \<noteq> [] then e else outcome_debug result
                    | None \<Rightarrow> outcome_debug result);
          s4 = snd (record_tool_finished S rt (draw_stamp D 3) (call_name tc) finish (Some (call_id tc)) s3)
      in (\<lparr>obs_tool_call_id = call_id tc, obs_tool_name = call_name tc, obs_arguments_summary = summary,
           obs_outcome = result, obs_preview = preview, obs_artifact = artifact, obs_error = error\<rparr>, s4))"

text \<open>An observation without output, and the world as it is.\<close>

definition refuse ::
    "'s EventStore \<Rightarrow> AgentRuntime \<Rightarrow> tool_draws \<Rightarrow> ToolCall \<Rightarrow> string \<Rightarrow> ToolEventOutcome \<Rightarrow> string \<Rightarrow> 's \<Rightarrow> 'w
     \<Rightarrow> ToolObservation \<times> 's \<times> 'w" where
  "refuse S rt D tc summary result error s w =
     (case record_observation S rt D tc summary result [] None (Some error) s of (obs, s') \<Rightarrow> (obs, s', w))"

text \<open>The request of the last approval in the log, and the recording of the call it waits for.\<close>

definition requested_id :: "Event \<Rightarrow> uuid option" where
  "requested_id e = (case payload e of Approval (Requested r) \<Rightarrow> Some (request_id r) | _ \<Rightarrow> None)"

definition defer_to_last_approval ::
    "'s EventStore \<Rightarrow> AgentRuntime \<Rightarrow> tool_draws \<Rightarrow> ToolCall \<Rightarrow> 's \<Rightarrow> 's" where
  "defer_to_last_approval S rt D tc s =
     (case runtime_events S rt s of
        Inl _ \<Rightarrow> s
      | Inr events \<Rightarrow>
          (case find_map requested_id (rev events) of
             None \<Rightarrow> s
           | Some i \<Rightarrow>
               snd (record_deferred_tool S rt (draw_stamp D 4) i (call_id tc) (call_name tc) (call_arguments tc) s)))"

section \<open>Executing a call\<close>

text \<open>The seam of the session decides an effect before a service is called.\<close>

definition seam_gate ::
    "'u tool_env \<Rightarrow> 's EventStore \<Rightarrow> AgentRuntime \<Rightarrow> tool_draws \<Rightarrow> ToolCall \<Rightarrow> string \<Rightarrow> NormalizedEffect \<Rightarrow> 's \<Rightarrow> 'w
     \<Rightarrow> (ToolObservation \<times> 's \<times> 'w) \<Rightarrow> ToolObservation \<times> 's \<times> 'w" where
  "seam_gate E S rt D tc summary effect s w admitted =
     (case effect_seam S rt s of
        Inl e \<Rightarrow> refuse S rt D tc summary ToolEventOutcome.Error (runtime_error_text S (env_uuid_text E) e) s w
      | Inr seam \<Rightarrow>
          (case decide (env_context E) seam effect of
             EffectDecision.Allow \<Rightarrow> admitted
           | EffectDecision.NeedsApproval reason \<Rightarrow>
               refuse S rt D tc summary ToolEventOutcome.ApprovalRequired reason s w
           | EffectDecision.Deny reason \<Rightarrow> refuse S rt D tc summary ToolEventOutcome.Denied reason s w))"

definition is_mutating :: "ExecutionSemantics \<Rightarrow> bool" where
  "is_mutating semantics \<longleftrightarrow> semantics \<in> {Mutating, NonReplayable}"

definition mcp_effect :: "'w ToolOrchestrator \<Rightarrow> McpLiveToolEntry \<Rightarrow> NormalizedEffect" where
  "mcp_effect orch entry =
     (if is_mutating (entry_semantics entry) then process_spawn else workspace_read)
       ActionOrigin.Agent (entry_catalog_name entry @ '' via mcp'') (orch_workspace_root orch)"

definition mcp_finish ::
    "'s EventStore \<Rightarrow> AgentRuntime \<Rightarrow> tool_draws \<Rightarrow> ToolCall \<Rightarrow> string \<Rightarrow> EffectInvocationIdentity option
     \<Rightarrow> McpLiveCallResult \<Rightarrow> 's \<Rightarrow> 'w \<Rightarrow> ToolObservation \<times> 's \<times> 'w" where
  "mcp_finish S rt D tc summary identity result s w =
     (let sid = runtime_session_id rt; t = draw_finished (draw_fence D) in
      case result of
        McpLiveCallResult.Ok preview \<Rightarrow>
          (let s' = (case identity of None \<Rightarrow> s | Some i \<Rightarrow> snd (observe S sid t i ''mcp ok'' s));
               (obs, s'') = record_observation S rt D tc summary ToolEventOutcome.Success preview None None s'
           in (obs, s'', w))
      | McpLiveCallResult.Failed m \<Rightarrow>
          (let s' = (case identity of None \<Rightarrow> s | Some i \<Rightarrow> snd (mark_failed S sid t i m s))
           in refuse S rt D tc summary ToolEventOutcome.Error m s' w)
      | McpLiveCallResult.Unknown m \<Rightarrow>
          (let s' = (case identity of None \<Rightarrow> s | Some i \<Rightarrow> snd (mark_unknown S sid t i m s))
           in refuse S rt D tc summary ToolEventOutcome.Error m s' w))"

definition execute_mcp_tool ::
    "'u tool_env \<Rightarrow> 's EventStore \<Rightarrow> 'w ToolOrchestrator \<Rightarrow> AgentRuntime \<Rightarrow> tool_draws \<Rightarrow> ToolCall \<Rightarrow> 's \<Rightarrow> 'w
     \<Rightarrow> ToolObservation \<times> 's \<times> 'w" where
  "execute_mcp_tool E S orch rt D tc s w =
     (let summary = summarize_arguments E (call_arguments tc) in
      case orch_mcp_live orch of
        None \<Rightarrow> refuse S rt D tc summary ToolEventOutcome.Error ''MCP live bridge is unavailable'' s w
      | Some bridge \<Rightarrow>
          (case bridge_validate_arguments bridge (call_name tc) (call_arguments tc) of
             Inl e \<Rightarrow> refuse S rt D tc summary ToolEventOutcome.Error (tool_arg_error_text e) s w
           | Inr entry \<Rightarrow>
               (let mutating = is_mutating (entry_semantics entry); effect = mcp_effect orch entry in
                if mutating \<and> contains_sensitive_value E (call_arguments tc)
                then refuse S rt D tc summary ToolEventOutcome.Denied
                       ''mutating MCP tool arguments contain sensitive material'' s w
                else seam_gate E S rt D tc summary effect s w
                  (if mutating
                   then (case prepare_fence_for_allowed (context_externals (env_context E)) S
                                (runtime_session_id rt) (draw_fence D) effect s of
                           (Inl reason, s1) \<Rightarrow> refuse S rt D tc summary ToolEventOutcome.Denied reason s1 w
                         | (Inr identity, s1) \<Rightarrow>
                             (case bridge_call bridge (call_name tc) (call_arguments tc) w of
                                (result, w') \<Rightarrow> mcp_finish S rt D tc summary (Some identity) result s1 w'))
                   else (case bridge_call bridge (call_name tc) (call_arguments tc) w of
                           (result, w') \<Rightarrow> mcp_finish S rt D tc summary None result s w')))))"

definition execute_read_only ::
    "'u tool_env \<Rightarrow> 's EventStore \<Rightarrow> 'w ToolOrchestrator \<Rightarrow> AgentRuntime \<Rightarrow> ToolCall \<Rightarrow> 's
     \<Rightarrow> OrchestratorError + ToolOutcome" where
  "execute_read_only E S orch rt tc s =
     (let target = unwrap_or (json_str (call_arguments tc) ''path'') ''.'' in
      rbind (if call_name tc = ''list_files'' then Inr (ReadOnlyTool.List target)
             else if call_name tc = ''read_file'' then Inr (ReadOnlyTool.Read target)
             else if call_name tc = ''search''
             then Inr (ReadOnlyTool.Search target (unwrap_or (json_str (call_arguments tc) ''pattern'') []))
             else Inl (ToolNotFound (call_name tc)))
        (\<lambda>tool.
           rbind (map_sum (ToolFailed (call_name tc)) id (orch_artifacts orch)) (\<lambda>store.
             rbind (map_sum OrchestratorError.Runtime id (effect_seam S rt s)) (\<lambda>seam.
               map_sum (\<lambda>e. ToolFailed (call_name tc) (tool_error_text e)) id
                 (run_with_seam (env_context E) (env_disk E) store (orch_workspace_root orch) tool
                    ActionOrigin.Agent seam)))))"

definition position_text :: "SourceLocation \<Rightarrow> string" where
  "position_text loc =
     location_path loc @ '':'' @ nat_to_string (unat (fst (location_start loc))) @ '':''
     @ nat_to_string (unat (snd (location_start loc))) @ ''-'' @ nat_to_string (unat (fst (location_end loc)))
     @ '':'' @ nat_to_string (unat (snd (location_end loc)))"

definition position_query :: "json \<Rightarrow> PositionQuery" where
  "position_query arguments =
     \<lparr>query_path = unwrap_or (json_str arguments ''path'') ''.'',
      query_line = of_nat (unwrap_or (Option.bind (json_get arguments ''line'') json_as_u64) 0),
      query_character = of_nat (unwrap_or (Option.bind (json_get arguments ''character'') json_as_u64) 0)\<rparr>"

definition execute_goto_definition ::
    "'u tool_env \<Rightarrow> 's EventStore \<Rightarrow> 'w ToolOrchestrator \<Rightarrow> AgentRuntime \<Rightarrow> tool_draws \<Rightarrow> ToolCall \<Rightarrow> string \<Rightarrow> 's \<Rightarrow> 'w
     \<Rightarrow> ToolObservation \<times> 's \<times> 'w" where
  "execute_goto_definition E S orch rt D tc summary s w =
     (let query = position_query (call_arguments tc) in
      seam_gate E S rt D tc summary
        (workspace_read ActionOrigin.Agent ''goto_definition via agent'' (query_path query)) s w
        (case orch_coding_tools orch query w of
           (Inr locations, w') \<Rightarrow>
             (case record_observation S rt D tc summary ToolEventOutcome.Success
                     (if locations = [] then ''goto_definition: no locations''
                      else str_join [newline] (map position_text locations)) None None s of
                (obs, s') \<Rightarrow> (obs, s', w'))
         | (Inl error, w') \<Rightarrow> refuse S rt D tc summary ToolEventOutcome.Error error s w'))"

definition execute_web_tool ::
    "'u tool_env \<Rightarrow> 's EventStore \<Rightarrow> 'w ToolOrchestrator \<Rightarrow> AgentRuntime \<Rightarrow> tool_draws \<Rightarrow> ToolCall \<Rightarrow> string \<Rightarrow> 's \<Rightarrow> 'w
     \<Rightarrow> ToolObservation \<times> 's \<times> 'w" where
  "execute_web_tool E S orch rt D tc summary s w =
     (case normalize_tool_call E orch tc of
        Inl e \<Rightarrow>
          refuse S rt D tc summary ToolEventOutcome.Error (orchestrator_error_text S (env_uuid_text E) e) s w
      | Inr action \<Rightarrow>
          seam_gate E S rt D tc summary
            (network_connect ActionOrigin.Agent (action_summary action)
               (unwrap_or (action_target action) ''web:invalid-target'')) s w
            (case orch_web_research orch of
               None \<Rightarrow> refuse S rt D tc summary ToolEventOutcome.Error ''web research service is unavailable'' s w
             | Some service \<Rightarrow>
                 (case orch_artifacts orch of
                    Inl e \<Rightarrow> refuse S rt D tc summary ToolEventOutcome.Error (''cannot open artifact store: '' @ e) s w
                  | Inr artifacts \<Rightarrow>
                      (case service tc artifacts w of
                         (o', w') \<Rightarrow>
                           (case record_observation S rt D tc (obs_arguments_summary o') (obs_outcome o')
                                   (obs_preview o') (obs_artifact o') (obs_error o') s of
                              (obs, s') \<Rightarrow> (obs, s', w'))))))"

definition emit_read_search_activity ::
    "'s EventStore \<Rightarrow> AgentRuntime \<Rightarrow> tool_draws \<Rightarrow> ToolCall \<Rightarrow> string \<Rightarrow> 's \<Rightarrow> 's" where
  "emit_read_search_activity S rt D tc preview s =
     (let shown = bound_activity_preview preview in
      if call_name tc = ''read_file''
      then snd (runtime_record S rt (draw_stamp D 5)
             (Tool (FileRead (call_id tc) (unwrap_or (json_str (call_arguments tc) ''path'') ''.'')
                      (length shown) shown)) s)
      else if call_name tc = ''search''
      then snd (runtime_record S rt (draw_stamp D 5)
             (Tool (SearchResult (call_id tc)
                (length (filter (\<lambda>line. trim line \<noteq> [] \<and> \<not> starts_with line ''...'') (str_lines shown))) shown)) s)
      else s)"

definition read_search_tool ::
    "'u tool_env \<Rightarrow> 's EventStore \<Rightarrow> 'w ToolOrchestrator \<Rightarrow> AgentRuntime \<Rightarrow> tool_draws \<Rightarrow> ToolCall \<Rightarrow> string \<Rightarrow> 's \<Rightarrow> 'w
     \<Rightarrow> ToolObservation \<times> 's \<times> 'w" where
  "read_search_tool E S orch rt D tc summary s w =
     (let s1 = (if call_name tc = ''search''
                then snd (runtime_record S rt (draw_stamp D 4)
                       (Tool (SearchStarted (call_id tc) (unwrap_or (json_str (call_arguments tc) ''pattern'') [])
                          (unwrap_or (json_str (call_arguments tc) ''path'') ''.''))) s)
                else s)
      in case execute_read_only E S orch rt tc s1 of
           Inr (Allowed result) \<Rightarrow>
             (case record_observation S rt D tc summary ToolEventOutcome.Success (result_preview result)
                     (result_artifact result) None
                     (emit_read_search_activity S rt D tc (result_preview result) s1) of
                (obs, s') \<Rightarrow> (obs, s', w))
         | Inr (ToolOutcome.Denied reason _) \<Rightarrow> refuse S rt D tc summary ToolEventOutcome.Denied reason s1 w
         | Inl e \<Rightarrow>
             refuse S rt D tc summary ToolEventOutcome.Error (orchestrator_error_text S (env_uuid_text E) e) s1 w)"

definition outbound_web_kinds :: "ActionKind set" where
  "outbound_web_kinds = {WebDownload, WebBrowser, WebSubmit, WebUpload}"

definition request_mutating_tool ::
    "'u tool_env \<Rightarrow> 's EventStore \<Rightarrow> AgentRuntime \<Rightarrow> tool_draws \<Rightarrow> ToolCall \<Rightarrow> string \<Rightarrow> Action \<Rightarrow> 's \<Rightarrow> 'w
     \<Rightarrow> ToolObservation \<times> 's \<times> 'w" where
  "request_mutating_tool E S rt D tc summary action s w =
     (if contains_sensitive_value E (call_arguments tc)
      then refuse S rt D tc summary ToolEventOutcome.Denied ''mutating tool arguments contain sensitive material'' s w
      else (case request_action_with_capability_version (env_context E) S rt (draw_stamp D 5) (draw_approval_id D)
                   action (Some 1) s of
              (Inr granted, s1) \<Rightarrow>
                if granted = Idle \<and> action_kind action \<in> outbound_web_kinds
                then refuse S rt D tc summary ToolEventOutcome.Error
                       ''outbound web tool is not available in this build'' s1 w
                else refuse S rt D tc summary ToolEventOutcome.ApprovalRequired ''awaiting user approval''
                       (defer_to_last_approval S rt D tc s1) w
            | (Inl (RuntimeError.Denied _), s1) \<Rightarrow>
                refuse S rt D tc summary ToolEventOutcome.Denied ''awaiting user approval'' s1 w
            | (Inl _, s1) \<Rightarrow>
                refuse S rt D tc summary ToolEventOutcome.Error ''awaiting user approval'' s1 w))"

definition request_web_tool ::
    "'u tool_env \<Rightarrow> 's EventStore \<Rightarrow> 'w ToolOrchestrator \<Rightarrow> AgentRuntime \<Rightarrow> tool_draws \<Rightarrow> ToolCall \<Rightarrow> string \<Rightarrow> Action
     \<Rightarrow> 's \<Rightarrow> 'w \<Rightarrow> ToolObservation \<times> 's \<times> 'w" where
  "request_web_tool E S orch rt D tc summary action s w =
     (case request_action_with_capability_version (env_context E) S rt (draw_stamp D 5) (draw_approval_id D)
             action (Some 1) s of
        (Inr RuntimeStatus.AwaitingApproval, s1) \<Rightarrow>
          refuse S rt D tc summary ToolEventOutcome.ApprovalRequired ''awaiting user approval''
            (defer_to_last_approval S rt D tc s1) w
      | (Inr _, s1) \<Rightarrow> execute_web_tool E S orch rt D tc summary s1 w
      | (Inl (RuntimeError.Denied reason), s1) \<Rightarrow> refuse S rt D tc summary ToolEventOutcome.Denied reason s1 w
      | (Inl e, s1) \<Rightarrow>
          refuse S rt D tc summary ToolEventOutcome.Error (runtime_error_text S (env_uuid_text E) e) s1 w)"

definition mutating_kinds :: "ActionKind set" where
  "mutating_kinds = {WriteFile, SpawnProcess} \<union> outbound_web_kinds"

definition dispatch_tool ::
    "'u tool_env \<Rightarrow> 's EventStore \<Rightarrow> 'w ToolOrchestrator \<Rightarrow> AgentRuntime \<Rightarrow> tool_draws \<Rightarrow> ToolCall \<Rightarrow> 's \<Rightarrow> 'w
     \<Rightarrow> ToolObservation \<times> 's \<times> 'w" where
  "dispatch_tool E S orch rt D tc s w =
     (if is_some_and (orch_mcp_live orch) (\<lambda>bridge. bridge_tools bridge (call_name tc) \<noteq> None)
      then execute_mcp_tool E S orch rt D tc s w
      else
        (let summary = summarize_arguments E (call_arguments tc) in
         case normalize_tool_call E orch tc of
           Inl e \<Rightarrow>
             refuse S rt D tc summary ToolEventOutcome.Error (orchestrator_error_text S (env_uuid_text E) e) s w
         | Inr action \<Rightarrow>
             if action_kind action \<in> mutating_kinds then request_mutating_tool E S rt D tc summary action s w
             else if call_name tc \<in> {''web_search'', ''web_fetch''}
             then request_web_tool E S orch rt D tc summary action s w
             else if call_name tc = ''goto_definition'' then execute_goto_definition E S orch rt D tc summary s w
             else read_search_tool E S orch rt D tc summary s w))"

definition process_single_tool ::
    "'u tool_env \<Rightarrow> 's EventStore \<Rightarrow> 'w ToolOrchestrator \<Rightarrow> AgentRuntime \<Rightarrow> tool_draws \<Rightarrow> ToolCall \<Rightarrow> 's \<Rightarrow> 'w
     \<Rightarrow> ToolObservation \<times> 's \<times> 'w" where
  "process_single_tool E S orch rt D tc s w =
     (case orch_allowed_tools orch of
        None \<Rightarrow> dispatch_tool E S orch rt D tc s w
      | Some names \<Rightarrow>
          if \<not> child_tool_allowed names (call_name tc)
          then refuse S rt D tc (summarize_arguments E (call_arguments tc)) ToolEventOutcome.Denied
                 (''tool `'' @ call_name tc @ ''` not in tool allowlist'') s w
          else dispatch_tool E S orch rt D (tc\<lparr>call_name := role_tool_name (call_name tc)\<rparr>) s w)"

section \<open>A batch of calls\<close>

definition parallelizable :: "'u tool_env \<Rightarrow> 'w ToolOrchestrator \<Rightarrow> ToolCall \<Rightarrow> bool" where
  "parallelizable E orch tc =
     (case Option.bind (orch_mcp_live orch) (\<lambda>bridge. bridge_tools bridge (call_name tc)) of
        Some entry \<Rightarrow> entry_semantics entry \<in> {ReadOnly, Idempotent}
      | None \<Rightarrow>
          (case normalize_tool_call E orch tc of
             Inl _ \<Rightarrow> False
           | Inr action \<Rightarrow> can_parallelize (action_kind action)))"

fun process_sequential ::
    "('t \<Rightarrow> ToolCall \<Rightarrow> 's \<Rightarrow> 'w \<Rightarrow> ToolObservation \<times> 's \<times> 'w) \<Rightarrow> ('t \<times> ToolCall) list \<Rightarrow> 's \<Rightarrow> 'w
     \<Rightarrow> ToolObservation list \<times> 's \<times> 'w" where
  "process_sequential f [] s w = ([], s, w)"
| "process_sequential f ((t, tc) # calls) s w =
     (case f t tc s w of (obs, s1, w1) \<Rightarrow>
        (case process_sequential f calls s1 w1 of (rest, s2, w2) \<Rightarrow> (obs # rest, s2, w2)))"

text \<open>
  \<open>process_tool_calls\<close>. The parallel calls run as tasks of their own; \<open>spawn\<close> runs them in some
  interleaving and gives the observations in the order of the calls, \<open>None\<close> for a task that panicked.
\<close>

definition process_tool_calls ::
    "((tool_draws \<times> ToolCall) list \<Rightarrow> 's \<Rightarrow> 'w \<Rightarrow> ToolObservation option list \<times> 's \<times> 'w)
     \<Rightarrow> 'u tool_env \<Rightarrow> 's EventStore \<Rightarrow> 'w ToolOrchestrator \<Rightarrow> AgentRuntime \<Rightarrow> (tool_draws \<times> ToolCall) list \<Rightarrow> 's \<Rightarrow> 'w
     \<Rightarrow> ToolObservation list \<times> 's \<times> 'w" where
  "process_tool_calls spawn E S orch rt calls s w =
     (let (parallel_calls, sequential_calls) = partition (\<lambda>(_, tc). parallelizable E orch tc) calls;
          (first, s1, w1) = (if parallel_calls = [] then ([], s, w) else spawn parallel_calls s w);
          (rest, s2, w2) = process_sequential (process_single_tool E S orch rt) sequential_calls s1 w1
      in (List.map_filter id first @ rest, s2, w2))"

section \<open>Approved calls\<close>

text \<open>A deferred call is its id, its tool and its arguments.\<close>

type_synonym deferred_call = "string \<times> string \<times> json"

definition deferred_tool_call :: "deferred_call \<Rightarrow> ToolCall" where
  "deferred_tool_call c = (case c of (i, name, arguments) \<Rightarrow> \<lparr>call_id = i, call_name = name, call_arguments = arguments\<rparr>)"

definition record_approval_rejection ::
    "'u tool_env \<Rightarrow> 's EventStore \<Rightarrow> AgentRuntime \<Rightarrow> tool_draws \<Rightarrow> deferred_call \<Rightarrow> 's \<Rightarrow> ToolObservation \<times> 's" where
  "record_approval_rejection E S rt D c s =
     record_observation S rt D (deferred_tool_call c) (summarize_arguments E (snd (snd c)))
       ToolEventOutcome.Denied [] None (Some ''user rejected approval'') s"

definition execute_approved_write ::
    "'u tool_env \<Rightarrow> 's EventStore \<Rightarrow> (string \<Rightarrow> string \<Rightarrow> 'w \<Rightarrow> (string + unit) \<times> 'w) \<Rightarrow> AgentRuntime \<Rightarrow> tool_draws
     \<Rightarrow> ApprovalRequest \<Rightarrow> ApprovalResolution \<Rightarrow> deferred_call \<Rightarrow> 's \<Rightarrow> 'w
     \<Rightarrow> (OrchestratorError + ToolObservation) \<times> 's \<times> 'w" where
  "execute_approved_write E S fs_write rt D approval resolution deferred s w =
     (let tc = deferred_tool_call deferred; name = call_name tc; arguments = call_arguments tc in
      if name \<notin> {''write_file'', ''edit_file''} then (Inl (ToolNotFound name), s, w)
      else
        (case rbind (map_sum InvalidArguments id (validate_tool_arguments name arguments)) (\<lambda>_.
                rbind (ok_or (json_str arguments ''path'') (ToolFailed name ''write tool requires path'')) (\<lambda>path.
                  rbind (ok_or (json_str arguments ''content'') (ToolFailed name ''write tool requires content''))
                    (\<lambda>content. Inr (path, content)))) of
           Inl e \<Rightarrow> (Inl e, s, w)
         | Inr (path, content) \<Rightarrow>
             (let effect = workspace_write ActionOrigin.Agent (name @ '' via agent'') path in
              if effect_action effect \<noteq> request_action approval
              then (Inl (OrchestratorError.Denied ''deferred action no longer matches approval''), s, w)
              else (case effect_seam S rt s of
                Inl e \<Rightarrow> (Inl (OrchestratorError.Runtime e), s, w)
              | Inr seam \<Rightarrow>
                  (case execute_after_approval_with_fence (env_context E) seam
                          \<lparr>deferred_effect = effect, deferred_approval = approval\<rparr> resolution
                          (request_intent_revision approval) S (runtime_session_id rt) (draw_fence D)
                          (\<lambda>s w. case write_file_in_scope (env_disk E) fs_write (runtime_workspace_root rt) path content w of
                                   (r, w') \<Rightarrow> (r, s, w')) s w of
                     (Inl e, s1, w1) \<Rightarrow> (Inl (ToolFailed name (tool_error_text e)), s1, w1)
                   | (Inr execution, s1, w1) \<Rightarrow>
                       (let (result, preview, error) =
                          (case execution of
                             Executed _ \<Rightarrow> (ToolEventOutcome.Success, ''file written'', None)
                           | EffectExecution.Denied reason \<Rightarrow> (ToolEventOutcome.Denied, [], Some reason)
                           | EffectExecution.NeedsApproval reason \<Rightarrow> (ToolEventOutcome.ApprovalRequired, [], Some reason));
                          (obs, s2) = record_observation S rt D tc (summarize_arguments E arguments) result preview
                                        None error s1
                        in (Inr obs, s2, w1)))))))"

record ProcessExecutionRequest =
  process_command :: string
  process_args :: "string list"
  process_working_dir :: "string option"
  process_workspace_root :: "string option"
  process_allow_network :: bool
  process_origin :: ActionOrigin
  process_intent_revision :: nat

record ProcessOutput =
  output_exit_code :: "int option"
  output_stdout :: string
  output_stderr :: string
  output_truncated :: bool
  output_duration_ms :: u64
  output_artifact :: "DurableArtifactRef option"
  output_sandbox_decision :: "SandboxDecision option"

type_synonym 'w process_executor =
  "ProcessExecutionRequest \<Rightarrow> AdmittedOperation \<Rightarrow> artifact_writer \<Rightarrow> 'w \<Rightarrow> (string + ProcessOutput) \<times> 'w"

definition exit_debug :: "int option \<Rightarrow> string" where
  "exit_debug c = (case c of None \<Rightarrow> ''None'' | Some n \<Rightarrow> ''Some('' @ int_to_string n @ '')'')"

text \<open>What is recorded of a command when its execution has a result.\<close>

definition record_command_result ::
    "'s EventStore \<Rightarrow> AgentRuntime \<Rightarrow> tool_draws \<Rightarrow> string \<Rightarrow> ProcessOutput EffectExecution \<Rightarrow> 's
     \<Rightarrow> (ToolEventOutcome \<times> string \<times> DurableArtifactRef option \<times> string option) \<times> 's" where
  "record_command_result S rt D i execution s =
     (case execution of
        Executed out \<Rightarrow>
          (let s1 = (case output_sandbox_decision out of
                       None \<Rightarrow> s
                     | Some d \<Rightarrow> snd (runtime_record S rt (draw_stamp D 6) (EventPayload.Sandbox (sandbox_event_from_decision d)) s));
               preview = redact_text (''exit_code='' @ exit_debug (output_exit_code out) @ [newline] @ ''stdout:''
                 @ [newline] @ output_stdout out @ [newline] @ ''stderr:'' @ [newline] @ output_stderr out);
               s2 = snd (runtime_record S rt (draw_stamp D 7)
                      (Command (CommandEvent.Output i (bound_activity_preview preview))) s1);
               s3 = snd (runtime_record S rt (draw_stamp D 8)
                      (Command (CommandEvent.Finished i (output_exit_code out)
                         (Some (''exit '' @ exit_debug (output_exit_code out))))) s2)
           in ((ToolEventOutcome.Success, preview, output_artifact out, None), s3))
      | EffectExecution.Denied reason \<Rightarrow>
          ((ToolEventOutcome.Denied, [], None, Some reason),
           snd (runtime_record S rt (draw_stamp D 8) (Command (CommandEvent.Finished i None (Some reason))) s))
      | EffectExecution.NeedsApproval reason \<Rightarrow>
          ((ToolEventOutcome.ApprovalRequired, [], None, Some reason),
           snd (runtime_record S rt (draw_stamp D 8) (Command (CommandEvent.Finished i None (Some reason))) s)))"

definition execute_approved_bash_with_artifacts ::
    "'u tool_env \<Rightarrow> 's EventStore \<Rightarrow> 'w process_executor \<Rightarrow> (string + artifact_writer) \<Rightarrow> AgentRuntime \<Rightarrow> tool_draws
     \<Rightarrow> ApprovalRequest \<Rightarrow> ApprovalResolution \<Rightarrow> deferred_call \<Rightarrow> 's \<Rightarrow> 'w
     \<Rightarrow> (OrchestratorError + ToolObservation) \<times> 's \<times> 'w" where
  "execute_approved_bash_with_artifacts E S execute artifacts rt D approval resolution deferred s w =
     (let tc = deferred_tool_call deferred; name = call_name tc; arguments = call_arguments tc;
          workspace = runtime_workspace_root rt;
          effect = process_spawn ActionOrigin.Agent (name @ '' via agent'') workspace in
      if name \<notin> {''bash'', ''shell'', ''exec''} then (Inl (ToolNotFound name), s, w)
      else
        (case rbind (map_sum InvalidArguments id (validate_tool_arguments name arguments)) (\<lambda>_.
                rbind (ok_or (Option.bind (json_str arguments ''command'') (\<lambda>c. if trim c = [] then None else Some c))
                         (ToolFailed name ''shell tool requires command'')) (\<lambda>command.
                  if effect_action effect \<noteq> request_action approval
                  then Inl (OrchestratorError.Denied ''deferred action no longer matches approval'')
                  else rbind (map_sum (ToolFailed name) id artifacts) (\<lambda>store. Inr (command, store)))) of
           Inl e \<Rightarrow> (Inl e, s, w)
         | Inr (command, store) \<Rightarrow>
             (let process =
                \<lparr>process_command = ''/bin/sh'', process_args = [''-lc'', command],
                 process_working_dir = Some workspace, process_workspace_root = Some workspace,
                 process_allow_network = allow_network (engine_scope (runtime_policy rt)),
                 process_origin = ActionOrigin.Agent,
                 process_intent_revision = request_intent_revision approval\<rparr>;
                s0 = snd (runtime_record S rt (draw_stamp D 5) (Command (CommandEvent.Started (call_id tc) command)) s)
              in case effect_seam S rt s0 of
                   Inl e \<Rightarrow> (Inl (OrchestratorError.Runtime e), s0, w)
                 | Inr seam \<Rightarrow>
                     (case execute_after_approval_with_admission_and_fence (env_context E) seam
                             \<lparr>deferred_effect = effect, deferred_approval = approval\<rparr> resolution
                             (request_intent_revision approval) S (runtime_session_id rt) (draw_fence D)
                             (\<lambda>admission s w. case execute process admission store w of (r, w') \<Rightarrow> (r, s, w')) s0 w of
                        (Inl e, s1, w1) \<Rightarrow> (Inl (ToolFailed name e), s1, w1)
                      | (Inr execution, s1, w1) \<Rightarrow>
                          (let ((result, preview, artifact, error), s2) = record_command_result S rt D (call_id tc) execution s1;
                               (obs, s3) = record_observation S rt D tc (summarize_arguments E arguments) result preview
                                             artifact error s2
                           in (Inr obs, s3, w1))))))"

section \<open>The log of a call\<close>

definition is_observed :: "EventPayload \<Rightarrow> bool" where
  "is_observed p \<longleftrightarrow> (case p of Tool (ToolEvent.Observed _ _ _ _ _ _ _) \<Rightarrow> True | _ \<Rightarrow> False)"

definition observed_payload :: "ToolObservation \<Rightarrow> EventPayload" where
  "observed_payload obs =
     Tool (ToolEvent.Observed (obs_tool_call_id obs) (obs_tool_name obs) (obs_arguments_summary obs)
       (obs_outcome obs) (obs_preview obs) (obs_artifact obs) (obs_error obs))"

text \<open>A step that appends no observation, and one that appends exactly one.\<close>

definition usable :: "MemoryEventStore \<Rightarrow> bool" where
  "usable s \<longleftrightarrow> store_wf s \<and> store_healthy s"

definition quiet :: "uuid \<Rightarrow> MemoryEventStore \<Rightarrow> MemoryEventStore \<Rightarrow> bool" where
  "quiet sid s s' \<longleftrightarrow> (usable s \<longrightarrow> usable s' \<and>
     (\<exists>new. visible s' sid = visible s sid @ new \<and> list_all (\<lambda>e. \<not> is_observed (payload e)) new))"

definition observed_once :: "uuid \<Rightarrow> MemoryEventStore \<Rightarrow> ToolObservation \<Rightarrow> MemoryEventStore \<Rightarrow> bool" where
  "observed_once sid s obs s' \<longleftrightarrow> (usable s \<longrightarrow> usable s' \<and>
     (\<exists>before e after. visible s' sid = visible s sid @ before @ e # after \<and> payload e = observed_payload obs
        \<and> list_all (\<lambda>e. \<not> is_observed (payload e)) (before @ after)))"

named_theorems quiet_intros

lemma quiet_refl [quiet_intros, simp]: "quiet sid s s"
  by (simp add: quiet_def)

lemma quiet_trans: "quiet sid s s1 \<Longrightarrow> quiet sid s1 s2 \<Longrightarrow> quiet sid s s2"
  unfolding quiet_def by (metis append.assoc list_all_append)

lemma observed_onceI:
  assumes "usable s \<Longrightarrow> usable s' \<and> visible s' sid = visible s sid @ before @ e # after
      \<and> payload e = observed_payload obs \<and> list_all (\<lambda>e. \<not> is_observed (payload e)) (before @ after)"
  shows "observed_once sid s obs s'"
  unfolding observed_once_def using assms by blast

lemma once_after_quiet:
  assumes "quiet sid s s1" "observed_once sid s1 obs s2"
  shows "observed_once sid s obs s2"
proof (cases "usable s")
  case True
  then obtain new where new: "usable s1" "visible s1 sid = visible s sid @ new"
      "list_all (\<lambda>e. \<not> is_observed (payload e)) new" using assms(1) by (auto simp: quiet_def)
  then obtain before e after where "usable s2" "visible s2 sid = visible s1 sid @ before @ e # after"
      "payload e = observed_payload obs" "list_all (\<lambda>e. \<not> is_observed (payload e)) (before @ after)"
    using assms(2) by (auto simp: observed_once_def)
  then show ?thesis using new by (intro observed_onceI [where before = "new @ before"]) auto
qed (simp add: observed_once_def)

lemma quiet_after_once:
  assumes "observed_once sid s obs s1" "quiet sid s1 s2"
  shows "observed_once sid s obs s2"
proof (cases "usable s")
  case True
  then obtain before e after where once: "usable s1" "visible s1 sid = visible s sid @ before @ e # after"
      "payload e = observed_payload obs" "list_all (\<lambda>e. \<not> is_observed (payload e)) (before @ after)"
    using assms(1) by (auto simp: observed_once_def)
  then obtain new where "usable s2" "visible s2 sid = visible s1 sid @ new"
      "list_all (\<lambda>e. \<not> is_observed (payload e)) new" using assms(2) by (auto simp: quiet_def)
  then show ?thesis using once by (intro observed_onceI [where after = "after @ new"]) auto
qed (simp add: observed_once_def)

lemma append_usable:
  assumes "usable s" "memory_append_next s t sid p = (r, s')"
  shows "\<exists>e. r = Inr e \<and> payload e = p \<and> usable s' \<and> visible s' sid = visible s sid @ [e]"
  using memory_append_ok [of s t sid p] assms by (auto simp: usable_def)

lemma append_quiet:
  "\<not> is_observed p \<Longrightarrow> quiet sid s (snd (memory_append_next s t sid p))"
  using append_usable [of s t sid p "fst (memory_append_next s t sid p)" "snd (memory_append_next s t sid p)"]
  by (auto simp: quiet_def)

lemma record_snd: "snd (runtime_record (memory_ops err) rt t p s) = snd (memory_append_next s t (runtime_session_id rt) p)"
  by (auto simp: runtime_record_def sbind_def smap_err_def split: prod.split sum.split)

lemma record_quiet [quiet_intros]:
  "\<not> is_observed p \<Longrightarrow> quiet (runtime_session_id rt) s (snd (runtime_record (memory_ops err) rt t p s))"
  unfolding record_snd by (rule append_quiet)

definition the_event :: "stamp \<Rightarrow> AgentRuntime \<Rightarrow> MemoryEventStore \<Rightarrow> EventPayload \<Rightarrow> Event" where
  "the_event t rt s p = projr (fst (memory_append_next s t (runtime_session_id rt) p))"

lemma record_once:
  "payload_of = observed_payload obs \<Longrightarrow>
     observed_once (runtime_session_id rt) s obs (snd (runtime_record (memory_ops err) rt t payload_of s))"
proof (rule observed_onceI [where before = "[]" and after = "[]"])
  assume "payload_of = observed_payload obs" "usable s"
  then show "usable (snd (runtime_record (memory_ops err) rt t payload_of s)) \<and>
      visible (snd (runtime_record (memory_ops err) rt t payload_of s)) (runtime_session_id rt) =
        visible s (runtime_session_id rt) @ [] @ [the_event t rt s payload_of]
    \<and> payload (the_event t rt s payload_of) = observed_payload obs
    \<and> list_all (\<lambda>e. \<not> is_observed (payload e)) ([] @ [])"
    using append_usable [of s t "runtime_session_id rt" payload_of
        "fst (memory_append_next s t (runtime_session_id rt) payload_of)"
        "snd (memory_append_next s t (runtime_session_id rt) payload_of)"]
    by (auto simp: record_snd the_event_def)
qed

lemma record_observation_once:
  assumes "record_observation (memory_ops err) rt D tc summary result preview artifact error s = (obs, s')"
  shows "observed_once (runtime_session_id rt) s obs s'"
proof -
  let ?sid = "runtime_session_id rt" and ?S = "memory_ops err"
  define s1 where "s1 = snd (record_tool_started ?S rt (draw_stamp D 0) (call_name tc) (Some (call_id tc)) s)"
  define s2 where "s2 = (if preview \<noteq> []
    then snd (record_tool_output ?S rt (draw_stamp D 1) (call_id tc) (call_name tc) preview s1) else s1)"
  define s3 where "s3 = snd (runtime_record ?S rt (draw_stamp D 2)
    (Tool (ToolEvent.Observed (call_id tc) (call_name tc) summary result preview artifact error)) s2)"
  define finish where "finish = (case error of
      Some e \<Rightarrow> if e \<noteq> [] then e else outcome_debug result | None \<Rightarrow> outcome_debug result)"
  have run: "obs = \<lparr>obs_tool_call_id = call_id tc, obs_tool_name = call_name tc, obs_arguments_summary = summary,
           obs_outcome = result, obs_preview = preview, obs_artifact = artifact, obs_error = error\<rparr>"
      "s' = snd (record_tool_finished ?S rt (draw_stamp D 3) (call_name tc) finish (Some (call_id tc)) s3)"
    using assms unfolding record_observation_def Let_def s1_def [symmetric] s2_def [symmetric] s3_def [symmetric]
      finish_def [symmetric] by simp_all
  have "quiet ?sid s s1"
    unfolding s1_def record_tool_started_def by (rule record_quiet) (simp add: is_observed_def)
  moreover have "quiet ?sid s1 s2"
    unfolding s2_def record_tool_output_def Let_def by (simp add: record_quiet is_observed_def)
  moreover have "observed_once ?sid s2 obs s3"
    unfolding s3_def by (rule record_once) (simp add: run(1) observed_payload_def)
  moreover have "quiet ?sid s3 s'"
    unfolding run(2) record_tool_finished_def by (rule record_quiet) (simp add: is_observed_def)
  ultimately show ?thesis by (blast intro: quiet_trans once_after_quiet quiet_after_once)
qed

lemma refuse_once:
  "refuse (memory_ops err) rt D tc summary result error s w = (obs, s', w') \<Longrightarrow> observed_once (runtime_session_id rt) s obs s'"
  by (auto simp: refuse_def split: prod.splits dest: record_observation_once)

lemma refuse_world: "refuse S rt D tc summary result error s w = (obs, s', w') \<Longrightarrow> w' = w"
  by (auto simp: refuse_def split: prod.splits)

lemma ledger_quiet: "quiet sid s (snd (ledger_append (memory_ops err) sid t ev s))"
proof -
  have "snd (ledger_append (memory_ops err) sid t ev s) = snd (memory_append_next s t sid (EffectFence ev))"
    by (auto simp: ledger_append_def sbind_def smap_err_def split: prod.split sum.split)
  then show ?thesis using append_quiet [of "EffectFence ev" sid s t] by (simp add: is_observed_def)
qed

lemma snd_sbind_pure: "snd (sbind m (\<lambda>x s'. (f x, s'))) = snd m"
  by (auto simp: sbind_def split: prod.split sum.split)

lemma fence_marks_quiet [quiet_intros]:
  "quiet sid s (snd (observe (memory_ops err) sid t i x s))"
  "quiet sid s (snd (mark_failed (memory_ops err) sid t i x s))"
  "quiet sid s (snd (mark_unknown (memory_ops err) sid t i x s))"
  "quiet sid s (snd (mark_started (memory_ops err) sid t i s))"
  "quiet sid s (snd (ledger_prepare (memory_ops err) sid t i s))"
  unfolding observe_def mark_failed_def mark_unknown_def mark_started_def ledger_prepare_def Let_def snd_sbind_pure
  by (rule ledger_quiet)+

lemma quiet_sbind:
  assumes "quiet sid s (snd m)" "\<And>x s1. m = (Inr x, s1) \<Longrightarrow> quiet sid s1 (snd (f x s1))"
  shows "quiet sid s (snd (sbind m f))"
proof -
  obtain r s1 where m: "m = (r, s1)" by (rule prod.exhaust)
  then show ?thesis using assms by (cases r) (auto intro: quiet_trans)
qed

lemma fence_prepare_quiet:
  "quiet sid s (snd (fence_prepare X (memory_ops err) sid F effect s))"
  unfolding fence_prepare_def Let_def prepare_and_start_def
  by (auto split: sum.split FenceReplayDecision.split
      intro!: quiet_sbind quiet_intros simp: snd_sbind_pure)

lemma request_quiet:
  "quiet (runtime_session_id rt) s
     (snd (request_action_with_capability_version C (memory_ops err) rt t i action version s))"
  unfolding request_action_with_capability_version_def with_projection_def
  by (auto split: sum.split EffectDecision.split option.split
      intro!: quiet_intros simp: snd_sbind_pure is_observed_def)

lemma defer_quiet: "quiet (runtime_session_id rt) s (defer_to_last_approval (memory_ops err) rt D tc s)"
  by (auto simp: defer_to_last_approval_def record_deferred_tool_def is_observed_def
      split: sum.split option.split intro!: quiet_intros)

lemma emit_quiet: "quiet (runtime_session_id rt) s (emit_read_search_activity (memory_ops err) rt D tc preview s)"
  by (auto simp: emit_read_search_activity_def Let_def is_observed_def intro!: quiet_intros)

lemma seam_gate_cases:
  assumes "seam_gate E S rt D tc summary effect s w admitted = (obs, s', w')"
  obtains (refused) result error where "refuse S rt D tc summary result error s w = (obs, s', w')"
  | (admitted) seam where "effect_seam S rt s = Inr seam" "decide (env_context E) seam effect = EffectDecision.Allow"
      "admitted = (obs, s', w')"
  using assms by (auto simp: seam_gate_def split: sum.splits EffectDecision.splits)

lemma mcp_finish_once:
  assumes "mcp_finish (memory_ops err) rt D tc summary identity result s w = (obs, s', w')"
  shows "observed_once (runtime_session_id rt) s obs s'"
  using assms
  by (auto simp: mcp_finish_def Let_def split: McpLiveCallResult.splits option.splits prod.splits
      dest!: record_observation_once refuse_once
      intro: once_after_quiet [OF fence_marks_quiet(1)] once_after_quiet [OF fence_marks_quiet(2)]
        once_after_quiet [OF fence_marks_quiet(3)])

lemma mcp_once:
  assumes "execute_mcp_tool E (memory_ops err) orch rt D tc s w = (obs, s', w')"
  shows "observed_once (runtime_session_id rt) s obs s'"
proof -
  have fence: "observed_once (runtime_session_id rt) s obs s'"
    if "prepare_fence_for_allowed X (memory_ops err) (runtime_session_id rt) F effect s = (r, s1)"
      "observed_once (runtime_session_id rt) s1 obs s'" for X F effect r s1
    using fence_prepare_quiet [of "runtime_session_id rt" s X err F effect] that
    by (auto simp: prepare_fence_for_allowed_def intro: once_after_quiet)
  show ?thesis
    using assms unfolding execute_mcp_tool_def Let_def
    by (auto split: option.splits sum.splits if_splits prod.splits elim!: seam_gate_cases
        dest!: refuse_once mcp_finish_once intro: fence)
qed

lemma goto_once:
  "execute_goto_definition E (memory_ops err) orch rt D tc summary s w = (obs, s', w') \<Longrightarrow>
     observed_once (runtime_session_id rt) s obs s'"
  unfolding execute_goto_definition_def Let_def
  by (auto split: sum.splits prod.splits elim!: seam_gate_cases dest!: refuse_once record_observation_once)

lemma web_once:
  "execute_web_tool E (memory_ops err) orch rt D tc summary s w = (obs, s', w') \<Longrightarrow>
     observed_once (runtime_session_id rt) s obs s'"
  unfolding execute_web_tool_def
  by (auto split: sum.splits prod.splits option.splits elim!: seam_gate_cases dest!: refuse_once record_observation_once)

lemma read_search_once:
  assumes "read_search_tool E (memory_ops err) orch rt D tc summary s w = (obs, s', w')"
  shows "observed_once (runtime_session_id rt) s obs s'"
proof -
  define s1 where "s1 = (if call_name tc = ''search''
    then snd (runtime_record (memory_ops err) rt (draw_stamp D 4)
           (Tool (SearchStarted (call_id tc) (unwrap_or (json_str (call_arguments tc) ''pattern'') [])
              (unwrap_or (json_str (call_arguments tc) ''path'') ''.''))) s)
    else s)"
  have "quiet (runtime_session_id rt) s s1"
    unfolding s1_def by (simp add: record_quiet is_observed_def)
  moreover have "observed_once (runtime_session_id rt) s1 obs s'"
    using assms unfolding read_search_tool_def Let_def s1_def [symmetric]
    by (auto split: sum.splits ToolOutcome.splits prod.splits dest!: refuse_once record_observation_once
        intro: once_after_quiet [OF emit_quiet])
  ultimately show ?thesis by (rule once_after_quiet)
qed

lemma request_cases:
  assumes "request_action_with_capability_version C (memory_ops err) rt t i action version s = (r, s1)"
    and "observed_once (runtime_session_id rt) s1 obs s'"
  shows "observed_once (runtime_session_id rt) s obs s'"
  using request_quiet [of rt s C err t i action version] assms by (auto intro: once_after_quiet)

lemma mutating_once:
  assumes "request_mutating_tool E (memory_ops err) rt D tc summary action s w = (obs, s', w')"
  shows "observed_once (runtime_session_id rt) s obs s'"
  using assms unfolding request_mutating_tool_def
  by (auto split: if_splits prod.splits sum.splits RuntimeError.splits dest!: refuse_once
      intro: request_cases once_after_quiet [OF defer_quiet])

lemma request_web_once:
  "request_web_tool E (memory_ops err) orch rt D tc summary action s w = (obs, s', w') \<Longrightarrow>
     observed_once (runtime_session_id rt) s obs s'"
  unfolding request_web_tool_def
  by (auto split: prod.splits sum.splits RuntimeError.splits RuntimeStatus.splits dest!: refuse_once web_once
      intro: request_cases once_after_quiet [OF defer_quiet])

lemma dispatch_once:
  "dispatch_tool E (memory_ops err) orch rt D tc s w = (obs, s', w') \<Longrightarrow> observed_once (runtime_session_id rt) s obs s'"
  unfolding dispatch_tool_def Let_def
  by (auto split: if_splits sum.splits
      dest!: refuse_once mcp_once mutating_once request_web_once goto_once read_search_once)

lemma process_once:
  "process_single_tool E (memory_ops err) orch rt D tc s w = (obs, s', w') \<Longrightarrow>
     observed_once (runtime_session_id rt) s obs s'"
  unfolding process_single_tool_def by (auto split: option.splits if_splits dest!: refuse_once dispatch_once)

section \<open>The world of a call\<close>

text \<open>The effect behind which a call reaches a service, if it can reach one.\<close>

definition service_effect :: "'u tool_env \<Rightarrow> 'w ToolOrchestrator \<Rightarrow> ToolCall \<Rightarrow> NormalizedEffect option" where
  "service_effect E orch tc =
     (case Option.bind (orch_mcp_live orch) (\<lambda>bridge. bridge_tools bridge (call_name tc)) of
        Some entry \<Rightarrow> Some (mcp_effect orch entry)
      | None \<Rightarrow>
          if call_name tc = ''goto_definition''
          then Some (workspace_read ActionOrigin.Agent ''goto_definition via agent'' (query_path (position_query (call_arguments tc))))
          else if call_name tc \<in> {''web_search'', ''web_fetch''}
          then (case normalize_tool_call E orch tc of
                  Inl _ \<Rightarrow> None
                | Inr action \<Rightarrow> Some (network_connect ActionOrigin.Agent (action_summary action)
                    (unwrap_or (action_target action) ''web:invalid-target'')))
          else None)"

definition permitted :: "'u tool_env \<Rightarrow> 's EventStore \<Rightarrow> AgentRuntime \<Rightarrow> NormalizedEffect \<Rightarrow> 's \<Rightarrow> bool" where
  "permitted E S rt effect s \<longleftrightarrow>
     (case effect_seam S rt s of
        Inl _ \<Rightarrow> False
      | Inr seam \<Rightarrow> decide (env_context E) seam effect = EffectDecision.Allow)"

lemma seam_gate_world:
  assumes "seam_gate E S rt D tc summary effect s w admitted = (obs, s', w')" "w' \<noteq> w"
  shows "permitted E S rt effect s \<and> admitted = (obs, s', w')"
  using assms(1) by (rule seam_gate_cases) (use assms(2) in \<open>auto simp: permitted_def dest: refuse_world\<close>)

lemma mcp_world:
  assumes "execute_mcp_tool E S orch rt D tc s w = (obs, s', w')" "w' \<noteq> w"
  shows "\<exists>effect. service_effect E orch tc = Some effect \<and> permitted E S rt effect s"
proof -
  obtain bridge entry where "orch_mcp_live orch = Some bridge"
      "bridge_validate_arguments bridge (call_name tc) (call_arguments tc) = Inr entry"
      "permitted E S rt (mcp_effect orch entry) s"
    using assms
    by (auto simp: execute_mcp_tool_def Let_def dest: refuse_world dest!: seam_gate_world
        split: option.splits sum.splits if_split_asm)
  then show ?thesis
    by (auto simp: service_effect_def bridge_validate_arguments_def rbind_eq_Inr_iff ok_or_eq_Inr_iff)
qed

lemma mutating_world: "request_mutating_tool E S rt D tc summary action s w = (obs, s', w') \<Longrightarrow> w' = w"
  unfolding request_mutating_tool_def
  by (auto split: if_splits prod.splits sum.splits RuntimeError.splits dest: refuse_world)

lemma read_search_world: "read_search_tool E S orch rt D tc summary s w = (obs, s', w') \<Longrightarrow> w' = w"
  unfolding read_search_tool_def Let_def
  by (auto split: sum.splits ToolOutcome.splits prod.splits dest: refuse_world)

lemma web_world:
  assumes "request_web_tool E S orch rt D tc summary action s w = (obs, s', w')" "w' \<noteq> w"
  shows "\<exists>s1 granted action'. request_action_with_capability_version (env_context E) S rt (draw_stamp D 5)
        (draw_approval_id D) action (Some 1) s = (Inr granted, s1) \<and> normalize_tool_call E orch tc = Inr action' \<and>
    permitted E S rt (network_connect ActionOrigin.Agent (action_summary action')
      (unwrap_or (action_target action') ''web:invalid-target'')) s1"
proof -
  obtain s1 granted where "execute_web_tool E S orch rt D tc summary s1 w = (obs, s', w')"
      "request_action_with_capability_version (env_context E) S rt (draw_stamp D 5)
        (draw_approval_id D) action (Some 1) s = (Inr granted, s1)"
    using assms unfolding request_web_tool_def
    by (fastforce dest: refuse_world split: prod.splits sum.splits RuntimeError.splits RuntimeStatus.splits)
  then show ?thesis
    using assms(2) unfolding execute_web_tool_def
    by (auto split: sum.splits dest!: seam_gate_world dest: refuse_world)
qed

text \<open>The store in which the seam decides: as the call finds it, or after its request was granted.\<close>

definition decided_in :: "'u tool_env \<Rightarrow> 's EventStore \<Rightarrow> AgentRuntime \<Rightarrow> tool_draws \<Rightarrow> 's \<Rightarrow> 's \<Rightarrow> bool" where
  "decided_in E S rt D s s1 \<longleftrightarrow> s1 = s \<or>
     (\<exists>action granted. request_action_with_capability_version (env_context E) S rt (draw_stamp D 5)
        (draw_approval_id D) action (Some 1) s = (Inr granted, s1))"

lemma dispatch_world:
  assumes "dispatch_tool E S orch rt D tc s w = (obs, s', w')" "w' \<noteq> w"
  shows "\<exists>effect s1. service_effect E orch tc = Some effect \<and> permitted E S rt effect s1 \<and> decided_in E S rt D s s1"
proof (cases "is_some_and (orch_mcp_live orch) (\<lambda>bridge. bridge_tools bridge (call_name tc) \<noteq> None)")
  case True
  then show ?thesis using mcp_world [of E S orch rt D tc s w obs s' w'] assms by (auto simp: dispatch_tool_def decided_in_def)
next
  case False
  then have none: "Option.bind (orch_mcp_live orch) (\<lambda>bridge. bridge_tools bridge (call_name tc)) = None"
    by (auto simp: is_some_and_def split: option.splits)
  have goto: "permitted E S rt (workspace_read ActionOrigin.Agent ''goto_definition via agent''
      (query_path (position_query (call_arguments tc)))) s"
    if "execute_goto_definition E S orch rt D tc summary s w = (obs, s', w')" for summary
    using that assms(2) unfolding execute_goto_definition_def Let_def by (blast dest: seam_gate_world)
  have web: "\<exists>s1. permitted E S rt (network_connect ActionOrigin.Agent (action_summary action)
      (unwrap_or (action_target action) ''web:invalid-target'')) s1 \<and> decided_in E S rt D s s1"
    if "request_web_tool E S orch rt D tc summary action s w = (obs, s', w')" "normalize_tool_call E orch tc = Inr action"
    for summary action
    using web_world [OF that(1) assms(2)] that(2) by (auto simp: decided_in_def)
  have self: "decided_in E S rt D s s" by (simp add: decided_in_def)
  show ?thesis
    using assms False self unfolding dispatch_tool_def Let_def
    by (auto simp: service_effect_def none split: sum.splits if_split_asm
        dest: refuse_world mutating_world read_search_world goto web)
qed

definition approved_world :: "'u seam_context \<Rightarrow> EffectSeam \<Rightarrow> DeferredEffect \<Rightarrow> ApprovalResolution \<Rightarrow> nat \<Rightarrow> bool" where
  "approved_world C seam d resolution current \<longleftrightarrow>
     approval_current (context_externals C) d resolution current
     \<and> (\<exists>q. policy_decision C seam (effect_action (deferred_effect d)) = PolicyDecision.NeedsApproval q)
     \<and> sandbox_admit (context_fs C) (seam_sandbox seam) (deferred_effect d) = Inr ()"

lemma admitted_world:
  assumes "execute_after_approval_admitted C seam d resolution current (Some (S, sid, F)) execution s w = (r, s', w')"
    and "w' \<noteq> w"
  shows "approved_world C seam d resolution current \<and> (\<exists>admission s1 r1 s2. execution admission s1 w = (r1, s2, w'))"
  using assms
  by (auto simp: execute_after_approval_admitted_def run_under_fence_def approved_world_def Let_def
      split: if_splits PolicyDecision.splits sum.splits prod.splits)

lemma write_world:
  assumes "write_file_in_scope d fs_write root candidate content w = (r, w')" "w' \<noteq> w"
  shows "\<exists>root' parent parent'. canonicalize (disk_fs d) root = Some root'
    \<and> path_parent (target_path root' candidate) = Some parent \<and> canonicalize (disk_fs d) parent = Some parent'
    \<and> path_starts_with parent' root' \<and> w' = snd (fs_write (target_path root' candidate) content w)"
  using assms
  by (auto simp: write_file_in_scope_def disk_canonicalize_def ok_or_def Let_def
      split: sum.splits option.splits if_splits prod.splits)

text \<open>The observations in a piece of log, and the ones that a sequence of calls leaves.\<close>

definition observations_of :: "Event list \<Rightarrow> EventPayload list" where
  "observations_of es = filter is_observed (map payload es)"

lemma is_observed_payload: "is_observed (observed_payload obs)"
  by (simp add: is_observed_def observed_payload_def)

lemma observed_once_log:
  assumes "observed_once sid s obs s'" "usable s"
  shows "usable s' \<and> (\<exists>new. visible s' sid = visible s sid @ new \<and> observations_of new = [observed_payload obs])"
proof -
  obtain before e after where "usable s'" "visible s' sid = visible s sid @ before @ e # after"
      "payload e = observed_payload obs" "list_all (\<lambda>e. \<not> is_observed (payload e)) (before @ after)"
    using assms by (auto simp: observed_once_def)
  then show ?thesis
    by (intro conjI exI [of _ "before @ e # after"]) (auto simp: observations_of_def is_observed_payload list_all_iff)
qed

lemma sequential_log:
  assumes "process_sequential (process_single_tool E (memory_ops err) orch rt) calls s w = (obs, s', w')" "usable s"
  shows "usable s' \<and> length obs = length calls
    \<and> (\<exists>new. visible s' (runtime_session_id rt) = visible s (runtime_session_id rt) @ new
         \<and> observations_of new = map observed_payload obs)"
  using assms
proof (induction calls arbitrary: s w obs)
  case (Cons c calls)
  obtain D tc where c: "c = (D, tc)" by (rule prod.exhaust)
  obtain o1 s1 w1 where run: "process_single_tool E (memory_ops err) orch rt D tc s w = (o1, s1, w1)" by (rule prod_cases3)
  obtain rest where rest: "process_sequential (process_single_tool E (memory_ops err) orch rt) calls s1 w1 = (rest, s', w')"
      "obs = o1 # rest" using Cons(2) by (auto simp: c run split: prod.splits)
  from observed_once_log [OF process_once [OF run] Cons(3)] Cons(1) [OF rest(1)] rest(2)
  show ?case by (auto simp: observations_of_def)
qed (auto simp: observations_of_def)

text \<open>Tasks that run one after another, each to its end.\<close>

definition run_in_order ::
    "'u tool_env \<Rightarrow> 's EventStore \<Rightarrow> 'w ToolOrchestrator \<Rightarrow> AgentRuntime \<Rightarrow> (tool_draws \<times> ToolCall) list \<Rightarrow> 's \<Rightarrow> 'w
     \<Rightarrow> ToolObservation option list \<times> 's \<times> 'w" where
  "run_in_order E S orch rt calls s w =
     (case process_sequential (process_single_tool E S orch rt) calls s w of (obs, s', w') \<Rightarrow> (map Some obs, s', w'))"

lemma batch_log:
  assumes "process_tool_calls (run_in_order E (memory_ops err) orch rt) E (memory_ops err) orch rt calls s w = (obs, s', w')"
    and "usable s"
  shows "length obs = length calls
    \<and> (\<exists>new. visible s' (runtime_session_id rt) = visible s (runtime_session_id rt) @ new
         \<and> observations_of new = map observed_payload obs)"
proof -
  let ?P = "\<lambda>(_, tc). parallelizable E orch tc" and ?f = "process_single_tool E (memory_ops err) orch rt"
  obtain o1 s1 w1 where first: "process_sequential ?f (filter ?P calls) s w = (o1, s1, w1)" by (rule prod_cases3)
  obtain o2 where rest: "process_sequential ?f (filter (\<lambda>x. \<not> ?P x) calls) s1 w1 = (o2, s', w')" "obs = o1 @ o2"
    using assms(1) first
    by (auto simp: process_tool_calls_def run_in_order_def Let_def List.map_filter_def comp_def split: prod.splits if_splits)
  from sequential_log [OF first assms(2)] sequential_log [OF rest(1)] rest(2) sum_length_filter_compl [of ?P calls]
  show ?thesis by (auto simp: observations_of_def)
qed

lemma deferral_log:
  assumes "usable s" "action_admission (env_context E) (memory_ops err) rt action (Some 1) s = Inr EffectDecision.Allow"
    and "action_kind action \<notin> outbound_web_kinds" "\<not> contains_sensitive_value E (call_arguments tc)"
    and "find_map requested_id (rev (visible s (runtime_session_id rt))) = Some i"
    and "request_mutating_tool E (memory_ops err) rt D tc summary action s w = (obs, s', w')"
  shows "obs_outcome obs = ToolEventOutcome.ApprovalRequired
    \<and> (\<exists>e1 e2 rest. visible s' (runtime_session_id rt) = visible s (runtime_session_id rt) @ e1 # e2 # rest
        \<and> payload e1 = Notice PolicyAllowed
        \<and> payload e2 = Tool (Deferred i (call_id tc) (call_name tc) (call_arguments tc)))"
proof -
  let ?S = "memory_ops err" and ?sid = "runtime_session_id rt"
  obtain e1 s1 where a: "memory_append_next s (draw_stamp D 5) ?sid (Notice PolicyAllowed) = (Inr e1, s1)"
      "payload e1 = Notice PolicyAllowed" "usable s1" "visible s1 ?sid = visible s ?sid @ [e1]"
    using append_usable [OF assms(1)] by (metis prod.exhaust)
  have req: "request_action_with_capability_version (env_context E) ?S rt (draw_stamp D 5) (draw_approval_id D) action
      (Some 1) s = (Inr Idle, s1)"
    by (simp add: request_action_with_capability_version_def assms(2) runtime_record_def a(1))
  obtain e2 s2 where b: "memory_append_next s1 (draw_stamp D 4) ?sid
        (Tool (Deferred i (call_id tc) (call_name tc) (call_arguments tc))) = (Inr e2, s2)"
      "payload e2 = Tool (Deferred i (call_id tc) (call_name tc) (call_arguments tc))" "usable s2"
      "visible s2 ?sid = visible s1 ?sid @ [e2]"
    using append_usable [OF a(3)] by (metis prod.exhaust)
  have "find_map requested_id (rev (visible s1 ?sid)) = Some i"
    using assms(5) by (simp add: a(2,4) requested_id_def)
  then have "defer_to_last_approval ?S rt D tc s1 = s2"
    using a(3) by (simp add: defer_to_last_approval_def runtime_events_def usable_def memory_list_visible
        record_deferred_tool_def runtime_record_def b(1))
  then have ref: "refuse ?S rt D tc summary ToolEventOutcome.ApprovalRequired ''awaiting user approval'' s2 w = (obs, s', w')"
    using assms(3,4,6) by (simp add: request_mutating_tool_def req)
  then have "obs_outcome obs = ToolEventOutcome.ApprovalRequired"
    by (auto simp: refuse_def record_observation_def Let_def)
  moreover obtain rest where "visible s' ?sid = visible s2 ?sid @ rest"
    using refuse_once [OF ref] b(3) by (auto simp: observed_once_def)
  ultimately show ?thesis using a(2,4) b(2,4) by auto
qed

section \<open>Properties\<close>

text \<open>
  C4. No service without permission. Whenever a tool call changes the world, that is, calls the web
  service, the coding service or an MCP server, the call is of a kind that has such a service, and
  the session's seam, asked in the store as the call found it or after its request was granted,
  allowed exactly the effect of this call. A call that writes a file or starts a process changes nothing.
\<close>

theorem service_needs_permission:
  assumes "process_single_tool E S orch rt D tc s w = (obs, s', w')" and "w' \<noteq> w"
  shows "\<exists>tc' effect s1. (tc' = tc \<or> tc' = tc\<lparr>call_name := role_tool_name (call_name tc)\<rparr>)
    \<and> service_effect E orch tc' = Some effect \<and> permitted E S rt effect s1 \<and> decided_in E S rt D s s1"
  using assms unfolding process_single_tool_def
  by (auto split: option.splits if_splits dest: refuse_world dest!: dispatch_world)

text \<open>
  C32. Every tool call is observed exactly once. On a usable in-memory store, whatever the call, the
  services and the policy do, the log only grows, and among the new events there is exactly one
  observation; it carries what the model is told.
\<close>

theorem call_observed_once:
  assumes "store_wf s" and "store_healthy s"
    and "process_single_tool E (memory_ops err) orch rt D tc s w = (obs, s', w')"
  shows "\<exists>before e after. visible s' (runtime_session_id rt) = visible s (runtime_session_id rt) @ before @ e # after
    \<and> payload e = observed_payload obs \<and> list_all (\<lambda>e. \<not> is_observed (payload e)) (before @ after)"
  using process_once [OF assms(3)] assms(1,2) by (simp add: observed_once_def usable_def)



subsection \<open>Concrete calls\<close>

definition open_context :: "string seam_context" where
  "open_context = demo_context\<lparr>context_fs := \<lparr>canonicalize = Some, path_exists = (\<lambda>_. True)\<rparr>\<rparr>"

definition demo_env :: "string tool_env" where
  "demo_env = \<lparr>env_context = open_context, env_disk = (demo_disk [])\<lparr>disk_fs := context_fs open_context\<rparr>,
     env_json_text = (\<lambda>_. ''{}''), env_uuid_text = (\<lambda>_. [])\<rparr>"

definition demo_draws :: tool_draws where
  "demo_draws = \<lparr>draw_stamp = (\<lambda>n. (of_nat (300 + n), n)), draw_approval_id = 9,
     draw_fence = \<lparr>draw_order = id, draw_effect_id = 7, draw_prepared = (200, 9), draw_started = (201, 9),
       draw_finished = (202, 9), draw_unknown = (203, 9)\<rparr>\<rparr>"

text \<open>An orchestrator whose coding service counts its calls, and a call that reaches it.\<close>

definition demo_orchestrator :: "nat ToolOrchestrator" where
  "demo_orchestrator =
     \<lparr>orch_workspace_root = ''/w'', orch_artifacts = Inl ''no store'', orch_web_research = None, orch_mcp_live = None,
      orch_coding_tools = (\<lambda>_ n. (Inr [], Suc n)), orch_allowed_tools = None\<rparr>"

definition demo_call :: ToolCall where
  "demo_call = \<lparr>call_id = ''t1'', call_name = ''goto_definition'',
     call_arguments = Object [(''path'', String ''a''), (''line'', Number ''1''), (''character'', Number ''0'')]\<rparr>"

lemma demo_effect_seam:
  "effect_seam (memory_ops (\<lambda>_. [])) demo_runtime demo_store1 =
     Inr (with_admission shell_engine (session_sandbox demo_runtime) Ask classify)"
proof -
  have wf: "store_wf demo_store1" using store_run_wf [OF demo_store1_run store_wf_default] .
  have "runtime_projection (memory_ops (\<lambda>_. [])) demo_runtime demo_store1 = Inr (session_state 1 demo_store1)"
    using root_reduce [OF wf schema_current_run [OF demo_store1_run schema_current_default] demo_root] demo_healthy1
    by (simp add: runtime_projection_def runtime_events_def memory_list_visible [OF wf] demo_visible1)
  moreover have "execution_mode (session_state 1 demo_store1) = Ask"
    by (simp add: session_state_def demo_visible1 demo_event_def project_event_def project_payload_def projection_new_def)
  moreover have "runtime_policy demo_runtime = shell_engine" by (simp add: demo_runtime_def runtime_with_def)
  ultimately show ?thesis by (simp add: effect_seam_def runtime_execution_mode_def)
qed

lemma demo_decides:
  "decide open_context (with_admission shell_engine (session_sandbox demo_runtime) Ask classify)
     (workspace_read ActionOrigin.Agent ''goto_definition via agent'' ''a'') = EffectDecision.Allow"
  by code_simp

lemma demo_goto:
  "\<exists>obs s'. process_single_tool demo_env (memory_ops (\<lambda>_. [])) demo_orchestrator demo_runtime demo_draws demo_call demo_store1 0
     = (obs, s', 1) \<and> obs_outcome obs = ToolEventOutcome.Success"
proof -
  have "(case normalize_tool_call demo_env demo_orchestrator demo_call of Inl _ \<Rightarrow> None | Inr a \<Rightarrow> Some (action_kind a)) = Some ReadFile"
    by code_simp
  then obtain action where norm: "normalize_tool_call demo_env demo_orchestrator demo_call = Inr action"
      "action_kind action = ReadFile" by (auto split: sum.splits)
  have fields: "orch_mcp_live demo_orchestrator = None" "orch_allowed_tools demo_orchestrator = None"
      "orch_coding_tools demo_orchestrator q n = (Inr [], Suc n)" "call_name demo_call = ''goto_definition''"
      "env_context demo_env = open_context" for q n
    by (simp_all add: demo_orchestrator_def demo_call_def demo_env_def)
  have query: "query_path (position_query (call_arguments demo_call)) = ''a''" by code_simp
  have kinds: "ReadFile \<notin> mutating_kinds" by (simp add: mutating_kinds_def outbound_web_kinds_def)
  have "process_single_tool demo_env (memory_ops (\<lambda>_. [])) demo_orchestrator demo_runtime demo_draws demo_call demo_store1 0
      = execute_goto_definition demo_env (memory_ops (\<lambda>_. [])) demo_orchestrator demo_runtime demo_draws demo_call
          (summarize_arguments demo_env (call_arguments demo_call)) demo_store1 0"
    by (simp add: process_single_tool_def dispatch_tool_def fields norm kinds is_some_and_def Let_def)
  also have "\<dots> = (case record_observation (memory_ops (\<lambda>_. [])) demo_runtime demo_draws demo_call
        (summarize_arguments demo_env (call_arguments demo_call)) ToolEventOutcome.Success
        ''goto_definition: no locations'' None None demo_store1 of (obs, s') \<Rightarrow> (obs, s', 1))"
    unfolding execute_goto_definition_def seam_gate_def Let_def demo_effect_seam query fields
    by (simp add: demo_decides)
  finally show ?thesis by (simp add: record_observation_def Let_def)
qed

theorem service_needs_permission_witness:
  "\<exists>effect s1. service_effect demo_env demo_orchestrator demo_call = Some effect
     \<and> permitted demo_env (memory_ops (\<lambda>_. [])) demo_runtime effect s1
     \<and> decided_in demo_env (memory_ops (\<lambda>_. [])) demo_runtime demo_draws demo_store1 s1"
proof -
  obtain obs s' where run: "process_single_tool demo_env (memory_ops (\<lambda>_. [])) demo_orchestrator demo_runtime
      demo_draws demo_call demo_store1 0 = (obs, s', 1)" using demo_goto by blast
  have "demo_call\<lparr>call_name := role_tool_name (call_name demo_call)\<rparr> = demo_call"
    by (simp add: demo_call_def role_tool_name_def)
  then show ?thesis using service_needs_permission [OF run] by auto
qed

theorem call_observed_once_witness:
  "\<exists>obs s' before e after. process_single_tool demo_env (memory_ops (\<lambda>_. [])) demo_orchestrator demo_runtime
       demo_draws demo_call demo_store1 0 = (obs, s', 1)
     \<and> visible s' 1 = visible demo_store1 1 @ before @ e # after \<and> payload e = observed_payload obs
     \<and> list_all (\<lambda>e. \<not> is_observed (payload e)) (before @ after)"
proof -
  have wf: "store_wf demo_store1" using store_run_wf [OF demo_store1_run store_wf_default] .
  obtain obs s' where run: "process_single_tool demo_env (memory_ops (\<lambda>_. [])) demo_orchestrator demo_runtime
      demo_draws demo_call demo_store1 0 = (obs, s', 1)" using demo_goto by blast
  from call_observed_once [OF wf demo_healthy1 run] run show ?thesis unfolding demo_runtime_sid by blast
qed


lemma fence_passes:
  assumes "usable s" "check_replay_safe (memory_ops err) sid (draw_order F) s (args_digest_for_effect X effect) = Inr AllowFresh"
  shows "\<exists>i s1. fence_prepare X (memory_ops err) sid F effect s = (Inr i, s1)"
proof -
  have append: "\<exists>s1. ledger_append (memory_ops err) sid t ev s = (Inr (), s1) \<and> usable s1" if "usable s" for t ev s
    using memory_append_ok [of s t sid "EffectFence ev"] that by (auto simp: ledger_append_def usable_def)
  obtain s1 where "ledger_append (memory_ops err) sid (draw_prepared F)
      (EffectFenceEvent.Prepared (identity_effect_id (identity_from_effect X (draw_effect_id F) effect))
        (identity_args_digest (identity_from_effect X (draw_effect_id F) effect))
        (identity_kind (identity_from_effect X (draw_effect_id F) effect))
        (identity_target_label (identity_from_effect X (draw_effect_id F) effect))) s = (Inr (), s1)" "usable s1"
    using append [OF assms(1)] by blast
  moreover obtain s2 where "ledger_append (memory_ops err) sid (draw_started F)
      (EffectFenceEvent.Started (identity_effect_id (identity_from_effect X (draw_effect_id F) effect))
        (identity_args_digest (identity_from_effect X (draw_effect_id F) effect))) s1 = (Inr (), s2)"
    using append [OF calculation(2)] by blast
  ultimately show ?thesis
    using assms(2) by (simp add: fence_prepare_def prepare_and_start_def ledger_prepare_def mark_started_def Let_def)
qed

definition demo_write :: NormalizedEffect where
  "demo_write = workspace_write ActionOrigin.Agent ''write_file via agent'' ''a''"

definition demo_approval :: ApprovalRequest where
  "demo_approval = pending_with_version demo_externals 9 (effect_action demo_write) ''r'' 3 (Some (effect_version demo_write))"

definition demo_deferred_call :: deferred_call where
  "demo_deferred_call = (''t2'', ''write_file'', Object [(''path'', String ''a''), (''content'', String ''x'')])"


subsection \<open>Where the code differs from its description\<close>

text \<open>The role label \<open>web\<close> allows the web tools, but a call by that label is always refused.\<close>

lemma web_label_refused: "\<not> child_tool_allowed names ''web''"
proof -
  have "child_canonical_tool_name ''web'' = None" by code_simp
  then show ?thesis by (simp add: child_tool_allowed_def)
qed

text \<open>The schema accepts every line number that is not negative; the query keeps 32 bits of it.\<close>

lemma goto_line_wraps:
  "validate_tool_arguments ''goto_definition'' (Object [(''path'', String ''a''), (''line'', Number ''4294967296''),
       (''character'', Number ''0'')]) = Inr ()
   \<and> query_line (position_query (Object [(''path'', String ''a''), (''line'', Number ''4294967296''),
       (''character'', Number ''0'')])) = 0"
proof
  have "magnitude ''4294967296'' = Some (2 ^ 32)" by code_simp
  then show "query_line (position_query (Object [(''path'', String ''a''), (''line'', Number ''4294967296''),
       (''character'', Number ''0'')])) = 0"
    by (simp add: position_query_def unsigned_greater_eq)
  show "validate_tool_arguments ''goto_definition'' (Object [(''path'', String ''a''), (''line'', Number ''4294967296''),
       (''character'', Number ''0'')]) = Inr ()" by code_simp
qed

end
