(* ===== verification/Context_Builder.thy ===== *)
theory Context_Builder
  imports Workspace_Tools Observations
begin

text \<open>
  The context builder of \<open>crates/impetus-core/src/context_builder.rs\<close>: an artifact is read in windows of
  bytes, each window is decoded and redacted, and what has been collected is reduced to the budget
  after every window. A character that a window cuts is carried over to the next one.

  An artifact source is a record of its two reads; \<open>durable_source\<close> is the one over the durable
  store, whose rows and files are parameters.
\<close>

section \<open>Decoding\<close>

text \<open>
  The error of \<open>std::str::from_utf8\<close>: the length of the valid prefix and the length of what is wrong
  after it, \<open>None\<close> when the bytes end inside a character.
\<close>

function utf8_error :: "string \<Rightarrow> (nat \<times> nat option) option" where
  "utf8_error [] = None"
| "utf8_error (c # cs) =
     (let (n, whole) = utf8_chunk c cs in
      if whole then map_option (apfst ((+) n)) (utf8_error (drop (n - 1) cs))
      else Some (0, if n = Suc (length cs) \<and> n < utf8_width (code c) then None else Some n))"
  by pat_completeness auto
termination
  by (relation "measure length") auto

declare utf8_error.simps(2) [simp del]

lemma utf8_chunk_bounds: "utf8_chunk c cs = (n, whole) \<Longrightarrow> 1 \<le> n \<and> n \<le> Suc (length cs)"
  using utf8_tail_bounds [of 1 "code c" _ cs] by (auto simp: utf8_chunk_def Let_def)

lemma utf8_error_bounds:
  "utf8_error bytes = Some (valid, e) \<Longrightarrow> valid < length bytes \<and> (\<forall>bad. e = Some bad \<longrightarrow> 1 \<le> bad \<and> valid + bad \<le> length bytes)"
proof (induction bytes arbitrary: valid rule: utf8_error.induct)
  case (2 c cs)
  obtain n whole where chunk: "utf8_chunk c cs = (n, whole)" by (rule prod.exhaust)
  note n = utf8_chunk_bounds [OF chunk]
  show ?case
  proof (cases whole)
    case True
    then obtain k where k: "utf8_error (drop (n - 1) cs) = Some (k, e)" "valid = n + k"
      using "2.prems" chunk by (auto simp: utf8_error.simps(2))
    then show ?thesis using "2.IH" [OF chunk [symmetric] HOL.refl True k(1)] n by auto
  next
    case False
    then show ?thesis using "2.prems" chunk n by (auto simp: utf8_error.simps(2) split: if_splits)
  qed
qed simp

function split_utf8_prefix :: "string \<Rightarrow> string \<times> string" where
  "split_utf8_prefix bytes =
     (case utf8_error bytes of
        None \<Rightarrow> (bytes, [])
      | Some (valid_up_to, None) \<Rightarrow> (take valid_up_to bytes, drop valid_up_to bytes)
      | Some (valid_up_to, Some bad_len) \<Rightarrow>
          (case split_utf8_prefix (drop (valid_up_to + bad_len) bytes) of (decoded, carry) \<Rightarrow>
             (take valid_up_to bytes @ replacement_character @ decoded, carry)))"
  by pat_completeness auto
termination
  by (relation "measure length") (auto dest!: utf8_error_bounds)

declare split_utf8_prefix.simps [simp del]

section \<open>Sources\<close>

record ArtifactMeta =
  artifact_meta_id :: string
  meta_byte_count :: nat
  meta_created_unix_ms :: nat
  meta_sha256 :: string
  meta_content_type :: "string option"

datatype ContextBuilderError = MissingArtifact string | Store string

record ArtifactRangeSource =
  source_metadata :: "string \<Rightarrow> ContextBuilderError + ArtifactMeta option"
  source_read_range :: "string \<Rightarrow> nat \<Rightarrow> nat \<Rightarrow> ContextBuilderError + string"

fun context_error_text :: "ContextBuilderError \<Rightarrow> string" where
  "context_error_text (MissingArtifact i) = ''artifact not found: '' @ i"
| "context_error_text (ContextBuilderError.Store e) = ''artifact store error: '' @ e"

text \<open>\<open>DurableArtifactStore::read_range\<close> reads the whole file and slices it.\<close>

definition durable_read_range :: "(string \<Rightarrow> string + string) \<Rightarrow> string \<Rightarrow> nat \<Rightarrow> nat \<Rightarrow> string + string" where
  "durable_read_range read_file i start len =
     rbind (read_file i) (\<lambda>bytes.
       let stop = min (start + len) (length bytes) in
       Inr (if start \<le> stop then take (stop - start) (drop start bytes) else []))"

definition durable_source ::
    "(string \<Rightarrow> string + ArtifactMeta option) \<Rightarrow> (string \<Rightarrow> string + string) \<Rightarrow> ArtifactRangeSource" where
  "durable_source rows read_file =
     \<lparr>source_metadata = (\<lambda>i. map_sum ContextBuilderError.Store id (rows i)),
      source_read_range = (\<lambda>i start len. map_sum ContextBuilderError.Store id (durable_read_range read_file i start len))\<rparr>"

section \<open>Materializing\<close>

definition ARTIFACT_CHUNK_SIZE :: nat where
  "ARTIFACT_CHUNK_SIZE = 32 * 1024"

record ContextBuilder =
  builder_source :: ArtifactRangeSource
  builder_reducer :: OutputReducer
  builder_budget_tokens :: nat
  builder_chunk_size :: nat

definition context_builder_new :: "ArtifactRangeSource \<Rightarrow> TokenBudget \<Rightarrow> ContextBuilder" where
  "context_builder_new source budget =
     \<lparr>builder_source = source, builder_reducer = new_without_rtk budget,
      builder_budget_tokens = Text_Reduction.max_tokens budget, builder_chunk_size = ARTIFACT_CHUNK_SIZE\<rparr>"

definition with_chunk_size :: "nat \<Rightarrow> ContextBuilder \<Rightarrow> ContextBuilder" where
  "with_chunk_size chunk_size b = b\<lparr>builder_chunk_size := max chunk_size 1\<rparr>"

record MaterializedArtifact =
  mat_content :: string
  mat_truncated :: bool
  mat_chunks_read :: nat
  mat_byte_count :: nat
  mat_original_tokens :: nat
  mat_reduced_tokens :: nat

text \<open>The local variables of the loop.\<close>

record assembly =
  asm_offset :: nat
  asm_chunks_read :: nat
  asm_carry :: string
  asm_assembled :: string
  asm_last_original_tokens :: nat
  asm_truncated :: bool

definition push_piece :: "OutputReducer \<Rightarrow> string \<Rightarrow> assembly \<Rightarrow> assembly" where
  "push_piece reducer piece st =
     (let assembled = asm_assembled st @ redact_text piece; reduced = reduce_output reducer assembled
      in st\<lparr>asm_last_original_tokens := original_tokens reduced,
            asm_truncated := asm_truncated st \<or> reduced_truncated reduced,
            asm_assembled := (if reduced_truncated reduced then reduced_content reduced else assembled)\<rparr>)"

lemma push_piece_simps [simp]:
  "asm_offset (push_piece r p st) = asm_offset st" "asm_chunks_read (push_piece r p st) = asm_chunks_read st"
  "asm_carry (push_piece r p st) = asm_carry st"
  by (simp_all add: push_piece_def Let_def)

function materialize_loop :: "ContextBuilder \<Rightarrow> string \<Rightarrow> nat \<Rightarrow> assembly \<Rightarrow> ContextBuilderError + assembly" where
  "materialize_loop b i total_bytes st =
     (if asm_offset st < total_bytes
      then (case source_read_range (builder_source b) i (asm_offset st)
                   (min (builder_chunk_size b) (total_bytes - asm_offset st)) of
              Inl e \<Rightarrow> Inl e
            | Inr bytes \<Rightarrow>
                (let st1 = st\<lparr>asm_chunks_read := asm_chunks_read st + 1\<rparr> in
                 if bytes = [] then Inr st1
                 else (case split_utf8_prefix (asm_carry st @ bytes) of (valid, rest) \<Rightarrow>
                         materialize_loop b i total_bytes
                           (push_piece (builder_reducer b) valid
                              (st1\<lparr>asm_offset := asm_offset st + length bytes, asm_carry := rest\<rparr>)))))
      else Inr st)"
  by pat_completeness auto
termination
  by (relation "measure (\<lambda>(b, i, n, st). n - asm_offset st)") (auto simp: neq_Nil_conv)

declare materialize_loop.simps [simp del]

definition enforce_token_ceiling :: "string \<Rightarrow> nat \<Rightarrow> string \<times> nat \<times> bool" where
  "enforce_token_ceiling s limit =
     (let max_chars = limit * 4 in
      if length s \<le> max_chars then (s, (length s + 3) div 4, False)
      else (let truncated = take_chars max_chars s
            in (truncated, min ((length truncated + 3) div 4) limit, True)))"

definition assembly_start :: assembly where
  "assembly_start =
     \<lparr>asm_offset = 0, asm_chunks_read = 0, asm_carry = [], asm_assembled = [], asm_last_original_tokens = 0,
      asm_truncated = False\<rparr>"

text \<open>What follows the loop: the bytes still carried, the last reduction and the ceiling.\<close>

definition finish_assembly :: "ContextBuilder \<Rightarrow> nat \<Rightarrow> assembly \<Rightarrow> MaterializedArtifact" where
  "finish_assembly b total_bytes st =
     (let st' = (if asm_carry st = [] then st
                 else push_piece (builder_reducer b) (from_utf8_lossy (asm_carry st)) st);
          final_reduced = reduce_output (builder_reducer b) (asm_assembled st')
      in case enforce_token_ceiling (reduced_content final_reduced) (builder_budget_tokens b) of
           (content, tokens, hard_truncated) \<Rightarrow>
             \<lparr>mat_content = content,
              mat_truncated = (asm_truncated st' \<or> reduced_truncated final_reduced \<or> hard_truncated),
              mat_chunks_read = asm_chunks_read st', mat_byte_count = total_bytes,
              mat_original_tokens = max (original_tokens final_reduced) (asm_last_original_tokens st'),
              mat_reduced_tokens = tokens\<rparr>)"

definition materialize :: "ContextBuilder \<Rightarrow> DurableArtifactRef \<Rightarrow> ContextBuilderError + MaterializedArtifact" where
  "materialize b artifact_ref =
     (let i = artifact_id artifact_ref in
      rbind (source_metadata (builder_source b) i) (\<lambda>found.
      rbind (ok_or found (MissingArtifact i)) (\<lambda>meta.
      rbind (materialize_loop b i (meta_byte_count meta) assembly_start) (\<lambda>st.
        Inr (finish_assembly b (meta_byte_count meta) st)))))"

section \<open>Windows are invisible\<close>

lemma utf8_tail_append:
  "utf8_tail b i n cs = i + n \<or> utf8_tail b i n cs < i + length cs \<Longrightarrow> utf8_tail b i n (cs @ ds) = utf8_tail b i n cs"
proof (induction b i n cs rule: utf8_tail.induct)
  case (3 b i n c cs)
  then show ?case by auto
qed auto

lemma utf8_tail_full: "utf8_tail b i n cs \<le> i + n \<and> utf8_tail b i n cs \<le> i + length cs"
  by (induction b i n cs rule: utf8_tail.induct) auto

lemma utf8_chunk_append:
  assumes "utf8_chunk c cs = (n, whole)" "whole \<or> \<not> (n = Suc (length cs) \<and> n < utf8_width (code c))"
  shows "utf8_chunk c (cs @ ds) = (n, whole)"
proof -
  let ?w = "utf8_width (code c)"
  have n: "n = utf8_tail (code c) 1 (?w - 1) cs" "whole = (n = ?w)" using assms(1) by (auto simp: utf8_chunk_def Let_def)
  have "n = 1 + (?w - 1) \<or> n < 1 + length cs"
    using assms(2) n(2) utf8_tail_full [of "code c" 1 "?w - 1" cs] unfolding n(1) by auto
  then show ?thesis using n utf8_tail_append [of "code c" 1 "?w - 1" cs ds] by (auto simp: utf8_chunk_def Let_def)
qed

lemma lossy_after_valid: "utf8_error a = None \<Longrightarrow> from_utf8_lossy (a @ b) = a @ from_utf8_lossy b"
proof (induction a rule: utf8_error.induct)
  case (2 c cs)
  obtain n whole where chunk: "utf8_chunk c cs = (n, whole)" by (rule prod.exhaust)
  note n = utf8_chunk_bounds [OF chunk]
  have whole: whole and rest: "utf8_error (drop (n - 1) cs) = None"
    using "2.prems" chunk by (auto simp: utf8_error.simps(2) split: if_splits)
  have "utf8_chunk c (cs @ b) = (n, whole)" using utf8_chunk_append [OF chunk] whole by simp
  moreover obtain m where "n = Suc m" "m \<le> length cs" using n by (cases n) auto
  ultimately show ?case
    using "2.IH" [OF chunk [symmetric] HOL.refl whole rest] whole by (simp add: from_utf8_lossy.simps(2))
qed simp

lemma lossy_at_error:
  "utf8_error a = Some (valid, e) \<Longrightarrow>
     from_utf8_lossy (a @ b) = take valid a @ from_utf8_lossy (drop valid a @ b)
     \<and> (\<forall>bad. e = Some bad \<longrightarrow>
          from_utf8_lossy (drop valid a @ b) = replacement_character @ from_utf8_lossy (drop (valid + bad) a @ b))"
proof (induction a arbitrary: valid rule: utf8_error.induct)
  case (2 c cs)
  obtain n whole where chunk: "utf8_chunk c cs = (n, whole)" by (rule prod.exhaust)
  note n = utf8_chunk_bounds [OF chunk]
  show ?case
  proof (cases whole)
    case True
    then obtain k where k: "utf8_error (drop (n - 1) cs) = Some (k, e)" "valid = n + k"
      using "2.prems" chunk by (auto simp: utf8_error.simps(2))
    have "utf8_chunk c (cs @ b) = (n, whole)" using utf8_chunk_append [OF chunk] True by simp
    moreover obtain m where "n = Suc m" using n by (cases n) auto
    moreover have "take (k + m) cs = take m cs @ take k (drop m cs)"
      using take_add [of m k cs] by (simp add: add.commute)
    ultimately show ?thesis
      using "2.IH" [OF chunk [symmetric] HOL.refl True k(1)] n True k(2)
      by (auto simp: from_utf8_lossy.simps(2) [of c "cs @ b"] drop_drop ac_simps)
  next
    case False
    then have e: "valid = 0" "e = (if n = Suc (length cs) \<and> n < utf8_width (code c) then None else Some n)"
      using "2.prems" chunk by (auto simp: utf8_error.simps(2))
    have "utf8_chunk c (cs @ b) = (n, whole)" if "e = Some bad" for bad
      using utf8_chunk_append [OF chunk] that e(2) by (auto split: if_splits)
    moreover obtain m where "n = Suc m" using n by (cases n) auto
    ultimately show ?thesis using e n False by (auto simp: from_utf8_lossy.simps(2) split: if_splits)
  qed
qed simp

text \<open>What follows a window may be decoded on its own once the carry is put before it.\<close>

lemma split_lossy:
  "split_utf8_prefix a = (v, rest) \<Longrightarrow> from_utf8_lossy (a @ b) = v @ from_utf8_lossy (rest @ b)"
proof (induction a arbitrary: v rule: split_utf8_prefix.induct)
  case (1 a)
  show ?case
  proof (cases "utf8_error a")
    case None
    then show ?thesis using "1.prems" lossy_after_valid [OF None, of b] by (simp add: split_utf8_prefix.simps [of a])
  next
    case (Some p)
    then obtain valid e where p: "utf8_error a = Some (valid, e)" by (cases p) simp
    show ?thesis
    proof (cases e)
      case None
      then show ?thesis using "1.prems" p lossy_at_error [OF p, of b] by (simp add: split_utf8_prefix.simps [of a])
    next
      case (Some bad)
      obtain decoded rest' where decoded: "split_utf8_prefix (drop (valid + bad) a) = (decoded, rest')" by (rule prod.exhaust)
      then have "v = take valid a @ replacement_character @ decoded" "rest = rest'"
        using "1.prems" p Some by (auto simp: split_utf8_prefix.simps [of a])
      then show ?thesis
        using "1.IH" [OF p HOL.refl Some] decoded lossy_at_error [OF p, of b] Some by simp
    qed
  qed
qed

section \<open>Properties\<close>

lemma reduce_within: "length s \<le> Text_Reduction.max_tokens budget * 4 \<Longrightarrow> reduce_output (new_without_rtk budget) s = unreduced s"
  by (simp add: reduce_output_def new_without_rtk_def Let_def estimate_tokens_le)

lemma enforce_bounds:
  "enforce_token_ceiling s limit = (content, tokens, hard) \<Longrightarrow>
     char_count content \<le> limit * 4 \<and> tokens \<le> limit \<and> prefix content s \<and> (\<not> hard \<longrightarrow> content = s \<and> length content \<le> limit * 4)"
  using char_count_le_length [of s] prefix_take_chars [of "limit * 4" s]
  by (auto simp: enforce_token_ceiling_def Let_def char_count_take_chars split: if_splits)

lemma loop_chunks:
  "materialize_loop b i n st = Inr st' \<Longrightarrow> asm_chunks_read st \<le> asm_offset st \<Longrightarrow>
     asm_chunks_read st' \<le> max (asm_chunks_read st) n"
proof (induction b i n st rule: materialize_loop.induct)
  case (1 b i n st)
  show ?case
  proof (cases "asm_offset st < n")
    case True
    then obtain bytes where read: "source_read_range (builder_source b) i (asm_offset st)
        (min (builder_chunk_size b) (n - asm_offset st)) = Inr bytes"
      using "1.prems"(1) by (auto simp: materialize_loop.simps [of b i n st] split: sum.splits)
    obtain v rest where split: "split_utf8_prefix (asm_carry st @ bytes) = (v, rest)" by (rule prod.exhaust)
    show ?thesis
    proof (cases "bytes = []")
      case False
      then have "Suc (asm_chunks_read st) \<le> asm_offset st + length bytes" using "1.prems"(2) by (cases bytes) auto
      then have "asm_chunks_read st' \<le> max (Suc (asm_chunks_read st)) n"
        using "1.IH" [OF True read HOL.refl False split [symmetric]] "1.prems"(1) True read split False
        by (auto simp: materialize_loop.simps [of b i n st])
      then show ?thesis using True "1.prems"(2) by simp
    qed (use 1 True read in \<open>auto simp: materialize_loop.simps [of b i n st]\<close>)
  qed (use 1 in \<open>auto simp: materialize_loop.simps [of b i n st]\<close>)
qed

lemma finish_bounds:
  "char_count (mat_content (finish_assembly b n st)) \<le> builder_budget_tokens b * 4
   \<and> mat_reduced_tokens (finish_assembly b n st) \<le> builder_budget_tokens b
   \<and> (\<not> mat_truncated (finish_assembly b n st) \<longrightarrow>
        length (mat_content (finish_assembly b n st)) \<le> builder_budget_tokens b * 4)
   \<and> mat_chunks_read (finish_assembly b n st) = asm_chunks_read st \<and> mat_byte_count (finish_assembly b n st) = n"
  by (auto simp: finish_assembly_def Let_def split: prod.split dest: enforce_bounds)

text \<open>
  C40. Whatever the artifact, its store and the size of the windows, the text that materializing puts
  into a prompt has at most four characters for each token of the budget and is charged with at most
  the budget; a text that is not marked as truncated has at most four bytes for each token; and no more
  windows are read than the artifact has bytes.
\<close>

theorem materialized_within_budget:
  assumes "materialize b a = Inr m"
  shows "char_count (mat_content m) \<le> builder_budget_tokens b * 4 \<and> mat_reduced_tokens m \<le> builder_budget_tokens b
    \<and> (\<not> mat_truncated m \<longrightarrow> length (mat_content m) \<le> builder_budget_tokens b * 4)
    \<and> mat_chunks_read m \<le> mat_byte_count m"
proof -
  obtain meta :: ArtifactMeta and st where "materialize_loop b (artifact_id a) (meta_byte_count meta) assembly_start = Inr st"
      "m = finish_assembly b (meta_byte_count meta) st"
    using assms unfolding materialize_def Let_def rbind_eq_Inr_iff sum.inject by blast
  then show ?thesis
    using finish_bounds [of b "meta_byte_count meta" st] loop_chunks [of b "artifact_id a" "meta_byte_count meta" assembly_start st]
    by (simp add: assembly_start_def)
qed

text \<open>The source holds these bytes, redaction leaves their text alone, and the text fits the budget.\<close>

definition plain_artifact :: "TokenBudget \<Rightarrow> string \<Rightarrow> bool" where
  "plain_artifact budget bytes \<longleftrightarrow>
     (\<forall>u. sublist u (from_utf8_lossy bytes) \<longrightarrow> redact_text u = u)
     \<and> length (from_utf8_lossy bytes) \<le> Text_Reduction.max_tokens budget * 4"

lemma durable_window:
  "durable_read_range (\<lambda>_. Inr bytes) i start (min chunk (length bytes - start)) = Inr (take chunk (drop start bytes))"
  by (auto simp: durable_read_range_def Let_def min_def)

lemma push_plain:
  assumes "plain_artifact budget bytes" "from_utf8_lossy bytes = asm_assembled st @ v @ u"
  shows "push_piece (new_without_rtk budget) v st =
    st\<lparr>asm_last_original_tokens := estimate_tokens (asm_assembled st @ v), asm_assembled := asm_assembled st @ v\<rparr>"
proof -
  have "redact_text v = v" using assms by (auto simp: plain_artifact_def)
  moreover have "length (asm_assembled st @ v) \<le> Text_Reduction.max_tokens budget * 4"
    using assms by (simp add: plain_artifact_def)
  ultimately show ?thesis by (simp add: push_piece_def Let_def reduce_within unreduced_def)
qed

lemma windows_step:
  assumes "0 < q" "0 < r"
  shows "Suc ((r - min q r + q - 1) div q) = (r + q - 1) div q"
proof -
  have "(r + q - 1) div q = ((r - 1) + q) div q" using assms by (intro arg_cong [of _ _ "\<lambda>x. x div q"]) simp
  then have "(r + q - 1) div q = Suc ((r - 1) div q)" using assms(1) by (simp only: div_add_self2)
  moreover have "(r - min q r + q - 1) div q = (r - 1) div q" using assms by (cases "q \<le> r") auto
  ultimately show ?thesis by simp
qed

lemma loop_plain:
  assumes "plain_artifact budget bytes" "0 < builder_chunk_size b" "builder_reducer b = new_without_rtk budget"
    and "builder_source b = durable_source rows (\<lambda>_. Inr bytes)"
    and "from_utf8_lossy bytes = asm_assembled st @ from_utf8_lossy (asm_carry st @ drop (asm_offset st) bytes)"
    and "asm_offset st \<le> length bytes" "\<not> asm_truncated st"
  shows "\<exists>st'. materialize_loop b i (length bytes) st = Inr st' \<and> \<not> asm_truncated st'
    \<and> from_utf8_lossy bytes = asm_assembled st' @ from_utf8_lossy (asm_carry st')
    \<and> asm_chunks_read st' = asm_chunks_read st + (length bytes - asm_offset st + builder_chunk_size b - 1) div builder_chunk_size b"
  using assms(5-7)
proof (induction "length bytes - asm_offset st" arbitrary: st rule: less_induct)
  case less
  let ?w = "take (builder_chunk_size b) (drop (asm_offset st) bytes)"
  show ?case
  proof (cases "asm_offset st < length bytes")
    case True
    have w: "?w \<noteq> []" using True assms(2) by simp
    obtain v rest where split: "split_utf8_prefix (asm_carry st @ ?w) = (v, rest)" by (rule prod.exhaust)
    define st1 where "st1 = st\<lparr>asm_chunks_read := asm_chunks_read st + 1, asm_offset := asm_offset st + length ?w, asm_carry := rest\<rparr>"
    have tail: "drop (asm_offset st + length ?w) bytes = drop (builder_chunk_size b) (drop (asm_offset st) bytes)"
      by (auto simp: min_def ac_simps)
    have "from_utf8_lossy (asm_carry st @ drop (asm_offset st) bytes)
        = v @ from_utf8_lossy (rest @ drop (asm_offset st + length ?w) bytes)"
      unfolding tail using split_lossy [OF split, of "drop (builder_chunk_size b) (drop (asm_offset st) bytes)"]
      by (simp del: drop_drop)
    then have shown: "from_utf8_lossy bytes = asm_assembled st1 @ v @ from_utf8_lossy (rest @ drop (asm_offset st1) bytes)"
      using less.prems(1) by (simp add: st1_def)
    define st2 where "st2 = push_piece (builder_reducer b) v st1"
    have st2: "st2 = st1\<lparr>asm_last_original_tokens := estimate_tokens (asm_assembled st1 @ v), asm_assembled := asm_assembled st1 @ v\<rparr>"
      unfolding st2_def assms(3) by (rule push_plain [OF assms(1) shown])
    have "materialize_loop b i (length bytes) st = materialize_loop b i (length bytes) st2"
      using True w split by (simp add: materialize_loop.simps [of b i _ st] assms(4) durable_source_def durable_window st1_def st2_def)
    moreover have "\<exists>st'. materialize_loop b i (length bytes) st2 = Inr st' \<and> \<not> asm_truncated st'
        \<and> from_utf8_lossy bytes = asm_assembled st' @ from_utf8_lossy (asm_carry st')
        \<and> asm_chunks_read st' = asm_chunks_read st2 + (length bytes - asm_offset st2 + builder_chunk_size b - 1) div builder_chunk_size b"
      by (rule less.hyps) (use shown less.prems True assms(2) in \<open>auto simp: st2 st1_def\<close>)
    moreover have "Suc ((length bytes - (asm_offset st + length ?w) + builder_chunk_size b - 1) div builder_chunk_size b)
        = (length bytes - asm_offset st + builder_chunk_size b - 1) div builder_chunk_size b"
      using windows_step [OF assms(2), of "length bytes - asm_offset st"] True by (simp add: min.commute)
    ultimately show ?thesis by (auto simp: st2 st1_def)
  qed (use less.prems assms(2) in \<open>auto simp: materialize_loop.simps [of b i _ st]\<close>)
qed


text \<open>Text without separators, blanks, dashes and line ends passes the redaction unchanged.\<close>

lemma suffix_trim_start: "suffix (trim_start s) s"
proof (induction s rule: trim_start.induct)
  case (1 s)
  then show ?case
    by (subst trim_start.simps) (auto intro: suffix_order.trans [OF _ suffix_drop])
qed

lemma redact_plain:
  assumes "set u \<inter> {CHR ''='', CHR '':'', CHR '' '', CHR ''-'', newline} = {}"
  shows "redact_text u = u"
proof (cases "u = []")
  case False
  have "\<not> is_authorization u"
  proof
    assume "is_authorization u"
    then have "CHR '':'' \<in> set (to_ascii_uppercase (trim_start u)) \<or> CHR '' '' \<in> set (to_ascii_uppercase (trim_start u))"
      by (auto simp: is_authorization_def Let_def starts_with_def dest!: set_mono_prefix)
    then have "CHR '':'' \<in> set (trim_start u) \<or> CHR '' '' \<in> set (trim_start u)"
      using upper_fixed [of "CHR '':''"] upper_fixed [of "CHR '' ''"] by simp
    then show False using assms suffix_trim_start [of u] by (auto dest: set_mono_suffix)
  qed
  then have "redact_line u = u" using assms by (intro redact_line_plain) auto
  moreover have "\<not> begins_key u" using begins_key_dash [of u] assms by auto
  moreover have "newline \<notin> set u" using assms by simp
  ultimately show ?thesis
    using False by (simp add: redact_text_def split_inclusive_no_sep)
qed (simp add: redact_text_def)

definition cafe :: string where
  "cafe = ''caf'' @ [CHR 0xC3, CHR 0xA9, CHR ''s'', CHR 0xFF]"

definition cafe_rows :: "string \<Rightarrow> string + ArtifactMeta option" where
  "cafe_rows i = Inr (Some \<lparr>artifact_meta_id = i, meta_byte_count = 7, meta_created_unix_ms = 0, meta_sha256 = [], meta_content_type = None\<rparr>)"

lemma cafe_text: "from_utf8_lossy cafe = ''caf'' @ [CHR 0xC3, CHR 0xA9, CHR ''s'', CHR 0xEF, CHR 0xBF, CHR 0xBD]"
  by code_simp

lemma cafe_length: "length cafe = 7"
  by (simp add: cafe_def)

lemma cafe_plain: "plain_artifact \<lparr>max_tokens = 3\<rparr> cafe"
  unfolding plain_artifact_def cafe_text
  by (auto intro!: redact_plain dest!: set_mono_sublist)


text \<open>
  The windows are redacted one by one, so a key that a window cuts is not recognised: the value of
  a secret comes out although redacting the text as a whole hides it. The windows have three bytes
  here to keep the example short.
\<close>

definition held :: "string \<Rightarrow> nat \<Rightarrow> nat \<Rightarrow> ContextBuilder" where
  "held bytes chunk_size tokens =
     \<lparr>builder_source = durable_source (\<lambda>i. Inr (Some \<lparr>artifact_meta_id = i, meta_byte_count = length bytes,
        meta_created_unix_ms = 0, meta_sha256 = [], meta_content_type = None\<rparr>)) (\<lambda>_. Inr bytes),
      builder_reducer = new_without_rtk \<lparr>max_tokens = tokens\<rparr>, builder_budget_tokens = tokens,
      builder_chunk_size = chunk_size\<rparr>"

definition held_ref :: ArtifactRef where
  "held_ref = \<lparr>artifact_id = ''a'', artifact_byte_count = 0\<rparr>"

lemma secret_across_windows:
  "map_sum id mat_content (materialize (held ''TOKEN=ab'' 3 9) held_ref) = Inr ''TOKEN=ab''"
  "redact_text ''TOKEN=ab'' = ''TOKEN=[REDACTED]''"
  by code_simp+

text \<open>
  The ceiling counts characters where the estimate counts bytes: eight bytes, two tokens by the
  estimate, pass a budget of one and are reported as one.
\<close>

definition accents :: string where
  "accents = concat (replicate 5 [CHR 0xC3, CHR 0xA9])"

lemma wide_text_over_budget:
  "map_sum id (\<lambda>m. (length (mat_content m), mat_reduced_tokens m)) (materialize (held accents 4 1) held_ref) = Inr (8, 1)"
  by code_simp

theorem materialized_within_budget_witness:
  "\<exists>m. materialize (held accents 4 1) held_ref = Inr m \<and> char_count (mat_content m) \<le> 4 \<and> mat_reduced_tokens m \<le> 1
     \<and> mat_chunks_read m \<le> mat_byte_count m \<and> length (mat_content m) = 8"
proof -
  obtain m where m: "materialize (held accents 4 1) held_ref = Inr m" "length (mat_content m) = 8"
    using wide_text_over_budget by (cases "materialize (held accents 4 1) held_ref") auto
  moreover have "builder_budget_tokens (held accents 4 1) = 1"
    by (simp add: held_def)
  ultimately show ?thesis using materialized_within_budget [OF m(1)] by simp
qed

end
