(* ===== verification/Agent_Loop.thy ===== *)
theory Agent_Loop
  imports Tool_Orchestrator Context_Builder
begin

text \<open>
  The agent loop of \<open>crates/impetus-core/src/agent_loop.rs\<close>: a model turn, the tools it asks for, their
  observations as messages of the next turn, until a turn asks for no tool. The queue of steering
  fragments of \<open>steer_rewrite.rs\<close> and the stream events of \<open>provider_trait.rs\<close> are here too.

  A model provider is a parameter: for the messages and its own state it gives the items of a stream,
  how the stream ends, and its next state. An item is an event for the callback or a call of the
  runtime that it was handed, which only the adapter for external agents makes. \<open>prov_relay\<close> is what
  a provider returns when the callback fails. Stamps, the time, cancellation and what the harness
  pushes into the queue meanwhile come with the draws of an iteration.
\<close>

section \<open>Steering\<close>

type_synonym SteerPendingQueue = "uuid \<rightharpoonup> string list"

definition steer_push :: "uuid \<Rightarrow> string \<Rightarrow> SteerPendingQueue \<Rightarrow> SteerPendingQueue" where
  "steer_push sid fragment q =
     (if fragment = [] then q else q(sid \<mapsto> unwrap_or (q sid) [] @ [fragment]))"

definition steer_drain :: "uuid \<Rightarrow> SteerPendingQueue \<Rightarrow> string list \<times> SteerPendingQueue" where
  "steer_drain sid q = (unwrap_or (q sid) [], q(sid := None))"

definition steer_pending_count :: "uuid \<Rightarrow> SteerPendingQueue \<Rightarrow> nat" where
  "steer_pending_count sid q = unwrap_or (map_option length (q sid)) 0"

record SteerActiveContext =
  steer_session_id :: uuid
  steer_active_run_id :: uuid
  steer_active_prompt :: "string option"

record SteerRewriteOutput =
  steer_fragment :: string
  steer_messages :: "ProviderMessage list"

definition from_fragment :: "string \<Rightarrow> SteerRewriteOutput" where
  "from_fragment fragment = \<lparr>steer_fragment = fragment, steer_messages = [user_message fragment]\<rparr>"

definition passthrough_rewrite :: "SteerActiveContext \<Rightarrow> string \<Rightarrow> SteerRewriteOutput" where
  "passthrough_rewrite context steer_text =
     from_fragment (case steer_active_prompt context of
        Some prompt \<Rightarrow>
          if prompt \<noteq> [] then prompt @ [newline, newline] @ ''[steer] '' @ steer_text else ''[steer] '' @ steer_text
      | None \<Rightarrow> ''[steer] '' @ steer_text)"

definition build_rewrite_messages :: "SteerActiveContext \<Rightarrow> string \<Rightarrow> ProviderMessage list" where
  "build_rewrite_messages context steer_text =
     [system_message (''Rewrite the user'' @ [CHR 0x27] @ ''s steer instruction into a concise nudge for the active coding agent. ''
        @ ''Output only the nudge text with no preamble.''),
      user_message (case steer_active_prompt context of
        Some prompt \<Rightarrow>
          if prompt \<noteq> [] then ''Active task:'' @ newline # prompt @ [newline, newline]
            @ ''Steer instruction:'' @ newline # steer_text
          else ''Steer instruction:'' @ newline # steer_text
      | None \<Rightarrow> ''Steer instruction:'' @ newline # steer_text)]"

section \<open>Providers\<close>

datatype FinishReason = Stop | Length | ToolCalls | ContentFilter | Other

datatype StreamEvent =
    TextDelta string
  | ToolCall string string json
  | Usage u64 u64 bool
  | Finish FinishReason
  | Reasoning string

datatype ProviderError =
    InvalidProfile string
  | MissingCredential
  | Cancelled
  | InterruptedUnknown string
  | RequestFailed string
  | MalformedStream
  | RateLimited string
  | Network string
  | Timeout
  | ModelUnavailable string
  | MalformedToolCall string

fun provider_error_text :: "ProviderError \<Rightarrow> string" where
  "provider_error_text (InvalidProfile e) = ''invalid provider profile: '' @ e"
| "provider_error_text MissingCredential = ''provider credential is required but unavailable''"
| "provider_error_text ProviderError.Cancelled = ''provider request cancelled''"
| "provider_error_text (ProviderError.InterruptedUnknown e) = ''provider interrupted with unknown outcome: '' @ e"
| "provider_error_text (RequestFailed e) = ''provider request failed: '' @ e"
| "provider_error_text MalformedStream = ''provider returned malformed stream''"
| "provider_error_text (RateLimited e) = ''rate limit exceeded: '' @ e"
| "provider_error_text (Network e) = ''network error: '' @ e"
| "provider_error_text Timeout = ''timeout''"
| "provider_error_text (ModelUnavailable e) = ''model unavailable: '' @ e"
| "provider_error_text (MalformedToolCall e) = ''malformed tool call: '' @ e"

fun is_transient :: "ProviderError \<Rightarrow> bool" where
  "is_transient (RateLimited _) = True"
| "is_transient (Network _) = True"
| "is_transient Timeout = True"
| "is_transient (ModelUnavailable _) = True"
| "is_transient _ = False"

datatype 's stream_item = Emit StreamEvent | Act "'s \<Rightarrow> 's"

record ('s, 'p) ModelProvider =
  prov_stream :: "ProviderMessage list \<Rightarrow> 'p \<Rightarrow> 's stream_item list \<times> (ProviderError + unit) \<times> 'p"
  prov_relay :: "ProviderError \<Rightarrow> ProviderError"

text \<open>The rewrite through a provider, and its fallback.\<close>

definition emitted_text :: "'s stream_item list \<Rightarrow> string" where
  "emitted_text items = concat (List.map_filter (\<lambda>i. case i of Emit (TextDelta delta) \<Rightarrow> Some delta | _ \<Rightarrow> None) items)"

definition collect_provider_fragment ::
    "('s, 'p) ModelProvider \<Rightarrow> SteerActiveContext \<Rightarrow> string \<Rightarrow> 'p \<Rightarrow> (ProviderError + string) \<times> 'p" where
  "collect_provider_fragment P context steer_text p =
     (case prov_stream P (build_rewrite_messages context steer_text) p of (items, result, p') \<Rightarrow>
        (rbind result (\<lambda>_. Inr (trim (emitted_text items))), p'))"

definition provider_rewrite ::
    "('s, 'p) ModelProvider \<Rightarrow> SteerActiveContext \<Rightarrow> string \<Rightarrow> 'p \<Rightarrow> SteerRewriteOutput \<times> 'p" where
  "provider_rewrite P context steer_text p =
     (case collect_provider_fragment P context steer_text p of
        (Inr fragment, p') \<Rightarrow>
          (if fragment \<noteq> [] then from_fragment fragment else passthrough_rewrite context steer_text, p')
      | (Inl _, p') \<Rightarrow> (passthrough_rewrite context steer_text, p'))"

section \<open>The loop and its state\<close>

definition MAX_ITERATIONS :: nat where
  "MAX_ITERATIONS = 50"

definition MAX_RETRY_ATTEMPTS :: nat where
  "MAX_RETRY_ATTEMPTS = 3"

definition INITIAL_BACKOFF_MS :: nat where
  "INITIAL_BACKOFF_MS = 1000"

definition BACKOFF_MULTIPLIER :: nat where
  "BACKOFF_MULTIPLIER = 2"

definition AGENT_CHUNK_COALESCE_BYTES :: nat where
  "AGENT_CHUNK_COALESCE_BYTES = 512"

datatype AgentLoopError =
    Runtime RuntimeError
  | Provider ProviderError
  | Orchestrator OrchestratorError
  | Budget BudgetError
  | MaxIterationsExceeded
  | Cancelled

definition inject_memory_context :: "ProviderMessage list \<Rightarrow> string option \<Rightarrow> ProviderMessage list" where
  "inject_memory_context messages block =
     (case map_option trim block of
        Some trimmed \<Rightarrow>
          if trimmed \<noteq> []
          then takeWhile is_system messages @ system_message trimmed # dropWhile is_system messages
          else messages
      | None \<Rightarrow> messages)"

record ('s, 'w, 'p, 'u) AgentLoop =
  loop_store :: "'s EventStore"
  loop_rows :: "'s BudgetStore"
  loop_env :: "'u tool_env"
  loop_orchestrator :: "'w ToolOrchestrator"
  loop_spawn :: "(tool_draws \<times> ToolCall) list \<Rightarrow> 's \<Rightarrow> 'w \<Rightarrow> ToolObservation option list \<times> 's \<times> 'w"
  loop_provider :: "('s, 'p) ModelProvider"
  loop_chunk_store :: "artifact_store option"
  loop_compaction_store :: "artifact_writer option"
  loop_source :: "ArtifactRangeSource option"
  loop_pack_json :: "ObservationPack \<Rightarrow> string + string"

record ('s, 'w, 'p) loop_state =
  lst_runtime :: AgentRuntime
  lst_store :: 's
  lst_world :: 'w
  lst_provider :: 'p
  lst_queue :: "SteerPendingQueue option"

record model_draws =
  md_now :: nat
  md_chunk :: "nat \<Rightarrow> stamp"
  md_reasoning :: "nat \<Rightarrow> stamp"
  md_flush :: stamp
  md_limit :: stamp
  md_updated :: stamp
  md_turn_warning :: stamp
  md_token_warning :: stamp
  md_retry :: stamp
  md_cancelled :: bool

record loop_draws =
  ld_cancelled :: bool
  ld_pushed :: "(uuid \<times> string) list"
  ld_compaction :: "nat \<times> stamp \<times> stamp \<times> stamp"
  ld_attempt :: "nat \<Rightarrow> model_draws"
  ld_tool :: "nat \<Rightarrow> tool_draws"
  ld_final :: stamp

definition loop_record ::
    "('s, 'w, 'p, 'u) AgentLoop \<Rightarrow> stamp \<Rightarrow> EventPayload \<Rightarrow> ('s, 'w, 'p) loop_state
     \<Rightarrow> (AgentLoopError + unit) \<times> ('s, 'w, 'p) loop_state" where
  "loop_record L t pay st =
     (case runtime_record (loop_store L) (lst_runtime st) t pay (lst_store st) of
        (r, s') \<Rightarrow> (map_sum AgentLoopError.Runtime id r, st\<lparr>lst_store := s'\<rparr>))"

section \<open>One model call\<close>

record TurnAccumulator =
  acc_text :: string
  acc_tool_calls :: "ToolCall list"
  acc_usage :: "(u64 \<times> u64 \<times> bool) option"
  acc_finish_reason :: "FinishReason option"

record ModelTurnResult =
  turn_text :: string
  turn_tool_calls :: "ToolCall list"
  turn_measured_usage :: "(u64 \<times> u64) option"

text \<open>What the callback shares with the caller, the store included.\<close>

record 's stream_state =
  ss_buf :: string
  ss_chunk_id :: nat
  ss_acc :: TurnAccumulator
  ss_store :: 's

definition flush_coalesced_chunk ::
    "('s, 'w, 'p, 'u) AgentLoop \<Rightarrow> AgentRuntime \<Rightarrow> stamp \<Rightarrow> uuid \<Rightarrow> bool \<Rightarrow> 's stream_state
     \<Rightarrow> (ProviderError + unit) \<times> 's stream_state" where
  "flush_coalesced_chunk L rt t run_id force st =
     (if ss_buf st = [] then (Inr (), st)
      else if \<not> force \<and> length (ss_buf st) < AGENT_CHUNK_COALESCE_BYTES then (Inr (), st)
      else (case record_agent_chunk (loop_store L) rt (loop_chunk_store L) t run_id (ss_chunk_id st) (ss_buf st)
                   (ss_store st) of
              (r, s') \<Rightarrow>
                (map_sum (\<lambda>e. RequestFailed (runtime_error_text (loop_store L) (env_uuid_text (loop_env L)) e)) (\<lambda>_. ()) r,
                 st\<lparr>ss_buf := [], ss_chunk_id := ss_chunk_id st + 1, ss_store := s'\<rparr>)))"

fun on_event ::
    "('s, 'w, 'p, 'u) AgentLoop \<Rightarrow> AgentRuntime \<Rightarrow> stamp \<times> stamp \<Rightarrow> uuid \<Rightarrow> StreamEvent \<Rightarrow> 's stream_state
     \<Rightarrow> (ProviderError + unit) \<times> 's stream_state" where
  "on_event L rt t run_id (TextDelta delta) st =
     sbind (flush_coalesced_chunk L rt (fst t) run_id False (st\<lparr>ss_buf := ss_buf st @ delta\<rparr>)) (\<lambda>_ st'.
       (Inr (), st'\<lparr>ss_acc := (ss_acc st')\<lparr>acc_text := acc_text (ss_acc st') @ delta\<rparr>\<rparr>))"
| "on_event L rt t run_id (StreamEvent.ToolCall i name arguments) st =
     sbind (flush_coalesced_chunk L rt (fst t) run_id True st) (\<lambda>_ st'.
       (Inr (), st'\<lparr>ss_acc := (ss_acc st')\<lparr>acc_tool_calls := acc_tool_calls (ss_acc st')
          @ [\<lparr>call_id = i, call_name = name, call_arguments = arguments\<rparr>]\<rparr>\<rparr>))"
| "on_event L rt t run_id (StreamEvent.Usage prompt_tokens completion_tokens measured) st =
     (Inr (), st\<lparr>ss_acc := (ss_acc st)\<lparr>acc_usage := Some (prompt_tokens, completion_tokens, measured)\<rparr>\<rparr>)"
| "on_event L rt t run_id (Finish reason) st =
     sbind (flush_coalesced_chunk L rt (fst t) run_id True st) (\<lambda>_ st'.
       (Inr (), st'\<lparr>ss_acc := (ss_acc st')\<lparr>acc_finish_reason := Some reason\<rparr>\<rparr>))"
| "on_event L rt t run_id (Reasoning content) st =
     sbind (flush_coalesced_chunk L rt (fst t) run_id True st) (\<lambda>_ st'.
       (case record_agent_reasoning_summary (loop_store L) rt (snd t) run_id content (ss_store st') of
          (r, s') \<Rightarrow>
            (map_sum (\<lambda>e. RequestFailed (runtime_error_text (loop_store L) (env_uuid_text (loop_env L)) e)) (\<lambda>_. ()) r,
             st'\<lparr>ss_store := s'\<rparr>)))"

fun run_stream ::
    "('s, 'w, 'p, 'u) AgentLoop \<Rightarrow> AgentRuntime \<Rightarrow> model_draws \<Rightarrow> uuid \<Rightarrow> nat \<Rightarrow> 's stream_item list \<Rightarrow> 's stream_state
     \<Rightarrow> (ProviderError + unit) \<times> 's stream_state" where
  "run_stream L rt d run_id k [] st = (Inr (), st)"
| "run_stream L rt d run_id k (Act f # items) st =
     run_stream L rt d run_id (Suc k) items (st\<lparr>ss_store := f (ss_store st)\<rparr>)"
| "run_stream L rt d run_id k (Emit event # items) st =
     sbind (on_event L rt (md_chunk d k, md_reasoning d k) run_id event st) (\<lambda>_ st'.
       run_stream L rt d run_id (Suc k) items st')"

definition stream_messages ::
    "('s, 'w, 'p, 'u) AgentLoop \<Rightarrow> AgentRuntime \<Rightarrow> model_draws \<Rightarrow> uuid \<Rightarrow> ProviderMessage list \<Rightarrow> 'p \<Rightarrow> 's stream_state
     \<Rightarrow> (ProviderError + unit) \<times> 's stream_state \<times> 'p" where
  "stream_messages L rt d run_id messages p st =
     (case prov_stream (loop_provider L) messages p of (items, result, p') \<Rightarrow>
        (case run_stream L rt d run_id 0 items st of
           (Inl e, st') \<Rightarrow> (Inl (prov_relay (loop_provider L) e), st', p')
         | (Inr _, st') \<Rightarrow> (result, st', p')))"

definition estimate_request_tokens :: "ProviderMessage list \<Rightarrow> u64" where
  "estimate_request_tokens messages = of_nat (max (sum_list (map (\<lambda>m. length (message_content m)) messages) div 4) 100)"

definition estimate_response_tokens :: "string \<Rightarrow> u64" where
  "estimate_response_tokens response = of_nat (max (length response div 4) 50)"

definition emit_budget_limit_event ::
    "('s, 'w, 'p, 'u) AgentLoop \<Rightarrow> stamp \<Rightarrow> BudgetError \<Rightarrow> ('s, 'w, 'p) loop_state
     \<Rightarrow> (AgentLoopError + unit) \<times> ('s, 'w, 'p) loop_state" where
  "emit_budget_limit_event L t error st =
     (case error of
        TurnLimitExceeded limit used \<Rightarrow> loop_record L t (EventPayload.Budget (TurnLimitApproaching limit used)) st
      | TokenLimitExceeded limit used _ \<Rightarrow> loop_record L t (EventPayload.Budget (TokenLimitApproaching limit used)) st
      | _ \<Rightarrow> (Inr (), st))"

text \<open>
  \<open>(used as f64 / limit as f64 * 100.0) as u8\<close>; the division by zero is infinite, or not a number when
  nothing is used, and the conversion saturates and takes the latter to zero.
\<close>

definition used_percent :: "nat \<Rightarrow> nat \<Rightarrow> nat" where
  "used_percent used limit =
     (if limit = 0 then (if used = 0 then 0 else 255)
      else min 255 (f64_floor (f64_mult (f64_div (f64_of_nat used) (f64_of_nat limit)) (f64_of_nat 100))))"

definition approaching :: "nat \<Rightarrow> nat \<Rightarrow> bool" where
  "approaching used limit \<longleftrightarrow> 80 \<le> used_percent used limit \<and> used_percent used limit < 100"

definition emit_approaching_warnings ::
    "('s, 'w, 'p, 'u) AgentLoop \<Rightarrow> model_draws \<Rightarrow> BudgetConfig \<Rightarrow> BudgetState \<Rightarrow> ('s, 'w, 'p) loop_state
     \<Rightarrow> (AgentLoopError + unit) \<times> ('s, 'w, 'p) loop_state" where
  "emit_approaching_warnings L d config state st =
     sbind (case max_turns config of
              Some limit \<Rightarrow>
                if approaching (unat (turns_used state)) (unat limit)
                then loop_record L (md_turn_warning d)
                       (EventPayload.Budget (TurnLimitApproaching limit (turns_used state))) st
                else (Inr (), st)
            | None \<Rightarrow> (Inr (), st)) (\<lambda>_ st1.
       case Budget.max_tokens config of
         Some limit \<Rightarrow>
           if approaching (unat (tokens_used state)) (unat limit)
           then loop_record L (md_token_warning d)
                  (EventPayload.Budget (TokenLimitApproaching limit (tokens_used state))) st1
           else (Inr (), st1)
       | None \<Rightarrow> (Inr (), st1))"

text \<open>The id after the last chunk of the run, from the events of the session.\<close>

definition next_chunk_of :: "uuid \<Rightarrow> Event \<Rightarrow> nat option" where
  "next_chunk_of run_id e =
     (case payload e of
        EventPayload.Agent (Chunk event_run chunk _ _) \<Rightarrow> if event_run = run_id then Some (chunk + 1) else None
      | _ \<Rightarrow> None)"

text \<open>What follows the stream of a call: the last flush, the turn in the budget, and its events.\<close>

definition record_usage_events ::
    "('s, 'w, 'p, 'u) AgentLoop \<Rightarrow> model_draws \<Rightarrow> ('s, 'w, 'p) loop_state
     \<Rightarrow> (AgentLoopError + unit) \<times> ('s, 'w, 'p) loop_state" where
  "record_usage_events L d st =
     (case runtime_budget (lst_runtime st) of
        None \<Rightarrow> (Inr (), st)
      | Some checker \<Rightarrow>
          (let state = checker_state checker; config = checker_config checker;
               context_percent = (case context_limit config of
                   Some limit \<Rightarrow> context_used_percent state limit | None \<Rightarrow> 0)
           in sbind (loop_record L (md_updated d) (EventPayload.Budget (Updated (turns_used state) (tokens_used state)
                (0 < measured_tokens state) (compaction_count state) context_percent)) st) (\<lambda>_ st1.
              emit_approaching_warnings L d config state st1)))"

definition measured_usage :: "TurnAccumulator \<Rightarrow> (u64 \<times> u64) option" where
  "measured_usage acc =
     (case acc_usage acc of Some (p, c, measured) \<Rightarrow> if measured then Some (p, c) else None | None \<Rightarrow> None)"

definition turn_usage :: "u64 \<Rightarrow> TurnAccumulator \<Rightarrow> u64 \<times> bool" where
  "turn_usage estimated acc =
     (case measured_usage acc of
        Some (prompt, completion) \<Rightarrow> (prompt + completion, True)
      | None \<Rightarrow> (estimated + estimate_response_tokens (acc_text acc), False))"

definition loop_record_turn ::
    "('s, 'w, 'p, 'u) AgentLoop \<Rightarrow> u64 \<times> bool \<Rightarrow> ('s, 'w, 'p) loop_state
     \<Rightarrow> (AgentLoopError + unit) \<times> ('s, 'w, 'p) loop_state" where
  "loop_record_turn L usage st =
     (case runtime_record_turn_with_usage (loop_rows L) (fst usage) (snd usage) (lst_runtime st) (lst_store st) of
        (r, rt', s') \<Rightarrow> (map_sum AgentLoopError.Runtime id r, st\<lparr>lst_runtime := rt', lst_store := s'\<rparr>))"

definition finish_turn ::
    "('s, 'w, 'p, 'u) AgentLoop \<Rightarrow> model_draws \<Rightarrow> u64 \<Rightarrow> TurnAccumulator \<Rightarrow> ('s, 'w, 'p) loop_state
     \<Rightarrow> (AgentLoopError + ModelTurnResult) \<times> ('s, 'w, 'p) loop_state" where
  "finish_turn L d estimated acc st =
     sbind (loop_record_turn L (turn_usage estimated acc) st) (\<lambda>_ st1.
     sbind (record_usage_events L d st1) (\<lambda>_ st2.
       (Inr \<lparr>turn_text = acc_text acc, turn_tool_calls = acc_tool_calls acc,
             turn_measured_usage = measured_usage acc\<rparr>, st2)))"

definition fresh_acc :: TurnAccumulator where
  "fresh_acc = \<lparr>acc_text = [], acc_tool_calls = [], acc_usage = None, acc_finish_reason = None\<rparr>"

definition call_model ::
    "('s, 'w, 'p, 'u) AgentLoop \<Rightarrow> model_draws \<Rightarrow> uuid \<Rightarrow> ProviderMessage list \<Rightarrow> ('s, 'w, 'p) loop_state
     \<Rightarrow> (AgentLoopError + ModelTurnResult) \<times> ('s, 'w, 'p) loop_state" where
  "call_model L d run_id messages st =
     (let rt = lst_runtime st; estimated = estimate_request_tokens messages in
      if status (loop_store L) rt (lst_store st) \<noteq> Inr RuntimeStatus.Running
      then (Inl (AgentLoopError.Runtime (InactiveRun run_id)), st)
      else (case check_budget (md_now d) estimated rt of
              Inl e \<Rightarrow> sbind (emit_budget_limit_event L (md_limit d) e st) (\<lambda>_ st1. (Inl (AgentLoopError.Budget e), st1))
            | Inr _ \<Rightarrow>
                (case runtime_events (loop_store L) rt (lst_store st) of
                   Inl e \<Rightarrow> (Inl (AgentLoopError.Runtime e), st)
                 | Inr events \<Rightarrow>
                     (let start = \<lparr>ss_buf = [], ss_chunk_id = unwrap_or (find_map (next_chunk_of run_id) (rev events)) 1,
                                   ss_acc = fresh_acc, ss_store = lst_store st\<rparr>
                      in case stream_messages L rt d run_id messages (lst_provider st) start of
                           (Inl e, ss, p') \<Rightarrow> (Inl (Provider e), st\<lparr>lst_store := ss_store ss, lst_provider := p'\<rparr>)
                         | (Inr _, ss, p') \<Rightarrow>
                             (case flush_coalesced_chunk L rt (md_flush d) run_id True ss of
                                (Inl e, ss') \<Rightarrow>
                                  (Inl (Provider e), st\<lparr>lst_store := ss_store ss', lst_provider := p'\<rparr>)
                              | (Inr _, ss') \<Rightarrow>
                                  finish_turn L d estimated (ss_acc ss')
                                    (st\<lparr>lst_store := ss_store ss', lst_provider := p'\<rparr>))))))"

section \<open>Retries\<close>

text \<open>\<open>attempt\<close> counts the calls that have been made.\<close>

function call_model_with_retry ::
    "('s, 'w, 'p, 'u) AgentLoop \<Rightarrow> (nat \<Rightarrow> model_draws) \<Rightarrow> uuid \<Rightarrow> ProviderMessage list \<Rightarrow> nat \<Rightarrow> ('s, 'w, 'p) loop_state
     \<Rightarrow> (AgentLoopError + ModelTurnResult) \<times> ('s, 'w, 'p) loop_state" where
  "call_model_with_retry L D run_id messages made st =
     (let attempt = Suc made; d = D made in
      case call_model L d run_id messages st of
        (Inr turn, st1) \<Rightarrow>
          if 1 < attempt
          then sbind (loop_record L (md_retry d) (Retry (RetryEvent.Succeeded (of_nat attempt))) st1) (\<lambda>_ st2. (Inr turn, st2))
          else (Inr turn, st1)
      | (Inl (Provider e), st1) \<Rightarrow>
          if is_transient e \<and> attempt < MAX_RETRY_ATTEMPTS
          then (case loop_record L (md_retry d) (Retry (RetryEvent.Attempting (of_nat attempt) (of_nat MAX_RETRY_ATTEMPTS)
                       (provider_error_text e) (INITIAL_BACKOFF_MS * BACKOFF_MULTIPLIER ^ (attempt - 1)))) st1 of
                  (Inl err, st2) \<Rightarrow> (Inl err, st2)
                | (Inr _, st2) \<Rightarrow>
                    if md_cancelled d then (Inl AgentLoopError.Cancelled, st2)
                    else call_model_with_retry L D run_id messages attempt st2)
          else if 1 < attempt
          then sbind (loop_record L (md_retry d) (Retry (RetryEvent.Exhausted (of_nat attempt) (provider_error_text e))) st1)
                 (\<lambda>_ st2. (Inl (Provider e), st2))
          else (Inl (Provider e), st1)
      | (Inl other, st1) \<Rightarrow> (Inl other, st1))"
  by pat_completeness auto
termination
  by (relation "measure (\<lambda>(L, D, r, m, made, st). MAX_RETRY_ATTEMPTS - made)") auto

declare call_model_with_retry.simps [simp del]

section \<open>Iterations\<close>

definition drain_steering ::
    "(uuid \<times> string) list \<Rightarrow> ('s, 'w, 'p) loop_state \<Rightarrow> string list \<times> ('s, 'w, 'p) loop_state" where
  "drain_steering pushed st =
     (case lst_queue st of
        None \<Rightarrow> ([], st)
      | Some q \<Rightarrow>
          (case steer_drain (runtime_session_id (lst_runtime st)) (fold (\<lambda>(sid, x). steer_push sid x) pushed q) of
             (fragments, q') \<Rightarrow> (fragments, st\<lparr>lst_queue := Some q'\<rparr>)))"

definition compact_messages ::
    "('s, 'w, 'p, 'u) AgentLoop \<Rightarrow> nat \<times> stamp \<times> stamp \<times> stamp \<Rightarrow> ProviderMessage list \<Rightarrow> ('s, 'w, 'p) loop_state
     \<Rightarrow> (AgentLoopError + ProviderMessage list) \<times> ('s, 'w, 'p) loop_state" where
  "compact_messages L t messages st =
     (if compaction_needed (lst_runtime st) = None then (Inr messages, st)
      else (case run_durable_compaction_with_store (loop_store L) (loop_rows L) (fst t) (snd t) messages
                   (loop_compaction_store L) (lst_runtime st) (lst_store st) of
              (r, rt', s') \<Rightarrow> (map_sum AgentLoopError.Runtime id r, st\<lparr>lst_runtime := rt', lst_store := s'\<rparr>)))"

definition ARTIFACT_BUDGET :: TokenBudget where
  "ARTIFACT_BUDGET = \<lparr>max_tokens = 2000\<rparr>"

definition observed_call :: "Event \<Rightarrow> (string \<times> nat) option" where
  "observed_call e =
     (case payload e of Tool (ToolEvent.Observed i _ _ _ _ _ _) \<Rightarrow> Some (i, sequence e) | _ \<Rightarrow> None)"

definition event_seq_by_call :: "Event list \<Rightarrow> string \<rightharpoonup> nat" where
  "event_seq_by_call events = map_of (rev (List.map_filter observed_call events))"

definition materialize_observation :: "ArtifactRangeSource option \<Rightarrow> ToolObservation \<Rightarrow> ToolObservation" where
  "materialize_observation source obs =
     (case (obs_artifact obs, source) of
        (Some artifact, Some store) \<Rightarrow>
          (case materialize (context_builder_new store ARTIFACT_BUDGET) artifact of
             Inr materialized \<Rightarrow> obs\<lparr>obs_preview := mat_content materialized\<rparr>
           | Inl e \<Rightarrow>
               obs\<lparr>obs_error := Some (case obs_error obs of
                 Some existing \<Rightarrow> existing @ ''; '' @ context_error_text e
               | None \<Rightarrow> context_error_text e)\<rparr>)
      | _ \<Rightarrow> obs)"

definition observation_message ::
    "('s, 'w, 'p, 'u) AgentLoop \<Rightarrow> (string \<rightharpoonup> nat) \<Rightarrow> ToolObservation \<Rightarrow> AgentLoopError + ProviderMessage" where
  "observation_message L sequences obs =
     (let obs' = materialize_observation (loop_source L) obs;
          pack = reduce_preserving_anchors ARTIFACT_BUDGET
                   (from_tool_observation obs' (sequences (obs_tool_call_id obs')))
      in case loop_pack_json L pack of
           Inl e \<Rightarrow> Inl (Provider (RequestFailed e))
         | Inr json \<Rightarrow> Inr (tool_message json))"

fun observation_messages ::
    "('s, 'w, 'p, 'u) AgentLoop \<Rightarrow> (string \<rightharpoonup> nat) \<Rightarrow> ToolObservation list \<Rightarrow> AgentLoopError + ProviderMessage list" where
  "observation_messages L sequences [] = Inr []"
| "observation_messages L sequences (obs # rest) =
     rbind (observation_message L sequences obs) (\<lambda>m.
       rbind (observation_messages L sequences rest) (\<lambda>ms. Inr (m # ms)))"

text \<open>
  What follows the model call of an iteration, and the iteration: the messages of the next one, or
  \<open>None\<close> at the final answer.
\<close>

definition settle_turn ::
    "('s, 'w, 'p, 'u) AgentLoop \<Rightarrow> loop_draws \<Rightarrow> uuid \<Rightarrow> ProviderMessage list \<Rightarrow> ModelTurnResult \<Rightarrow> ('s, 'w, 'p) loop_state
     \<Rightarrow> (AgentLoopError + ProviderMessage list option) \<times> ('s, 'w, 'p) loop_state" where
  "settle_turn L d run_id messages turn st =
     (if turn_tool_calls turn = []
      then (case record_agent_final (loop_store L) (lst_runtime st) (ld_final d) run_id (turn_text turn) (lst_store st) of
              (r, s') \<Rightarrow> (map_sum AgentLoopError.Runtime (\<lambda>_. None) r, st\<lparr>lst_store := s'\<rparr>))
      else (let calls = map (\<lambda>(k, tc). (ld_tool d k, tc)) (enumerate 0 (turn_tool_calls turn)) in
            case process_tool_calls (loop_spawn L) (loop_env L) (loop_store L) (loop_orchestrator L) (lst_runtime st)
                   calls (lst_store st) (lst_world st) of
              (observations, s', w') \<Rightarrow>
                (let events = (case runtime_events (loop_store L) (lst_runtime st) s' of Inl _ \<Rightarrow> [] | Inr es \<Rightarrow> es)
                 in (rbind (observation_messages L (event_seq_by_call events) observations) (\<lambda>tool_messages.
                       Inr (Some (messages @ assistant_message (turn_text turn) # tool_messages))),
                     st\<lparr>lst_store := s', lst_world := w'\<rparr>))))"

definition loop_iteration ::
    "('s, 'w, 'p, 'u) AgentLoop \<Rightarrow> loop_draws \<Rightarrow> uuid \<Rightarrow> ProviderMessage list \<Rightarrow> ('s, 'w, 'p) loop_state
     \<Rightarrow> (AgentLoopError + ProviderMessage list option) \<times> ('s, 'w, 'p) loop_state" where
  "loop_iteration L d run_id messages st =
     (case drain_steering (ld_pushed d) st of (fragments, st1) \<Rightarrow>
      sbind (compact_messages L (ld_compaction d) (messages @ map user_message fragments) st1) (\<lambda>messages' st2.
      sbind (call_model_with_retry L (ld_attempt d) run_id messages' 0 st2) (\<lambda>turn st3.
        settle_turn L d run_id messages' turn st3)))"

function loop_from ::
    "('s, 'w, 'p, 'u) AgentLoop \<Rightarrow> (nat \<Rightarrow> loop_draws) \<Rightarrow> uuid \<Rightarrow> nat \<Rightarrow> ProviderMessage list \<Rightarrow> ('s, 'w, 'p) loop_state
     \<Rightarrow> (AgentLoopError + unit) \<times> ('s, 'w, 'p) loop_state" where
  "loop_from L D run_id iteration messages st =
     (if ld_cancelled (D iteration) then (Inl AgentLoopError.Cancelled, st)
      else if MAX_ITERATIONS \<le> iteration then (Inl MaxIterationsExceeded, st)
      else (case loop_iteration L (D iteration) run_id messages st of
              (Inl e, st') \<Rightarrow> (Inl e, st')
            | (Inr None, st') \<Rightarrow> (Inr (), st')
            | (Inr (Some messages'), st') \<Rightarrow> loop_from L D run_id (Suc iteration) messages' st'))"
  by pat_completeness auto
termination
  by (relation "measure (\<lambda>(L, D, r, i, m, st). MAX_ITERATIONS - i)") auto

declare loop_from.simps [simp del]

definition execute_agent_loop ::
    "('s, 'w, 'p, 'u) AgentLoop \<Rightarrow> (nat \<Rightarrow> loop_draws) \<Rightarrow> uuid \<Rightarrow> ProviderMessage list \<Rightarrow> ('s, 'w, 'p) loop_state
     \<Rightarrow> (AgentLoopError + unit) \<times> ('s, 'w, 'p) loop_state" where
  "execute_agent_loop L D run_id initial_messages st = loop_from L D run_id 0 initial_messages st"

section \<open>Model calls are bounded and guarded\<close>

text \<open>
  \<open>model_calls L sid limits n p p'\<close>: \<open>n\<close> calls of the provider lead from its state \<open>p\<close> to \<open>p'\<close>, each made
  while the session \<open>sid\<close> was running and with room for the request under the configured limits.
\<close>

inductive model_calls ::
    "('s, 'w, 'p, 'u) AgentLoop \<Rightarrow> uuid \<Rightarrow> BudgetConfig option \<Rightarrow> nat \<Rightarrow> 'p \<Rightarrow> 'p \<Rightarrow> bool" for L sid limits where
  none: "model_calls L sid limits 0 p p"
| call: "model_calls L sid limits (Suc n) p p2"
    if "model_calls L sid limits n p p1" "runtime_session_id rt = sid"
      "map_option checker_config (runtime_budget rt) = limits"
      "status (loop_store L) rt s = Inr RuntimeStatus.Running"
      "check_budget now (estimate_request_tokens messages) rt = Inr ()"
      "prov_stream (loop_provider L) messages p1 = (items, result, p2)"

inductive_cases model_calls_0E: "model_calls L sid limits 0 p p'"

lemma model_calls_trans:
  "model_calls L sid limits n p1 p2 \<Longrightarrow> model_calls L sid limits m p p1 \<Longrightarrow> model_calls L sid limits (m + n) p p2"
  by (induction rule: model_calls.induct) (auto intro: model_calls.call)

definition limits_of :: "('s, 'w, 'p) loop_state \<Rightarrow> uuid \<times> BudgetConfig option" where
  "limits_of st = (runtime_session_id (lst_runtime st), map_option checker_config (runtime_budget (lst_runtime st)))"

text \<open>A step of the loop keeps the session and its limits and makes at most \<open>k\<close> calls.\<close>

definition calls_at_most ::
    "('s, 'w, 'p, 'u) AgentLoop \<Rightarrow> nat \<Rightarrow> ('s, 'w, 'p) loop_state \<Rightarrow> ('s, 'w, 'p) loop_state \<Rightarrow> bool" where
  "calls_at_most L k st st' \<longleftrightarrow> limits_of st' = limits_of st
     \<and> (\<exists>n \<le> k. model_calls L (fst (limits_of st)) (snd (limits_of st)) n (lst_provider st) (lst_provider st'))"

lemma calls_at_mostI:
  "limits_of st' = limits_of st \<Longrightarrow> lst_provider st' = lst_provider st \<Longrightarrow> calls_at_most L k st st'"
  by (auto simp: calls_at_most_def intro: model_calls.none)

lemma calls_at_most_mono: "calls_at_most L j st st' \<Longrightarrow> j \<le> n \<Longrightarrow> calls_at_most L n st st'"
  unfolding calls_at_most_def by (meson le_trans)

lemma calls_at_most_trans:
  assumes "calls_at_most L j st st1" "calls_at_most L k st1 st2" "j + k \<le> n"
  shows "calls_at_most L n st st2"
proof -
  obtain a b where ab: "a \<le> j" "model_calls L (fst (limits_of st)) (snd (limits_of st)) a (lst_provider st) (lst_provider st1)"
      "b \<le> k" "model_calls L (fst (limits_of st)) (snd (limits_of st)) b (lst_provider st1) (lst_provider st2)"
      "limits_of st2 = limits_of st"
    using assms(1,2) by (auto simp: calls_at_most_def)
  have "a + b \<le> n" using ab(1,3) assms(3) by simp
  then show ?thesis using model_calls_trans [OF ab(4,2)] ab(5) unfolding calls_at_most_def by blast
qed

lemma loop_record_quiet: "loop_record L t pay st = (r, st') \<Longrightarrow> calls_at_most L 0 st st'"
  by (auto simp: loop_record_def limits_of_def split: prod.splits intro!: calls_at_mostI)

lemma sbind_calls:
  assumes "sbind m f = (r, st')" "\<And>x st1. m = (x, st1) \<Longrightarrow> calls_at_most L j st st1"
    and "\<And>x st1. m = (Inr x, st1) \<Longrightarrow> f x st1 = (r, st') \<Longrightarrow> calls_at_most L k st1 st'" "j + k \<le> n"
  shows "calls_at_most L n st st'"
proof -
  obtain x st1 where m: "m = (x, st1)" by (rule prod.exhaust)
  show ?thesis
  proof (cases x)
    case (Inl e)
    then have "calls_at_most L j st st'" using assms(1,2) m by simp
    then show ?thesis using calls_at_most_mono assms(4) by (metis add_leD1)
  next
    case (Inr y)
    then show ?thesis using assms m calls_at_most_trans [of L j st st1 k st' n] by simp
  qed
qed

lemma emit_limit_quiet: "emit_budget_limit_event L t e st = (r, st') \<Longrightarrow> calls_at_most L 0 st st'"
  by (auto simp: emit_budget_limit_event_def split: BudgetError.splits intro: loop_record_quiet calls_at_mostI)

lemma warnings_quiet: "emit_approaching_warnings L d config state st = (r, st') \<Longrightarrow> calls_at_most L 0 st st'"
  unfolding emit_approaching_warnings_def
  by (rule sbind_calls [where j = 0 and k = 0], assumption)
    (auto split: option.splits if_splits intro: loop_record_quiet calls_at_mostI)

lemma usage_events_quiet: "record_usage_events L d st = (r, st') \<Longrightarrow> calls_at_most L 0 st st'"
  unfolding record_usage_events_def
  by (auto simp: Let_def split: option.splits intro: calls_at_mostI
      elim!: sbind_calls [where j = 0 and k = 0] intro: loop_record_quiet warnings_quiet)

lemma record_turn_limits:
  "runtime_record_turn_with_usage B used measured rt s = (r, rt', s') \<Longrightarrow>
     runtime_session_id rt' = runtime_session_id rt
     \<and> map_option checker_config (runtime_budget rt') = map_option checker_config (runtime_budget rt)"
  by (auto simp: runtime_record_turn_with_usage_def record_turn_with_usage_def record_usage_def Let_def
      split: option.splits prod.splits sum.splits)

lemma record_turn_quiet: "loop_record_turn L usage st = (r, st') \<Longrightarrow> calls_at_most L 0 st st'"
  by (auto simp: loop_record_turn_def limits_of_def split: prod.splits dest: record_turn_limits intro!: calls_at_mostI)

lemma finish_turn_quiet: "finish_turn L d estimated acc st = (r, st') \<Longrightarrow> calls_at_most L 0 st st'"
  unfolding finish_turn_def
  by (erule sbind_calls [where j = 0 and k = 0], erule record_turn_quiet)
    (auto elim!: sbind_calls [where j = 0 and k = 0] intro: usage_events_quiet calls_at_mostI)

lemma call_model_calls:
  assumes "call_model L d run_id messages st = (r, st')"
  shows "calls_at_most L 1 st st'"
proof (cases "status (loop_store L) (lst_runtime st) (lst_store st) = Inr RuntimeStatus.Running
    \<and> check_budget (md_now d) (estimate_request_tokens messages) (lst_runtime st) = Inr ()
    \<and> (\<exists>es. runtime_events (loop_store L) (lst_runtime st) (lst_store st) = Inr es)")
  case True
  obtain items result p' where stream: "prov_stream (loop_provider L) messages (lst_provider st) = (items, result, p')"
    by (rule prod_cases3)
  have "model_calls L (fst (limits_of st)) (snd (limits_of st)) (Suc 0) (lst_provider st) p'"
    by (rule model_calls.call [OF model_calls.none _ _ _ _ stream]) (use True in \<open>auto simp: limits_of_def\<close>)
  then have called: "calls_at_most L 1 st (st\<lparr>lst_store := s, lst_provider := p'\<rparr>)" for s
    by (auto simp: calls_at_most_def limits_of_def intro!: exI [of _ 1])
  obtain es ss ss1 where ends: "st' = st\<lparr>lst_store := ss, lst_provider := p'\<rparr> \<or>
      finish_turn L d (estimate_request_tokens messages) es (st\<lparr>lst_store := ss1, lst_provider := p'\<rparr>) = (r, st')"
    using assms True stream
    by (auto simp: call_model_def stream_messages_def Let_def split: prod.splits sum.splits)
  from ends show ?thesis
  proof
    assume "st' = st\<lparr>lst_store := ss, lst_provider := p'\<rparr>"
    then show ?thesis using called by simp
  next
    assume "finish_turn L d (estimate_request_tokens messages) es (st\<lparr>lst_store := ss1, lst_provider := p'\<rparr>) = (r, st')"
    then show ?thesis using calls_at_most_trans [OF called finish_turn_quiet] by simp
  qed
next
  case False
  then show ?thesis
    using assms
    by (auto simp: call_model_def Let_def split: if_splits sum.splits intro: calls_at_mostI
        elim!: sbind_calls [where j = 0 and k = 0] intro: emit_limit_quiet)
qed

lemma retry_calls:
  "call_model_with_retry L D run_id messages made st = (r, st') \<Longrightarrow> made < MAX_RETRY_ATTEMPTS \<Longrightarrow>
     calls_at_most L (MAX_RETRY_ATTEMPTS - made) st st'"
proof (induction L D run_id messages made st arbitrary: r rule: call_model_with_retry.induct)
  case (1 L D run_id messages made st)
  obtain x st1 where call: "call_model L (D made) run_id messages st = (x, st1)" by (rule prod.exhaust)
  note one = call_model_calls [OF call]
  have unfold: "call_model_with_retry L D run_id messages made st = (r, st')" by (fact "1.prems"(1))
  have quiet: "calls_at_most L (MAX_RETRY_ATTEMPTS - made) st st2" if "calls_at_most L 0 st1 st2" for st2
    using calls_at_most_trans [OF one that] "1.prems"(2) by simp
  have here: "calls_at_most L (MAX_RETRY_ATTEMPTS - made) st st1" by (rule quiet) (simp add: calls_at_mostI)
  have recorded: "calls_at_most L (MAX_RETRY_ATTEMPTS - made) st st2" if "loop_record L t pay st1 = (y, st2)" for t pay y st2
    using that by (intro quiet loop_record_quiet)
  have sb: "calls_at_most L (MAX_RETRY_ATTEMPTS - made) st st'" if "sbind (loop_record L t pay st1) (\<lambda>_ st2. (z, st2)) = (r, st')" for t pay z
    using that by (cases "loop_record L t pay st1"; cases "fst (loop_record L t pay st1)") (auto intro: recorded)
  show ?case
  proof (cases x)
    case (Inr turn)
    then show ?thesis
      using unfold call here sb by (auto simp: call_model_with_retry.simps [of L D run_id messages made st] Let_def split: if_splits)
  next
    case (Inl err)
    show ?thesis
    proof (cases "\<exists>e. err = Provider e \<and> is_transient e \<and> Suc made < MAX_RETRY_ATTEMPTS")
      case True
      then obtain e where e: "err = Provider e" "is_transient e" "Suc made < MAX_RETRY_ATTEMPTS" by blast
      let ?pay = "Retry (RetryEvent.Attempting (of_nat (Suc made)) (of_nat MAX_RETRY_ATTEMPTS)
        (provider_error_text e) (INITIAL_BACKOFF_MS * BACKOFF_MULTIPLIER ^ made))"
      obtain y st2 where rec: "loop_record L (md_retry (D made)) ?pay st1 = (y, st2)" by (rule prod.exhaust)
      have two: "calls_at_most L 1 st st2" using calls_at_most_trans [OF one loop_record_quiet [OF rec]] by simp
      have "st' = st2 \<or> call_model_with_retry L D run_id messages (Suc made) st2 = (r, st')"
        using unfold call Inl e rec
        by (auto simp: call_model_with_retry.simps [of L D run_id messages made st] Let_def split: sum.splits if_splits)
      then show ?thesis
      proof
        assume "call_model_with_retry L D run_id messages (Suc made) st2 = (r, st')"
        moreover have "y = Inr ()" "\<not> md_cancelled (D made)" if "st' \<noteq> st2"
          using that unfold call Inl e rec
          by (auto simp: call_model_with_retry.simps [of L D run_id messages made st] Let_def split: sum.splits if_splits)
        ultimately have "calls_at_most L (MAX_RETRY_ATTEMPTS - Suc made) st2 st'" if "st' \<noteq> st2"
          using "1.IH" [OF HOL.refl HOL.refl call [symmetric] Inl, of e] e rec that by auto
        then show ?thesis using calls_at_most_trans [OF two] calls_at_most_mono [OF two] "1.prems"(2) e(3) by (cases "st' = st2") auto
      qed (use two calls_at_most_mono "1.prems"(2) in force)
    next
      case False
      then show ?thesis
        using unfold call Inl here sb
        by (auto simp: call_model_with_retry.simps [of L D run_id messages made st] Let_def split: AgentLoopError.splits if_splits)
    qed
  qed
qed

lemma drain_quiet: "drain_steering pushed st = (fragments, st') \<Longrightarrow> calls_at_most L 0 st st'"
  by (auto simp: drain_steering_def limits_of_def split: option.splits prod.splits intro!: calls_at_mostI)

lemma record_compaction_limits:
  "runtime_record_compaction B tokens rt s = (r, rt', s') \<Longrightarrow>
     runtime_session_id rt' = runtime_session_id rt
     \<and> map_option checker_config (runtime_budget rt') = map_option checker_config (runtime_budget rt)"
  by (auto simp: runtime_record_compaction_def record_compaction_def Let_def split: option.splits prod.splits sum.splits)

lemma compaction_limits:
  assumes "run_durable_compaction_with_store S B now T messages writer rt s = (r, rt', s')"
  shows "runtime_session_id rt' = runtime_session_id rt
     \<and> map_option checker_config (runtime_budget rt') = map_option checker_config (runtime_budget rt)"
  using assms
  by (auto simp: run_durable_compaction_with_store_def Let_def
      split: option.splits prod.splits sum.splits dest: record_compaction_limits)

lemma compact_quiet: "compact_messages L t messages st = (r, st') \<Longrightarrow> calls_at_most L 0 st st'"
  by (auto simp: compact_messages_def limits_of_def split: if_splits prod.splits dest: compaction_limits intro!: calls_at_mostI)

lemma settle_quiet: "settle_turn L d run_id messages turn st = (r, st') \<Longrightarrow> calls_at_most L 0 st st'"
  by (auto simp: settle_turn_def Let_def limits_of_def split: if_splits prod.splits intro!: calls_at_mostI)

lemma iteration_calls:
  assumes "loop_iteration L d run_id messages st = (r, st')"
  shows "calls_at_most L MAX_RETRY_ATTEMPTS st st'"
proof -
  obtain fragments st1 where drain: "drain_steering (ld_pushed d) st = (fragments, st1)" by (rule prod.exhaust)
  have "calls_at_most L MAX_RETRY_ATTEMPTS st1 st'"
    using assms unfolding loop_iteration_def drain prod.case
  proof (rule sbind_calls [where j = 0 and k = MAX_RETRY_ATTEMPTS])
    fix messages' st2
    assume "sbind (call_model_with_retry L (ld_attempt d) run_id messages' 0 st2) (\<lambda>turn st3.
      settle_turn L d run_id messages' turn st3) = (r, st')"
    then show "calls_at_most L MAX_RETRY_ATTEMPTS st2 st'"
      by (rule sbind_calls [where j = MAX_RETRY_ATTEMPTS and k = 0])
        (auto dest: retry_calls settle_quiet simp: MAX_RETRY_ATTEMPTS_def)
  qed (auto intro: compact_quiet)
  from calls_at_most_trans [OF drain_quiet [OF drain] this] show ?thesis by simp
qed

lemma execute_calls:
  "loop_from L D run_id iteration messages st = (r, st') \<Longrightarrow>
     calls_at_most L (MAX_RETRY_ATTEMPTS * (MAX_ITERATIONS - iteration)) st st'"
proof (induction L D run_id iteration messages st arbitrary: r rule: loop_from.induct)
  case (1 L D run_id iteration messages st)
  show ?case
  proof (cases "ld_cancelled (D iteration) \<or> MAX_ITERATIONS \<le> iteration")
    case True
    then show ?thesis using "1.prems" by (auto simp: loop_from.simps [of L D run_id iteration messages st] split: if_splits intro: calls_at_mostI)
  next
    case False
    then have c: "\<not> ld_cancelled (D iteration)" "\<not> MAX_ITERATIONS \<le> iteration" by auto
    obtain x st1 where it: "loop_iteration L (D iteration) run_id messages st = (x, st1)" by (rule prod.exhaust)
    have split: "MAX_RETRY_ATTEMPTS + MAX_RETRY_ATTEMPTS * (MAX_ITERATIONS - Suc iteration)
        = MAX_RETRY_ATTEMPTS * (MAX_ITERATIONS - iteration)"
      using c(2) by (simp add: Suc_diff_Suc flip: mult_Suc_right)
    consider (stop) "st' = st1" | (go) messages' where "x = Inr (Some messages')"
        "loop_from L D run_id (Suc iteration) messages' st1 = (r, st')"
      using "1.prems" c it
      by (auto simp: loop_from.simps [of L D run_id iteration messages st] split: sum.splits option.splits)
    then show ?thesis
    proof cases
      case stop
      then show ?thesis using calls_at_most_mono [OF iteration_calls [OF it]] split by (metis le_add1)
    next
      case go
      have "calls_at_most L (MAX_RETRY_ATTEMPTS * (MAX_ITERATIONS - Suc iteration)) st1 st'"
        by (rule "1.IH" [OF c it [symmetric] go(1) HOL.refl go(2)])
      then show ?thesis using calls_at_most_trans [OF iteration_calls [OF it]] split by (metis order_refl)
    qed
  qed
qed


section \<open>The streamed text is in the log\<close>

fun event_text :: "StreamEvent \<Rightarrow> string" where
  "event_text (TextDelta delta) = delta"
| "event_text _ = []"

fun event_calls :: "StreamEvent \<Rightarrow> ToolCall list" where
  "event_calls (StreamEvent.ToolCall i name arguments) = [\<lparr>call_id = i, call_name = name, call_arguments = arguments\<rparr>]"
| "event_calls _ = []"

text \<open>The run is active in a session of the specification; the next chunk id and the output so far.\<close>

definition streaming :: "uuid \<Rightarrow> uuid \<Rightarrow> nat \<Rightarrow> string \<Rightarrow> MemoryEventStore \<Rightarrow> bool" where
  "streaming sid run_id chunk out s \<longleftrightarrow> session_inv sid s \<and> store_healthy s
     \<and> active_run_id (session_state sid s) = Some run_id \<and> agent_output (session_state sid s) = out
     \<and> 0 < chunk \<and> (\<forall>c. agent_chunk_ids (session_state sid s) run_id = Some c \<longrightarrow> c < chunk)"

lemma record_allowed:
  assumes "session_inv (runtime_session_id rt) s" "store_healthy s" "allowed (session_state (runtime_session_id rt) s) pay"
  shows "\<exists>s' e. runtime_record (memory_ops err) rt t pay s = (Inr (), s') \<and> session_inv (runtime_session_id rt) s'
    \<and> store_healthy s' \<and> payload e = pay
    \<and> session_state (runtime_session_id rt) s' = project_event e (session_state (runtime_session_id rt) s)"
proof -
  have "store_wf s" using assms(1) by (simp add: session_inv_def)
  then obtain e s' where e: "memory_append_next s t (runtime_session_id rt) pay = (Inr e, s')" "payload e = pay"
      "store_healthy s'" "visible s' (runtime_session_id rt) = visible s (runtime_session_id rt) @ [e]"
    using memory_append_ok [OF _ assms(2), of t "runtime_session_id rt" pay] by auto
  have "session_inv (runtime_session_id rt) s'" using session_inv_append [OF assms(1) e(1)] assms(3) by blast
  moreover have "runtime_record (memory_ops err) rt t pay s = (Inr (), s')" by (simp add: runtime_record_def e(1))
  ultimately show ?thesis using e by (auto simp: session_state_def)
qed

lemma streaming_projection:
  assumes "streaming (runtime_session_id rt) run_id chunk out s"
  shows "runtime_projection (memory_ops err) rt s = Inr (session_state (runtime_session_id rt) s)"
proof -
  have inv: "store_wf s" "schema_current s" "parent_of (ms_sessions s) (runtime_session_id rt) = None" "store_healthy s"
    using assms by (simp_all add: streaming_def session_inv_def)
  have "visible s (runtime_session_id rt) \<noteq> []"
    using assms by (auto simp: streaming_def session_state_def)
  then show ?thesis
    using root_reduce [OF inv(1-3)] inv(4)
    by (simp add: runtime_projection_def runtime_events_def memory_list_visible [OF inv(1)])
qed

lemma chunk_recorded:
  assumes "streaming (runtime_session_id rt) run_id chunk out s" "length txt \<le> MAX_AGENT_CHUNK_EVENT_BYTES"
  shows "\<exists>s'. record_agent_chunk (memory_ops err) rt A t run_id chunk txt s = (Inr True, s')
    \<and> streaming (runtime_session_id rt) run_id (Suc chunk) (out @ txt) s'"
proof -
  let ?p = "session_state (runtime_session_id rt) s"
  have st: "session_inv (runtime_session_id rt) s" "store_healthy s" "active_run_id ?p = Some run_id" "0 < chunk"
    "\<And>c. agent_chunk_ids ?p run_id = Some c \<Longrightarrow> c < chunk" "agent_output ?p = out"
    using assms(1) by (auto simp: streaming_def)
  have "allowed ?p (EventPayload.Agent (Chunk run_id chunk txt None))"
    using st(3,5) by (auto simp: allowed_def split: option.split)
  from record_allowed [OF st(1,2) this, of err t] obtain s' e where
      rec: "runtime_record (memory_ops err) rt t (EventPayload.Agent (Chunk run_id chunk txt None)) s = (Inr (), s')"
      "session_inv (runtime_session_id rt) s'" "store_healthy s'"
      "payload e = EventPayload.Agent (Chunk run_id chunk txt None)"
      "session_state (runtime_session_id rt) s' = project_event e ?p"
    by blast
  have "unwrap_or (agent_chunk_ids ?p run_id) 0 < chunk"
    using st(4,5) by (cases "agent_chunk_ids ?p run_id") auto
  then have "streaming (runtime_session_id rt) run_id (Suc chunk) (out @ txt) s'"
    using rec(2-5) st(3,6) by (auto simp: streaming_def project_event_def project_payload_def Let_def)
  moreover have "record_agent_chunk (memory_ops err) rt A t run_id chunk txt s = (Inr True, s')"
    using st(3) st(5) assms(2) rec(1)
    by (auto simp: record_agent_chunk_def record_agent_chunk_with_store_def with_projection_def
        streaming_projection [OF assms(1)] bound_agent_chunk_text_def is_some_and_iff not_le)
  ultimately show ?thesis by blast
qed

text \<open>Payloads that leave the run, its chunks and its output alone.\<close>

definition aside :: "uuid \<Rightarrow> EventPayload \<Rightarrow> bool" where
  "aside run_id pay \<longleftrightarrow>
     (case pay of
        EventPayload.Agent (ReasoningSummary r _) \<Rightarrow> r = run_id
      | EventPayload.Budget _ \<Rightarrow> True
      | _ \<Rightarrow> False)"

lemma aside_recorded:
  assumes "streaming (runtime_session_id rt) run_id chunk out s" "aside run_id pay"
  shows "\<exists>s'. runtime_record (memory_ops err) rt t pay s = (Inr (), s') \<and> streaming (runtime_session_id rt) run_id chunk out s'"
proof -
  let ?p = "session_state (runtime_session_id rt) s"
  have "allowed ?p pay" using assms by (auto simp: aside_def allowed_def streaming_def split: EventPayload.splits AgentEvent.splits)
  with assms(1) obtain s' e where "runtime_record (memory_ops err) rt t pay s = (Inr (), s')"
      "session_inv (runtime_session_id rt) s'" "store_healthy s'" "payload e = pay"
      "session_state (runtime_session_id rt) s' = project_event e ?p"
    using record_allowed [of rt s pay err t] unfolding streaming_def by blast
  then show ?thesis
    using assms by (auto simp: streaming_def aside_def project_event_def project_payload_def
        split: EventPayload.splits AgentEvent.splits)
qed

definition stream_inv :: "uuid \<Rightarrow> uuid \<Rightarrow> string \<Rightarrow> MemoryEventStore stream_state \<Rightarrow> bool" where
  "stream_inv sid run_id out0 ss \<longleftrightarrow>
     (\<exists>out. streaming sid run_id (ss_chunk_id ss) out (ss_store ss) \<and> out @ ss_buf ss = out0 @ acc_text (ss_acc ss))
     \<and> length (ss_buf ss) < AGENT_CHUNK_COALESCE_BYTES"

lemma flush_ok:
  assumes "streaming (runtime_session_id rt) run_id (ss_chunk_id ss) out (ss_store ss)" "loop_store L = memory_ops err"
    and "length (ss_buf ss) \<le> MAX_AGENT_CHUNK_EVENT_BYTES"
  shows "\<exists>ss' out'. flush_coalesced_chunk L rt t run_id force ss = (Inr (), ss') \<and> ss_acc ss' = ss_acc ss
    \<and> streaming (runtime_session_id rt) run_id (ss_chunk_id ss') out' (ss_store ss') \<and> out' @ ss_buf ss' = out @ ss_buf ss
    \<and> length (ss_buf ss') < AGENT_CHUNK_COALESCE_BYTES \<and> (force \<longrightarrow> ss_buf ss' = [])"
proof (cases "ss_buf ss = [] \<or> \<not> force \<and> length (ss_buf ss) < AGENT_CHUNK_COALESCE_BYTES")
  case True
  then have "flush_coalesced_chunk L rt t run_id force ss = (Inr (), ss)" by (auto simp: flush_coalesced_chunk_def)
  then show ?thesis using assms(1) True by (auto simp: AGENT_CHUNK_COALESCE_BYTES_def)
next
  case False
  obtain s' where "record_agent_chunk (memory_ops err) rt (loop_chunk_store L) t run_id (ss_chunk_id ss) (ss_buf ss) (ss_store ss) = (Inr True, s')"
      "streaming (runtime_session_id rt) run_id (Suc (ss_chunk_id ss)) (out @ ss_buf ss) s'"
    using chunk_recorded [OF assms(1,3)] by blast
  then show ?thesis using False assms(2) by (auto simp: flush_coalesced_chunk_def AGENT_CHUNK_COALESCE_BYTES_def)
qed

lemma reasoning_ok:
  assumes "streaming (runtime_session_id rt) run_id chunk out s"
  shows "\<exists>b s'. record_agent_reasoning_summary (memory_ops err) rt t run_id content s = (Inr b, s')
    \<and> streaming (runtime_session_id rt) run_id chunk out s'"
proof -
  have active: "active_run_id (session_state (runtime_session_id rt) s) = Some run_id" using assms by (simp add: streaming_def)
  let ?txt = "if 2048 < char_count (trim content) then take_chars 2048 (trim content) @ ellipsis else trim content"
  obtain s' where "runtime_record (memory_ops err) rt t (EventPayload.Agent (ReasoningSummary run_id ?txt)) s = (Inr (), s')"
      "streaming (runtime_session_id rt) run_id chunk out s'"
    using aside_recorded [OF assms, of "EventPayload.Agent (ReasoningSummary run_id ?txt)" err t] by (auto simp: aside_def)
  then show ?thesis
    using assms active
    by (cases "trim content = []") (auto simp: record_agent_reasoning_summary_def with_projection_def Let_def
        streaming_projection [OF assms])
qed

lemma on_event_ok:
  assumes "stream_inv (runtime_session_id rt) run_id out0 ss" "loop_store L = memory_ops err"
    and "length (event_text event) \<le> MAX_AGENT_CHUNK_EVENT_BYTES - AGENT_CHUNK_COALESCE_BYTES"
  shows "\<exists>ss'. on_event L rt t run_id event ss = (Inr (), ss') \<and> stream_inv (runtime_session_id rt) run_id out0 ss'
    \<and> acc_text (ss_acc ss') = acc_text (ss_acc ss) @ event_text event
    \<and> acc_tool_calls (ss_acc ss') = acc_tool_calls (ss_acc ss) @ event_calls event"
proof -
  obtain out where inv: "streaming (runtime_session_id rt) run_id (ss_chunk_id ss) out (ss_store ss)"
      "out @ ss_buf ss = out0 @ acc_text (ss_acc ss)" "length (ss_buf ss) < AGENT_CHUNK_COALESCE_BYTES"
    using assms(1) by (auto simp: stream_inv_def)
  have small: "length (ss_buf ss) \<le> MAX_AGENT_CHUNK_EVENT_BYTES"
    using inv(3) by (simp add: AGENT_CHUNK_COALESCE_BYTES_def MAX_AGENT_CHUNK_EVENT_BYTES_def)
  obtain ss1 out1 where forced: "flush_coalesced_chunk L rt (fst t) run_id True ss = (Inr (), ss1)" "ss_acc ss1 = ss_acc ss"
      "streaming (runtime_session_id rt) run_id (ss_chunk_id ss1) out1 (ss_store ss1)" "out1 @ ss_buf ss1 = out @ ss_buf ss"
      "length (ss_buf ss1) < AGENT_CHUNK_COALESCE_BYTES"
    using flush_ok [OF inv(1) assms(2) small, of "fst t" True] by blast
  have inv1: "stream_inv (runtime_session_id rt) run_id out0 ss1" using forced(2-5) inv(2) by (auto simp: stream_inv_def)
  show ?thesis
  proof (cases event)
    case (TextDelta delta)
    let ?ss = "ss\<lparr>ss_buf := ss_buf ss @ delta\<rparr>"
    have "length (ss_buf ?ss) \<le> MAX_AGENT_CHUNK_EVENT_BYTES"
      using inv(3) assms(3) TextDelta by (simp add: AGENT_CHUNK_COALESCE_BYTES_def MAX_AGENT_CHUNK_EVENT_BYTES_def)
    then obtain ss2 out2 where "flush_coalesced_chunk L rt (fst t) run_id False ?ss = (Inr (), ss2)" "ss_acc ss2 = ss_acc ss"
        "streaming (runtime_session_id rt) run_id (ss_chunk_id ss2) out2 (ss_store ss2)" "out2 @ ss_buf ss2 = out @ ss_buf ss @ delta"
        "length (ss_buf ss2) < AGENT_CHUNK_COALESCE_BYTES"
      using flush_ok [of rt run_id ?ss out L err "fst t" False] inv(1) assms(2) by auto
    then show ?thesis using TextDelta inv(2) by (auto simp: stream_inv_def)
  next
    case (Reasoning content)
    obtain b s' where "record_agent_reasoning_summary (memory_ops err) rt (snd t) run_id content (ss_store ss1) = (Inr b, s')"
        "streaming (runtime_session_id rt) run_id (ss_chunk_id ss1) out1 s'"
      using reasoning_ok [OF forced(3)] by blast
    then show ?thesis using Reasoning forced inv(2) assms(2) by (auto simp: stream_inv_def)
  qed (use assms(1) inv1 forced(1,2) in \<open>auto simp: stream_inv_def\<close>)
qed

lemma run_stream_ok:
  assumes "loop_store L = memory_ops err"
    and "list_all (\<lambda>e. length (event_text e) \<le> MAX_AGENT_CHUNK_EVENT_BYTES - AGENT_CHUNK_COALESCE_BYTES) events"
    and "stream_inv (runtime_session_id rt) run_id out0 ss"
  shows "\<exists>ss'. run_stream L rt d run_id k (map Emit events) ss = (Inr (), ss') \<and> stream_inv (runtime_session_id rt) run_id out0 ss'
    \<and> acc_text (ss_acc ss') = acc_text (ss_acc ss) @ concat (map event_text events)
    \<and> acc_tool_calls (ss_acc ss') = acc_tool_calls (ss_acc ss) @ concat (map event_calls events)"
  using assms(2,3)
proof (induction events arbitrary: ss k)
  case (Cons e events)
  obtain ss1 where one: "on_event L rt (md_chunk d k, md_reasoning d k) run_id e ss = (Inr (), ss1)"
      "stream_inv (runtime_session_id rt) run_id out0 ss1" "acc_text (ss_acc ss1) = acc_text (ss_acc ss) @ event_text e"
      "acc_tool_calls (ss_acc ss1) = acc_tool_calls (ss_acc ss) @ event_calls e"
    using on_event_ok [OF Cons.prems(2) assms(1), of e "(md_chunk d k, md_reasoning d k)"] Cons.prems(1) by auto
  moreover obtain ss2 where "run_stream L rt d run_id (Suc k) (map Emit events) ss1 = (Inr (), ss2)"
      "stream_inv (runtime_session_id rt) run_id out0 ss2"
      "acc_text (ss_acc ss2) = acc_text (ss_acc ss1) @ concat (map event_text events)"
      "acc_tool_calls (ss_acc ss2) = acc_tool_calls (ss_acc ss1) @ concat (map event_calls events)"
    using Cons.IH [OF _ one(2), of "Suc k"] Cons.prems(1) by auto
  ultimately show ?case by auto
qed auto

text \<open>The first id of a call is above the ids of the run.\<close>

lemma next_chunk_step:
  assumes "allowed p (payload e)"
  shows "map_option Suc (agent_chunk_ids (project_event e p) run_id)
    = (case next_chunk_of run_id e of Some n \<Rightarrow> Some n | None \<Rightarrow> map_option Suc (agent_chunk_ids p run_id))"
proof (cases "payload e")
  case (Agent a)
  then show ?thesis
    using assms by (cases a) (auto simp: next_chunk_of_def project_event_def project_payload_def allowed_def Let_def
        split: option.splits)
next
  case (Run r)
  then show ?thesis by (cases r) (auto simp: next_chunk_of_def project_event_def project_payload_def project_run_def)
qed (auto simp: next_chunk_of_def project_event_def project_payload_def split: SessionEvent.split ApprovalEvent.split)

lemma first_chunk:
  "session_log sid es \<Longrightarrow>
     find_map (next_chunk_of run_id) (rev es)
     = map_option Suc (agent_chunk_ids (fold project_event es (projection_new sid)) run_id)"
proof (induction rule: session_log.induct)
  case (snoc es e)
  then show ?case using next_chunk_step [OF snoc(2), of run_id] by (simp split: option.split)
qed (simp add: projection_new_def)

lemma call_starts_streaming:
  assumes "session_inv sid s" "store_healthy s" "active_run_id (session_state sid s) = Some run_id"
  shows "streaming sid run_id (unwrap_or (find_map (next_chunk_of run_id) (rev (visible s sid))) 1)
    (agent_output (session_state sid s)) s"
proof -
  have "find_map (next_chunk_of run_id) (rev (visible s sid)) = map_option Suc (agent_chunk_ids (session_state sid s) run_id)"
    using first_chunk [of sid "visible s sid" run_id] assms(1) by (simp add: session_inv_def session_state_def)
  then show ?thesis using assms by (cases "agent_chunk_ids (session_state sid s) run_id") (auto simp: streaming_def)
qed

text \<open>The events after the stream.\<close>

lemma loop_record_aside:
  assumes "streaming (runtime_session_id (lst_runtime st)) run_id chunk out (lst_store st)" "loop_store L = memory_ops err"
    and "aside run_id pay"
  shows "\<exists>s'. loop_record L t pay st = (Inr (), st\<lparr>lst_store := s'\<rparr>)
    \<and> streaming (runtime_session_id (lst_runtime st)) run_id chunk out s'"
  using aside_recorded [OF assms(1,3), of err t] assms(2) by (auto simp: loop_record_def)

lemma warning_ok:
  assumes "streaming (runtime_session_id (lst_runtime st)) run_id chunk out (lst_store st)" "loop_store L = memory_ops err"
  shows "\<exists>s'. (case limit of Some l \<Rightarrow> if P l then loop_record L t (EventPayload.Budget (pay l)) st else (Inr (), st)
        | None \<Rightarrow> (Inr (), st)) = (Inr (), st\<lparr>lst_store := s'\<rparr>)
      \<and> streaming (runtime_session_id (lst_runtime st)) run_id chunk out s'"
  using assms(1) loop_record_aside [OF assms, of "EventPayload.Budget (pay l)" t for l]
  by (cases limit) (auto simp: aside_def intro!: exI [of _ "lst_store st"])

lemma warnings_ok:
  assumes "streaming (runtime_session_id (lst_runtime st)) run_id chunk out (lst_store st)" "loop_store L = memory_ops err"
  shows "\<exists>s'. emit_approaching_warnings L d config state st = (Inr (), st\<lparr>lst_store := s'\<rparr>)
    \<and> streaming (runtime_session_id (lst_runtime st)) run_id chunk out s'"
proof -
  obtain s1 where one: "(case max_turns config of
      Some limit \<Rightarrow> if approaching (unat (turns_used state)) (unat limit)
        then loop_record L (md_turn_warning d) (EventPayload.Budget (TurnLimitApproaching limit (turns_used state))) st
        else (Inr (), st)
    | None \<Rightarrow> (Inr (), st)) = (Inr (), st\<lparr>lst_store := s1\<rparr>)"
      "streaming (runtime_session_id (lst_runtime st)) run_id chunk out s1"
    using warning_ok [OF assms, where limit = "max_turns config" and P = "\<lambda>l. approaching (unat (turns_used state)) (unat l)"
        and t = "md_turn_warning d" and pay = "\<lambda>l. TurnLimitApproaching l (turns_used state)"] by blast
  have "streaming (runtime_session_id (lst_runtime (st\<lparr>lst_store := s1\<rparr>))) run_id chunk out (lst_store (st\<lparr>lst_store := s1\<rparr>))"
    using one(2) by simp
  from warning_ok [OF this assms(2), where limit = "Budget.max_tokens config" and P = "\<lambda>l. approaching (unat (tokens_used state)) (unat l)"
      and t = "md_token_warning d" and pay = "\<lambda>l. TokenLimitApproaching l (tokens_used state)"]
  show ?thesis unfolding emit_approaching_warnings_def one(1) sbind_simps by simp
qed

lemma usage_events_ok:
  assumes "streaming (runtime_session_id (lst_runtime st)) run_id chunk out (lst_store st)" "loop_store L = memory_ops err"
  shows "\<exists>s'. record_usage_events L d st = (Inr (), st\<lparr>lst_store := s'\<rparr>)
    \<and> streaming (runtime_session_id (lst_runtime st)) run_id chunk out s'"
proof (cases "runtime_budget (lst_runtime st)")
  case None
  then show ?thesis using assms(1) by (auto simp: record_usage_events_def intro!: exI [of _ "lst_store st"])
next
  case (Some checker)
  let ?state = "checker_state checker" and ?config = "checker_config checker"
  let ?percent = "case context_limit ?config of Some limit \<Rightarrow> context_used_percent ?state limit | None \<Rightarrow> 0"
  obtain s1 where one: "loop_record L (md_updated d) (EventPayload.Budget (Updated (turns_used ?state) (tokens_used ?state)
      (0 < measured_tokens ?state) (compaction_count ?state) ?percent)) st = (Inr (), st\<lparr>lst_store := s1\<rparr>)"
      "streaming (runtime_session_id (lst_runtime st)) run_id chunk out s1"
    using loop_record_aside [OF assms, of "EventPayload.Budget b" "md_updated d" for b] by (auto simp: aside_def)
  have "streaming (runtime_session_id (lst_runtime (st\<lparr>lst_store := s1\<rparr>))) run_id chunk out (lst_store (st\<lparr>lst_store := s1\<rparr>))"
    using one(2) by simp
  from warnings_ok [OF this assms(2), of d ?config ?state] show ?thesis
    using Some one(1) by (auto simp: record_usage_events_def Let_def)
qed

lemma finish_turn_ok:
  assumes "streaming (runtime_session_id (lst_runtime st)) run_id chunk out (lst_store st)" "loop_store L = memory_ops err"
    and "loop_rows L = memory_rows now"
  shows "\<exists>turn st'. finish_turn L d estimated acc st = (Inr turn, st') \<and> turn_text turn = acc_text acc
    \<and> turn_tool_calls turn = acc_tool_calls acc \<and> lst_provider st' = lst_provider st
    \<and> streaming (runtime_session_id (lst_runtime st)) run_id chunk out (lst_store st')"
proof -
  obtain st1 where turn: "loop_record_turn L (turn_usage estimated acc) st = (Inr (), st1)" "lst_store st1 = lst_store st"
      "lst_provider st1 = lst_provider st" "runtime_session_id (lst_runtime st1) = runtime_session_id (lst_runtime st)"
    by (cases "runtime_budget (lst_runtime st)") (auto simp: loop_record_turn_def runtime_record_turn_with_usage_def Let_def
        assms(3) memory_rows_def memory_update_budget_state_def)
  then have "streaming (runtime_session_id (lst_runtime st1)) run_id chunk out (lst_store st1)" using assms(1) by simp
  from usage_events_ok [OF this assms(2), of d] show ?thesis
    using turn by (auto simp: finish_turn_def)
qed


section \<open>Steering reaches the loop\<close>

text \<open>
  Draining gives the fragments of the session that were pushed since the last time, in order and
  without the empty ones, and leaves those of the other sessions.
\<close>

definition pushed_for :: "uuid \<Rightarrow> (uuid \<times> string) list \<Rightarrow> string list" where
  "pushed_for sid pushes = map snd (filter (\<lambda>(i, x). i = sid \<and> x \<noteq> []) pushes)"

lemma steer_pushes: "unwrap_or (fold (\<lambda>(i, x). steer_push i x) pushes q sid) [] = unwrap_or (q sid) [] @ pushed_for sid pushes"
  by (induction pushes arbitrary: q) (auto simp: pushed_for_def steer_push_def split: if_splits)

lemma steer_drain_pushes:
  assumes "steer_drain sid (fold (\<lambda>(i, x). steer_push i x) pushes q) = (fragments, q')"
  shows "fragments = unwrap_or (q sid) [] @ pushed_for sid pushes \<and> q' sid = None
    \<and> (\<forall>i. i \<noteq> sid \<longrightarrow> unwrap_or (q' i) [] = unwrap_or (q i) [] @ pushed_for i pushes)"
  using assms by (auto simp: steer_drain_def steer_pushes)

section \<open>Concrete runs\<close>

definition started_store :: MemoryEventStore where
  "started_store = snd (memory_append_next demo_store1 (300, 9) 1 (Run (RunEvent.Started 7)))"

lemma started:
  "session_inv 1 started_store" "store_healthy started_store"
  "active_run_id (session_state 1 started_store) = Some 7" "agent_output (session_state 1 started_store) = []"
  "pending_approvals (session_state 1 started_store) = Map.empty"
proof -
  have wf: "store_wf demo_store1" using store_run_wf [OF demo_store1_run store_wf_default] .
  have inv: "session_inv 1 demo_store1"
    using wf schema_current_run [OF demo_store1_run schema_current_default] demo_root demo_session_log by (simp add: session_inv_def)
  obtain e s where a: "memory_append_next demo_store1 (300, 9) 1 (Run (RunEvent.Started 7)) = (Inr e, s)"
    "payload e = Run (RunEvent.Started 7)" "store_healthy s" "visible s 1 = [demo_event 1, demo_event 2] @ [e]"
    using memory_append_ok [OF wf demo_healthy1, of "(300, 9)" 1 "Run (RunEvent.Started 7)"] by (auto simp: demo_visible1)
  then have s: "started_store = s" by (simp add: started_store_def)
  have "allowed (session_state 1 demo_store1) (Run (RunEvent.Started 7))"
    by (simp add: allowed_def session_state_def demo_visible1 demo_event_def project_event_def project_payload_def)
  then show "session_inv 1 started_store" using session_inv_append [OF inv a(1)] s by simp
  show "store_healthy started_store" "active_run_id (session_state 1 started_store) = Some 7"
    "agent_output (session_state 1 started_store) = []" "pending_approvals (session_state 1 started_store) = Map.empty"
    using a(2-4)
    by (simp_all add: s session_state_def demo_event_def project_event_def project_payload_def project_run_def projection_new_def)
qed

definition demo_loop ::
    "(MemoryEventStore stream_item list \<times> (ProviderError + unit)) \<Rightarrow> (MemoryEventStore, nat, nat, string) AgentLoop" where
  "demo_loop answer =
     \<lparr>loop_store = memory_ops (\<lambda>_. []), loop_rows = memory_rows 0, loop_env = demo_env, loop_orchestrator = demo_orchestrator,
      loop_spawn = (\<lambda>_ s w. ([], s, w)), loop_provider = \<lparr>prov_stream = (\<lambda>_ p. (fst answer, snd answer, Suc p)), prov_relay = id\<rparr>,
      loop_chunk_store = None, loop_compaction_store = None, loop_source = None, loop_pack_json = (\<lambda>_. Inr [])\<rparr>"

definition demo_state :: "(MemoryEventStore, nat, nat) loop_state" where
  "demo_state = \<lparr>lst_runtime = demo_runtime, lst_store = started_store, lst_world = 0, lst_provider = 0, lst_queue = None\<rparr>"

definition demo_model_draws :: model_draws where
  "demo_model_draws = \<lparr>md_now = 0, md_chunk = (\<lambda>k. (of_nat (400 + k), k)), md_reasoning = (\<lambda>k. (of_nat (500 + k), k)),
     md_flush = (600, 1), md_limit = (601, 1), md_updated = (602, 1), md_turn_warning = (603, 1), md_token_warning = (604, 1),
     md_retry = (605, 1), md_cancelled = False\<rparr>"

definition demo_loop_draws :: loop_draws where
  "demo_loop_draws = \<lparr>ld_cancelled = False, ld_pushed = [], ld_compaction = (0, (700, 1), (701, 1), (702, 1)),
     ld_attempt = (\<lambda>_. demo_model_draws), ld_tool = (\<lambda>_. demo_draws), ld_final = (703, 1)\<rparr>"

lemma demo_fields [simp]:
  "loop_store (demo_loop answer) = memory_ops (\<lambda>_. [])" "loop_rows (demo_loop answer) = memory_rows 0"
  "prov_stream (loop_provider (demo_loop answer)) messages p = (fst answer, snd answer, Suc p)"
  "lst_runtime demo_state = demo_runtime" "lst_store demo_state = started_store" "lst_provider demo_state = 0"
  "lst_queue demo_state = None" "runtime_budget demo_runtime = None"
  by (simp_all add: demo_loop_def demo_state_def demo_runtime_def runtime_with_def)

lemma demo_ready:
  "status (memory_ops (\<lambda>_. [])) demo_runtime started_store = Inr RuntimeStatus.Running"
  "check_budget now tokens demo_runtime = Inr ()"
proof -
  have "streaming (runtime_session_id demo_runtime) 7
      (unwrap_or (find_map (next_chunk_of 7) (rev (visible started_store 1))) 1) [] started_store"
    using call_starts_streaming [OF started(1-3)] started(4) by simp
  from streaming_projection [OF this, of "\<lambda>_. []"]
  show "status (memory_ops (\<lambda>_. [])) demo_runtime started_store = Inr RuntimeStatus.Running"
    using started(3,5) by (simp add: status_def)
qed (simp add: check_budget_def)



end
