(* ===== verification/Spec2Isabelle.thy ===== *)
theory Spec2Isabelle
  imports Web_Client Workflow_Runtime Agent_Loop
begin

text \<open>
  Impetus is a harness for coding agents, written in Rust. A session is an append-only log of typed
  events; everything that changes the world is normalized to an effect, passes a policy, a sandbox
  and a risk gate, waits for the user's approval where one is needed, and runs under a write-ahead
  fence. Around this kernel there are an agent loop that alternates model turns with tool calls,
  a scheduler for child agents, a workflow engine, and clients for the web. This development
  models these parts of \<open>src/crates/impetus-core/src\<close>, and the types of
  \<open>src/crates/impetus-protocol/src\<close> and \<open>src/crates/impetus-extension-sdk/src\<close> that they use, and proves
  what makes them correct.

  \<^bold>\<open>How the code is modelled.\<close> A struct is a record, an enum a datatype with the same constructors, a
  method a function of the same name; a name that would clash has a prefix that says what it belongs
  to. \<open>Result<T, E>\<close> is the sum \<open>'e + 'a\<close> with \<open>Inl\<close> for the error. A method on \<open>&mut self\<close>, or behind
  a lock, returns its result together with the new state; the operators \<open>rbind\<close> and \<open>sbind\<close> stand for
  \<open>?\<close>. Integers whose overflow matters are words, sizes and sequence numbers are naturals. A string
  is the list of its UTF-8 bytes. What the code draws from its environment (ids, time stamps, the iteration
  order of a hash map, cancellation) is an argument. Code that is not part of the repository, such as the URL parser,
  SHA-256, the JSON printer, the disk, DNS and HTTP transport, SQLite statements and the model providers behind
  their trait, is a parameter; where a theorem needs something of it, this is a hypothesis
  of the theorem, and its witness instantiates the parameter.

  \<^bold>\<open>Foundations.\<close> \<open>Impetus_Prelude\<close> has the shared types and the two binds with their rules. \<open>Rust_Std\<close> is
  the part of the standard library that the code calls: characters and white space in UTF-8, splitting and joining,
  paths, numbers as text.

  \<^bold>\<open>Types and events.\<close> \<open>Protocol_Types\<close> (\<open>types.rs\<close>) has modes, actions and their fingerprints, approvals and
  the policy documents. \<open>Events\<close> (\<open>events.rs\<close>) has every payload of a log, and the bounds on previews.

  \<^bold>\<open>The log.\<close> \<open>Event_Store\<close> (\<open>storage.rs\<close>) is the in-memory store with sessions, forks and
  checkpoints. The locale \<open>event_log\<close> says what a client may rely on, \<open>store_client\<close> extends it to a store
  passed as a trait object, and both are interpreted on the in-memory store. Reachable stores are numbered without a gap across
  forks, and the paging loop is a slice of what a session sees. \<open>Projection\<close> (\<open>projection.rs\<close>) folds a
  log to the state of its session; on every reachable store it succeeds and runs are well formed.

  \<^bold>\<open>Permission.\<close> \<open>Web_Security\<close> and \<open>Web_Client\<close> (\<open>web_research/security.rs\<close>, \<open>web_research/http.rs\<close>) classify
  addresses, validate URLs and follow redirects; every address that is contacted was checked. \<open>Policy\<close>
  (\<open>policy.rs\<close>, \<open>extension_policy.rs\<close>) evaluates actions against a scope and overrides, which are shared between clones of an
  engine through the heap \<open>policy_heap\<close>. \<open>Risk_Gate\<close> (\<open>risk_gate.rs\<close> and the effect constructors of \<open>effects.rs\<close>) is the classifier of
  commands and targets. \<open>Effect_Fence\<close> (\<open>effect_fence.rs\<close>) and \<open>Effects\<close> (\<open>effects.rs\<close>) compose them:
  no execution without the user's approval of this very effect, and at most one execution of an invocation even across a crash,
  stated as an invariant of the log.

  \<^bold>\<open>Sessions.\<close> \<open>Budget\<close>, \<open>Completion\<close> and \<open>Runtime\<close> (\<open>budget.rs\<close>, \<open>completion_gate.rs\<close>,
  \<open>obligation_ledger.rs\<close>, \<open>gap_loop.rs\<close>, \<open>runtime.rs\<close>) are the operations on one session. The
  specification is the state machine \<open>allowed\<close> over projections: which event may come next. The
  inductive relation \<open>runtime_step\<close> has one rule for each operation, and its runs refine the specification. Doubles are rounded
  rationals \<open>f64\<close>.

  \<^bold>\<open>Tools.\<close> \<open>Tool_Schema\<close> (\<open>tool_schema.rs\<close>) accepts exactly well-typed arguments. \<open>Text_Reduction\<close> (\<open>tools.rs\<close>,
  \<open>output_reducer.rs\<close>) redacts and reduces text. \<open>Workspace_Tools\<close> (\<open>tools.rs\<close>) lists, reads and searches
  the workspace and writes approved files. \<open>Tool_Orchestrator\<close> (\<open>tool_orchestrator.rs\<close>, \<open>mcp_live.rs\<close>)
  takes a tool call to its observation: a service is reached only with permission, every call leaves
  exactly one observation in the log, and an approved write stays below the root.

  \<^bold>\<open>The agent loop.\<close> \<open>Observations\<close> (\<open>observation_pack.rs\<close>, \<open>compaction.rs\<close> and the compaction of
  \<open>runtime.rs\<close>) packs observations with anchors to their evidence and folds old messages; the locale
  \<open>budgeted_store\<close> adds the budget rows to a store. \<open>Context_Builder\<close> (\<open>context_builder.rs\<close>) reads artifacts
  in windows; the windows do not show in the text. \<open>Agent_Loop\<close> (\<open>agent_loop.rs\<close>, \<open>steer_rewrite.rs\<close>)
  is the loop with its retries: it ends after at most 150 guarded model calls, and the streamed text is
  what the projection of the log shows.

  \<^bold>\<open>Children and workflows.\<close> \<open>Write_Sets\<close> (\<open>declared_write_set.rs\<close>), \<open>Agent_Scheduler\<close>
  (\<open>subagent_metadata.rs\<close>, \<open>agent_scheduler.rs\<close>, \<open>child_concurrency.rs\<close>) and \<open>Child_Runs\<close> (\<open>child_result_store.rs\<close>,
  \<open>role_child.rs\<close>, \<open>explore_child.rs\<close>) admit children: leases of different writers do not overlap, caps hold, and a failed
  admission leaves no trace. \<open>User_Intents\<close> (\<open>user_intent.rs\<close>) queues prompts. \<open>Workflow_Recipe\<close> and
  \<open>Workflow_Engine\<close> (\<open>workflow_engine.rs\<close>) validate recipes, by the equivalence of the
  queue algorithm with acyclicity, and run them without deadlock. \<open>Workflow_Runtime\<close> (\<open>workflow_runtime.rs\<close>) drives
  the engine of a session while the lock is released to children, whose effects are arbitrary interference.

  \<^bold>\<open>Loops.\<close> Nothing is cut off by a bound that the code does not have. Loops over data are structural or have a
  measure; the bounds of retries, redirects, iterations and reads are the constants of the code. The loop
  \<open>advance_until_blocked\<close>, which could run forever under interference, is a partial function into \<open>option\<close>, and
  that it returns is a theorem.

  \<^bold>\<open>Assumptions.\<close> Operations on one lock are atomic. Tool calls that run in parallel appear as a parameter that gives their
  observations; the theorems on logs instantiate it with the calls in order. Theorems on a
  concrete log are about the in-memory store. Sizes stay below the width of a machine word unless a word is used.
  A panic of the code is a branch of the model where it can occur.

  \<^bold>\<open>Not modelled.\<close> The SQLite store, whose behaviour is that of its statements; the request envelope and its
  dispatch in \<open>harness_api.rs\<close>, which is serialization, locks and forwarding; the HTTP adapters of the model
  providers and their registry; extension packages and adapters; worktrees, which are driven by git;
  processes, sandbox profiles, remote sessions; the search back ends of the web tools; the memory and
  reference stores; daemon wiring, command line and terminal interface. They are input and output, or glue
  around libraries that are not part of the repository.
\<close>

end
